(* ===== verification/Prelude.thy ===== *)
theory Prelude
  imports Complex_Main "HOL-Library.Char_ord" "HOL-Library.List_Lexorder" "HOL-Library.Sublist"
begin

text \<open>
  The vocabulary every component shares.

  Text.  A Python string is a \<^typ>\<open>string\<close> whose characters are read as the code
  points U+0000 to U+00FF; on these \<open>lower\<close>, \<open>strip\<close> and \<open>split\<close> below are
  exactly Python's.  Only file names and titles need all of Unicode: the theory
  \<open>DeliveryFilename\<close> works on lists of code points.

  Numbers.  Python integers are \<^typ>\<open>int\<close>.  A float is the rational it denotes
  (\<^typ>\<open>rat\<close>); the rounding of floating-point arithmetic is not modelled.

  Effects.  A coroutine or a method with side effects is a function from the world to an
  outcome and the world after it (\<open>io\<close>): \<open>Inl e\<close> when it raises \<open>e\<close>, \<open>Inr x\<close>
  when it returns \<open>x\<close>.  What was done before an exception stays done.
\<close>

named_theorems io_simps \<open>unfold the effect combinators\<close>
named_theorems text_simps \<open>unfold the string operations\<close>

section \<open>Strings\<close>

definition lower_char :: "char \<Rightarrow> char" where
  "lower_char c =
     (let n = (of_char c :: nat)
      in if (65 \<le> n \<and> n \<le> 90) \<or> (192 \<le> n \<and> n \<le> 222 \<and> n \<noteq> 215) then char_of (n + 32) else c)"

definition py_lower :: "string \<Rightarrow> string" where
  "py_lower s = map lower_char s"

text \<open>\<open>str.isspace\<close> on one code point below U+0100.\<close>

definition is_space :: "char \<Rightarrow> bool" where
  "is_space c =
     (let n = (of_char c :: nat)
      in (9 \<le> n \<and> n \<le> 13) \<or> (28 \<le> n \<and> n \<le> 32) \<or> n = 133 \<or> n = 160)"

definition lstrip_by :: "('a \<Rightarrow> bool) \<Rightarrow> 'a list \<Rightarrow> 'a list" where
  "lstrip_by P s = dropWhile P s"

definition rstrip_by :: "('a \<Rightarrow> bool) \<Rightarrow> 'a list \<Rightarrow> 'a list" where
  "rstrip_by P s = rev (dropWhile P (rev s))"

definition strip_by :: "('a \<Rightarrow> bool) \<Rightarrow> 'a list \<Rightarrow> 'a list" where
  "strip_by P s = rstrip_by P (lstrip_by P s)"

definition py_strip :: "string \<Rightarrow> string" where
  "py_strip s = strip_by is_space s"

text \<open>\<open>s.partition(c)\<close>: what is before the first \<open>c\<close>, whether there is one, what is after.\<close>

fun partition_at :: "'a \<Rightarrow> 'a list \<Rightarrow> 'a list \<times> bool \<times> 'a list" where
  "partition_at c [] = ([], False, [])"
| "partition_at c (x # xs) =
     (if x = c then ([], True, xs)
      else (case partition_at c xs of (a, found, b) \<Rightarrow> (x # a, found, b)))"

text \<open>\<open>s.rpartition(c)\<close>: split at the last \<open>c\<close>; without one, everything is the last part.\<close>

definition rpartition_at :: "'a \<Rightarrow> 'a list \<Rightarrow> 'a list \<times> bool \<times> 'a list" where
  "rpartition_at c s =
     (case partition_at c (rev s) of (a, found, b) \<Rightarrow>
        if found then (rev b, True, rev a) else ([], False, s))"

text \<open>\<open>s.split()\<close> on any whitespace: the maximal runs of other characters.\<close>

fun split_runs :: "('a \<Rightarrow> bool) \<Rightarrow> 'a list \<Rightarrow> 'a list \<Rightarrow> 'a list list" where
  "split_runs sp acc [] = (if acc = [] then [] else [rev acc])"
| "split_runs sp acc (x # xs) =
     (if sp x then (if acc = [] then split_runs sp [] xs else rev acc # split_runs sp [] xs)
      else split_runs sp (x # acc) xs)"

definition split_ws :: "('a \<Rightarrow> bool) \<Rightarrow> 'a list \<Rightarrow> 'a list list" where
  "split_ws sp s = split_runs sp [] s"

text \<open>\<open>s.split(maxsplit=1)\<close>: the first run, then the rest with leading whitespace removed.\<close>

definition split_once :: "string \<Rightarrow> string list" where
  "split_once s =
     (let t = dropWhile is_space s;
          w = takeWhile (\<lambda>c. \<not> is_space c) t;
          r = dropWhile is_space (dropWhile (\<lambda>c. \<not> is_space c) t)
      in if t = [] then [] else if r = [] then [w] else [w, r])"

fun join :: "'a list \<Rightarrow> 'a list list \<Rightarrow> 'a list" where
  "join sep [] = []"
| "join sep [x] = x"
| "join sep (x # xs) = x @ sep @ join sep xs"

text \<open>\<open>s.split(c)\<close>: cut at every \<open>c\<close>; the empty string gives one empty piece.\<close>

fun split_on :: "'a \<Rightarrow> 'a list \<Rightarrow> 'a list list" where
  "split_on c [] = [[]]"
| "split_on c (x # xs) =
     (if x = c then [] # split_on c xs
      else (case split_on c xs of [] \<Rightarrow> [[x]] | w # ws \<Rightarrow> (x # w) # ws))"

text \<open>Decimal numerals, as \<open>str(n)\<close> and \<open>f"{n}"\<close> print them.\<close>

definition digit_char :: "nat \<Rightarrow> char" where
  "digit_char d = char_of (48 + d)"

fun show_nat :: "nat \<Rightarrow> string" where
  "show_nat n = (if n < 10 then [digit_char n] else show_nat (n div 10) @ [digit_char (n mod 10)])"

declare show_nat.simps [simp del]

definition show_int :: "int \<Rightarrow> string" where
  "show_int i = (if i < 0 then CHR ''-'' # show_nat (nat (- i)) else show_nat (nat i))"

text \<open>\<open>html.escape(s)\<close> with its default \<open>quote=True\<close>.\<close>

fun escape_char :: "char \<Rightarrow> string" where
  "escape_char c =
     (if c = CHR ''&'' then ''&amp;''
      else if c = CHR ''<'' then ''&lt;''
      else if c = CHR ''>'' then ''&gt;''
      else if c = CHR 0x22 then ''&quot;''
      else if c = CHR 0x27 then ''&#x27;''
      else [c])"

definition html_escape :: "string \<Rightarrow> string" where
  "html_escape s = concat (map escape_char s)"

text \<open>A \<open>str | None\<close> used as \<open>s or ""\<close>, and its truth value.\<close>

definition str_or_empty :: "string option \<Rightarrow> string" where
  "str_or_empty s = (case s of None \<Rightarrow> [] | Some t \<Rightarrow> t)"

subsection \<open>Lemmas on strings\<close>

lemma set_lstrip_by: "set (lstrip_by P s) \<subseteq> set s"
  by (auto simp: lstrip_by_def dest: set_dropWhileD)

lemma set_rstrip_by: "set (rstrip_by P s) \<subseteq> set s"
  by (auto simp: rstrip_by_def dest: set_dropWhileD)

lemma set_strip_by: "set (strip_by P s) \<subseteq> set s"
  unfolding strip_by_def using set_rstrip_by set_lstrip_by by fastforce

lemma hd_lstrip_by: "lstrip_by P s \<noteq> [] \<Longrightarrow> \<not> P (hd (lstrip_by P s))"
  by (simp add: lstrip_by_def hd_dropWhile)

lemma last_rstrip_by: "rstrip_by P s \<noteq> [] \<Longrightarrow> \<not> P (last (rstrip_by P s))"
  by (simp add: rstrip_by_def last_rev hd_dropWhile)

lemma rstrip_by_prefix: "\<exists>t. s = rstrip_by P s @ t \<and> (\<forall>x \<in> set t. P x)"
proof -
  have "s = rev (takeWhile P (rev s) @ dropWhile P (rev s))"
    by (simp only: takeWhile_dropWhile_id rev_rev_ident)
  then have "s = rstrip_by P s @ rev (takeWhile P (rev s))"
    by (simp only: rstrip_by_def rev_append)
  then show ?thesis by (metis set_rev set_takeWhileD)
qed

lemma hd_rstrip_by: "rstrip_by P s \<noteq> [] \<Longrightarrow> hd (rstrip_by P s) = hd s"
  using rstrip_by_prefix [of s P] by (metis hd_append2)

lemma strip_by_nonempty_ends:
  assumes "strip_by P s \<noteq> []"
  shows "\<not> P (hd (strip_by P s)) \<and> \<not> P (last (strip_by P s))"
proof -
  let ?t = "lstrip_by P s"
  have r: "rstrip_by P ?t \<noteq> []" using assms by (simp add: strip_by_def)
  then have t: "?t \<noteq> []" by (auto simp: rstrip_by_def)
  have "hd (rstrip_by P ?t) = hd ?t" by (rule hd_rstrip_by [OF r])
  then show ?thesis
    using hd_lstrip_by [OF t] last_rstrip_by [OF r] by (simp add: strip_by_def)
qed

lemma rstrip_by_id: "s = [] \<or> \<not> P (last s) \<Longrightarrow> rstrip_by P s = s"
  by (cases s rule: rev_cases) (auto simp: rstrip_by_def)

lemma lstrip_by_id: "s = [] \<or> \<not> P (hd s) \<Longrightarrow> lstrip_by P s = s"
  by (cases s) (auto simp: lstrip_by_def)

lemma strip_by_idem [simp]: "strip_by P (strip_by P s) = strip_by P s"
proof (cases "strip_by P s = []")
  case True
  have "strip_by P ([] :: 'a list) = []"
    by (simp add: strip_by_def lstrip_by_def rstrip_by_def)
  with True show ?thesis by simp
next
  case False
  then show ?thesis
    using strip_by_nonempty_ends [OF False]
    by (metis lstrip_by_id rstrip_by_id strip_by_def)
qed

lemma py_strip_idem [simp]: "py_strip (py_strip s) = py_strip s"
  by (simp add: py_strip_def)

lemma length_rstrip_by: "length (rstrip_by P s) \<le> length s"
  by (simp add: rstrip_by_def) (metis length_dropWhile_le length_rev)

lemma length_strip_by: "length (strip_by P s) \<le> length s"
  unfolding strip_by_def
  by (metis le_trans length_dropWhile_le length_rstrip_by lstrip_by_def)

lemma partition_at_found:
  "c \<notin> set a \<Longrightarrow> partition_at c (a @ c # b) = (a, True, b)"
  by (induction a) auto

lemma partition_at_absent: "c \<notin> set s \<Longrightarrow> partition_at c s = (s, False, [])"
  by (induction s) auto

lemma partition_at_fst: "c \<notin> set (fst (partition_at c s))"
  by (induction s) (auto split: prod.splits)

lemma rpartition_at_found:
  "c \<notin> set b \<Longrightarrow> rpartition_at c (a @ c # b) = (a, True, b)"
  by (simp add: rpartition_at_def partition_at_found)

lemma rpartition_at_absent: "c \<notin> set s \<Longrightarrow> rpartition_at c s = ([], False, s)"
  by (simp add: rpartition_at_def partition_at_absent)

lemma split_on_nonempty [simp]: "split_on c s \<noteq> []"
  by (induction s) (auto split: list.splits)

lemma split_on_append: "split_on c (a @ c # b) = split_on c a @ split_on c b"
  by (induction a) (auto split: list.splits)

lemma split_on_absent: "c \<notin> set s \<Longrightarrow> split_on c s = [s]"
  by (induction s) auto

lemma join_split_on: "join [c] (split_on c s) = s"
proof (induction s)
  case Nil
  then show ?case by simp
next
  case (Cons x xs)
  obtain w ws where w: "split_on c xs = w # ws"
    by (metis list.exhaust split_on_nonempty)
  show ?case using Cons w by (cases ws) auto
qed

lemma join_append:
  "ps \<noteq> [] \<Longrightarrow> qs \<noteq> [] \<Longrightarrow> join sep (ps @ qs) = join sep ps @ sep @ join sep qs"
proof (induction ps)
  case Nil
  then show ?case by simp
next
  case (Cons p ps)
  then show ?case by (cases ps; cases qs) auto
qed

lemma lower_char_idem [simp]: "lower_char (lower_char c) = lower_char c"
  by (simp add: lower_char_def Let_def)

lemma py_lower_idem [simp]: "py_lower (py_lower s) = py_lower s"
  by (simp add: py_lower_def comp_def)

section \<open>Effects and exceptions\<close>

type_synonym ('w, 'e, 'a) io = "'w \<Rightarrow> ('e + 'a) \<times> 'w"

definition retE :: "'a \<Rightarrow> ('w, 'e, 'a) io" where
  "retE x w = (Inr x, w)"

definition raiseE :: "'e \<Rightarrow> ('w, 'e, 'a) io" where
  "raiseE e w = (Inl e, w)"

definition bindE :: "('w, 'e, 'a) io \<Rightarrow> ('a \<Rightarrow> ('w, 'e, 'b) io) \<Rightarrow> ('w, 'e, 'b) io" where
  "bindE m f w = (case m w of (Inl e, w') \<Rightarrow> (Inl e, w') | (Inr x, w') \<Rightarrow> f x w')"

definition thenE :: "('w, 'e, 'a) io \<Rightarrow> ('w, 'e, 'b) io \<Rightarrow> ('w, 'e, 'b) io" where
  "thenE m n = bindE m (\<lambda>_. n)"

text \<open>
  \<open>try: m / except ...: handler\<close>: the handler answers \<open>None\<close> for an exception no
  \<open>except\<close> clause matches, which then keeps propagating.
\<close>

definition try_except ::
    "('w, 'e, 'a) io \<Rightarrow> ('e \<Rightarrow> ('w, 'e, 'a) io option) \<Rightarrow> ('w, 'e, 'a) io" where
  "try_except m handler w =
     (case m w of
        (Inl e, w') \<Rightarrow> (case handler e of None \<Rightarrow> (Inl e, w') | Some h \<Rightarrow> h w')
      | (Inr x, w') \<Rightarrow> (Inr x, w'))"

text \<open>
  \<open>try: m / finally: f\<close>: \<open>f\<close> runs whatever \<open>m\<close> did; an exception of \<open>f\<close>
  replaces the outcome of \<open>m\<close>.
\<close>

definition finallyE :: "('w, 'e, 'a) io \<Rightarrow> ('w, 'e, unit) io \<Rightarrow> ('w, 'e, 'a) io" where
  "finallyE m f w =
     (case m w of (r, w') \<Rightarrow>
        (case f w' of (Inl e, w'') \<Rightarrow> (Inl e, w'') | (Inr _, w'') \<Rightarrow> (r, w'')))"

text \<open>Reading a part of the world and updating it; an outcome without effects lifted.\<close>

definition askE :: "('w \<Rightarrow> 'a) \<Rightarrow> ('w, 'e, 'a) io" where
  "askE f w = (Inr (f w), w)"

definition tellE :: "('w \<Rightarrow> 'w) \<Rightarrow> ('w, 'e, unit) io" where
  "tellE g w = (Inr (), g w)"

definition liftE :: "('e + 'a) \<Rightarrow> ('w, 'e, 'a) io" where
  "liftE r w = (r, w)"

text \<open>\<open>for x in xs: await f(x)\<close>.\<close>

fun forE :: "('a \<Rightarrow> ('w, 'e, unit) io) \<Rightarrow> 'a list \<Rightarrow> ('w, 'e, unit) io" where
  "forE f [] = retE ()"
| "forE f (x # xs) = thenE (f x) (forE f xs)"

lemmas io_defs [io_simps] = retE_def raiseE_def bindE_def thenE_def try_except_def
  finallyE_def askE_def tellE_def liftE_def

lemma bindE_retE [simp]: "bindE (retE x) f = f x"
  by (rule ext) (simp add: io_simps)

lemma retE_right [simp]: "bindE m retE = m"
  by (rule ext) (simp add: io_simps split: prod.splits sum.splits)

lemma bindE_assoc: "bindE (bindE m f) g = bindE m (\<lambda>x. bindE (f x) g)"
  by (rule ext) (simp add: io_simps split: prod.splits sum.splits)

lemma bindE_raiseE [simp]: "bindE (raiseE e) f = raiseE e"
  by (rule ext) (simp add: io_simps)

text \<open>The world after a \<open>finally\<close> is what its clause makes of the body's world.\<close>

lemma finallyE_world: "snd (finallyE m f w) = snd (f (snd (m w)))"
  by (auto simp: io_simps split: prod.splits sum.splits)

text \<open>
  A property of worlds that every step keeps is kept by the combinators: the rules the
  component invariants are proved with.
\<close>

definition keeps :: "('w \<Rightarrow> bool) \<Rightarrow> ('w, 'e, 'a) io \<Rightarrow> bool" where
  "keeps P m \<longleftrightarrow> (\<forall>w. P w \<longrightarrow> P (snd (m w)))"

lemma keepsI: "(\<And>w. P w \<Longrightarrow> P (snd (m w))) \<Longrightarrow> keeps P m"
  by (simp add: keeps_def)

lemma keepsD: "keeps P m \<Longrightarrow> P w \<Longrightarrow> P (snd (m w))"
  by (simp add: keeps_def)

lemma keeps_retE [simp, intro]: "keeps P (retE x)"
  by (simp add: keeps_def io_simps)

lemma keeps_raiseE [simp, intro]: "keeps P (raiseE e)"
  by (simp add: keeps_def io_simps)

lemma keeps_askE [simp, intro]: "keeps P (askE f)"
  by (simp add: keeps_def io_simps)

lemma keeps_liftE [simp, intro]: "keeps P (liftE r)"
  by (simp add: keeps_def io_simps)

lemma keeps_bindE [intro]:
  assumes "keeps P m" and "\<And>x. keeps P (f x)"
  shows "keeps P (bindE m f)"
proof (rule keepsI)
  fix w assume w: "P w"
  obtain r w' where m: "m w = (r, w')" by fastforce
  have w': "P w'" using keepsD [OF assms(1) w] m by simp
  show "P (snd (bindE m f w))"
    using w' m keepsD [OF assms(2)] by (cases r) (auto simp: bindE_def)
qed

lemma keeps_thenE [intro]: "keeps P m \<Longrightarrow> keeps P n \<Longrightarrow> keeps P (thenE m n)"
  unfolding thenE_def by (rule keeps_bindE)

lemma keeps_try_except [intro]:
  assumes "keeps P m" and "\<And>e h. handler e = Some h \<Longrightarrow> keeps P h"
  shows "keeps P (try_except m handler)"
proof (rule keepsI)
  fix w assume w: "P w"
  obtain r w' where m: "m w = (r, w')" by fastforce
  have w': "P w'" using keepsD [OF assms(1) w] m by simp
  show "P (snd (try_except m handler w))"
    using w' m keepsD [OF assms(2)]
    by (cases r) (auto simp: try_except_def split: option.splits)
qed

lemma keeps_finallyE [intro]: "keeps P m \<Longrightarrow> keeps P f \<Longrightarrow> keeps P (finallyE m f)"
  by (simp add: keeps_def finallyE_world)

lemma keeps_forE [intro]: "(\<And>x. keeps P (f x)) \<Longrightarrow> keeps P (forE f xs)"
  by (induction xs) auto

end
