(* ===== verification/Domain.thy ===== *)
theory Domain
  imports Prelude
begin

text \<open>
  The domain layer: the exceptions (\<open>src/domain/exceptions.py\<close>), the enums, the
  \<open>DownloadSpec\<close> sum type with its stored form, the entities and the value objects.
\<close>

type_synonym uuid = nat

text \<open>Date-times, in microseconds since the epoch (UTC).\<close>

type_synonym time = int

section \<open>Exceptions\<close>

text \<open>
  The domain's exception classes with the data they carry, the built-in ones the code
  raises or catches, and \<open>LibraryError cls text\<close> for an exception class of a package
  that is not part of the repository.  The five \<open>...Internal\<close> ones are the private exceptions
  of \<open>ytdlp_downloader.py\<close>, which never leave it.
\<close>

datatype exn =
    UnsupportedURLError string
  | ExtractionError
  | PrivateContentError
  | GeoRestrictedError
  | AgeRestrictedError
  | ContentUnavailableError
  | UnsupportedMediaError
  | DownloadTimeoutError
  | PreviewTimeoutError
  | FileTooLargeError int int
  | FormatNotAllowedError
  | DownloadEnqueueError
  | InsufficientStorageError
  | StaleRequestError
  | NotifierError string
  | CorruptedRecordError string string uuid uuid
  | ValueError string
  | TypeError
  | KeyError
  | AttributeError
  | RuntimeError string
  | OSError string
  | LibraryError string string
  | DownloadTimeoutInternal string
  | DownloadProcessInternal string
  | DownloadExtractInternal string
  | FileTooLargeInternal int int
  | PreviewTimeoutInternal string
  | CancelledError

text \<open>\<open>CancelledError\<close> is a \<open>BaseException\<close>: \<open>except Exception\<close> does not catch it.\<close>

fun is_exception :: "exn \<Rightarrow> bool" where
  "is_exception CancelledError = False"
| "is_exception _ = True"

text \<open>The subclasses of \<open>ExtractionError\<close> and of \<open>DownloaderError\<close>.\<close>

fun is_extraction_error :: "exn \<Rightarrow> bool" where
  "is_extraction_error ExtractionError = True"
| "is_extraction_error PrivateContentError = True"
| "is_extraction_error GeoRestrictedError = True"
| "is_extraction_error AgeRestrictedError = True"
| "is_extraction_error ContentUnavailableError = True"
| "is_extraction_error UnsupportedMediaError = True"
| "is_extraction_error DownloadTimeoutError = True"
| "is_extraction_error PreviewTimeoutError = True"
| "is_extraction_error (FileTooLargeError _ _) = True"
| "is_extraction_error _ = False"

fun is_unsupported_url_error :: "exn \<Rightarrow> bool" where
  "is_unsupported_url_error (UnsupportedURLError _) = True"
| "is_unsupported_url_error _ = False"

fun is_downloader_error :: "exn \<Rightarrow> bool" where
  "is_downloader_error (UnsupportedURLError _) = True"
| "is_downloader_error FormatNotAllowedError = True"
| "is_downloader_error DownloadEnqueueError = True"
| "is_downloader_error InsufficientStorageError = True"
| "is_downloader_error StaleRequestError = True"
| "is_downloader_error e = is_extraction_error e"

fun is_notifier_error :: "exn \<Rightarrow> bool" where
  "is_notifier_error (NotifierError _) = True"
| "is_notifier_error _ = False"

text \<open>The class attribute \<open>error_key\<close>; \<open>None\<close> where the class defines none.\<close>

fun error_key :: "exn \<Rightarrow> string option" where
  "error_key (UnsupportedURLError _) = Some ''error-unsupported-site''"
| "error_key ExtractionError = Some ''error-extraction-failed''"
| "error_key PrivateContentError = Some ''error-private''"
| "error_key GeoRestrictedError = Some ''error-geo''"
| "error_key AgeRestrictedError = Some ''error-age''"
| "error_key ContentUnavailableError = Some ''error-unavailable''"
| "error_key UnsupportedMediaError = Some ''error-unsupported-media''"
| "error_key DownloadTimeoutError = Some ''error-timeout''"
| "error_key PreviewTimeoutError = Some ''error-preview-timeout''"
| "error_key (FileTooLargeError _ _) = Some ''error-too-large''"
| "error_key FormatNotAllowedError = Some ''error-format-not-allowed''"
| "error_key DownloadEnqueueError = Some ''error-internal''"
| "error_key InsufficientStorageError = Some ''error-storage-full''"
| "error_key StaleRequestError = Some ''error-request-stale''"
| "error_key (CorruptedRecordError _ _ _ _) = Some ''error-internal''"
| "error_key _ = None"

text \<open>\<open>str(exc)\<close> and \<open>type(exc).__name__\<close>, where the code prints an exception.  The texts the interpreter
  gives to \<open>TypeError\<close>, \<open>KeyError\<close> and \<open>AttributeError\<close> are not kept.\<close>

fun exn_str :: "exn \<Rightarrow> string" where
  "exn_str (UnsupportedURLError m) = m"
| "exn_str (NotifierError m) = m"
| "exn_str (ValueError m) = m"
| "exn_str (RuntimeError m) = m"
| "exn_str (OSError m) = m"
| "exn_str (LibraryError _ m) = m"
| "exn_str (DownloadTimeoutInternal m) = m"
| "exn_str (DownloadProcessInternal m) = m"
| "exn_str (DownloadExtractInternal m) = m"
| "exn_str (PreviewTimeoutInternal m) = m"
| "exn_str (FileTooLargeInternal estimated_mb limit_mb) =
     ''file too large: ~'' @ show_int estimated_mb @ ''MB > '' @ show_int limit_mb @ ''MB''"
| "exn_str (CorruptedRecordError column _ _ _) = ''unreadable value in column '' @ [CHR 0x27] @ column @ [CHR 0x27]"
| "exn_str _ = []"

fun exn_class :: "exn \<Rightarrow> string" where
  "exn_class (LibraryError cls _) = cls"
| "exn_class (UnsupportedURLError _) = ''UnsupportedURLError''"
| "exn_class ExtractionError = ''ExtractionError''"
| "exn_class PrivateContentError = ''PrivateContentError''"
| "exn_class GeoRestrictedError = ''GeoRestrictedError''"
| "exn_class AgeRestrictedError = ''AgeRestrictedError''"
| "exn_class ContentUnavailableError = ''ContentUnavailableError''"
| "exn_class UnsupportedMediaError = ''UnsupportedMediaError''"
| "exn_class DownloadTimeoutError = ''DownloadTimeoutError''"
| "exn_class PreviewTimeoutError = ''PreviewTimeoutError''"
| "exn_class (FileTooLargeError _ _) = ''FileTooLargeError''"
| "exn_class FormatNotAllowedError = ''FormatNotAllowedError''"
| "exn_class DownloadEnqueueError = ''DownloadEnqueueError''"
| "exn_class InsufficientStorageError = ''InsufficientStorageError''"
| "exn_class StaleRequestError = ''StaleRequestError''"
| "exn_class (NotifierError _) = ''NotifierError''"
| "exn_class (CorruptedRecordError _ _ _ _) = ''CorruptedRecordError''"
| "exn_class (ValueError _) = ''ValueError''"
| "exn_class TypeError = ''TypeError''"
| "exn_class KeyError = ''KeyError''"
| "exn_class AttributeError = ''AttributeError''"
| "exn_class (RuntimeError _) = ''RuntimeError''"
| "exn_class (OSError _) = ''OSError''"
| "exn_class CancelledError = ''CancelledError''"
| "exn_class (DownloadTimeoutInternal _) = ''_DownloadTimeoutError''"
| "exn_class (DownloadProcessInternal _) = ''_DownloadProcessError''"
| "exn_class (DownloadExtractInternal _) = ''_DownloadExtractError''"
| "exn_class (FileTooLargeInternal _ _) = ''_FileTooLargeError''"
| "exn_class (PreviewTimeoutInternal _) = ''_PreviewTimeoutError''"

text \<open>\<open>describe_error\<close> of \<open>src/shared/logging.py\<close>.\<close>

definition describe_error :: "exn \<Rightarrow> string" where
  "describe_error e = (let t = py_strip (exn_str e) in if t = [] then exn_class e else t)"

lemma is_extraction_error_exception: "is_extraction_error e \<Longrightarrow> is_exception e"
  by (cases e) auto

lemma is_extraction_error_downloader: "is_extraction_error e \<Longrightarrow> is_downloader_error e"
  by (cases e) auto

lemma downloader_error_has_key: "is_downloader_error e \<Longrightarrow> error_key e \<noteq> None"
  by (cases e) auto

section \<open>Enums\<close>

datatype download_status = PENDING | PROCESSING | DONE | FAILED

fun status_value :: "download_status \<Rightarrow> string" where
  "status_value PENDING = ''pending''"
| "status_value PROCESSING = ''processing''"
| "status_value DONE = ''done''"
| "status_value FAILED = ''failed''"

definition status_of :: "string \<Rightarrow> exn + download_status" where
  "status_of v =
     (if v = ''pending'' then Inr PENDING
      else if v = ''processing'' then Inr PROCESSING
      else if v = ''done'' then Inr DONE
      else if v = ''failed'' then Inr FAILED
      else Inl (ValueError v))"

datatype media_type = MVideo | MAudio | MPhoto | MUnknown

fun media_type_value :: "media_type \<Rightarrow> string" where
  "media_type_value MVideo = ''video''"
| "media_type_value MAudio = ''audio''"
| "media_type_value MPhoto = ''photo''"
| "media_type_value MUnknown = ''unknown''"

definition media_type_of :: "string \<Rightarrow> exn + media_type" where
  "media_type_of v =
     (if v = ''video'' then Inr MVideo
      else if v = ''audio'' then Inr MAudio
      else if v = ''photo'' then Inr MPhoto
      else if v = ''unknown'' then Inr MUnknown
      else Inl (ValueError v))"

text \<open>\<open>MediaType.from_db_value\<close>: an unreadable value degrades to UNKNOWN.\<close>

definition from_db_value :: "string \<Rightarrow> media_type" where
  "from_db_value v = (case media_type_of v of Inl _ \<Rightarrow> MUnknown | Inr m \<Rightarrow> m)"

datatype format_kind = VIDEO | AUDIO

fun format_kind_value :: "format_kind \<Rightarrow> string" where
  "format_kind_value VIDEO = ''video''"
| "format_kind_value AUDIO = ''audio''"

definition format_kind_of :: "string \<Rightarrow> exn + format_kind" where
  "format_kind_of v =
     (if v = ''video'' then Inr VIDEO
      else if v = ''audio'' then Inr AUDIO
      else Inl (ValueError v))"

datatype progress_phase = DOWNLOADING | CONVERTING | UPLOADING | PhaseDONE | PhaseFAILED

fun phase_value :: "progress_phase \<Rightarrow> string" where
  "phase_value DOWNLOADING = ''downloading''"
| "phase_value CONVERTING = ''converting''"
| "phase_value UPLOADING = ''uploading''"
| "phase_value PhaseDONE = ''done''"
| "phase_value PhaseFAILED = ''failed''"

section \<open>DownloadSpec\<close>

datatype video_tier = P720 | P1080 | BEST

fun tier_value :: "video_tier \<Rightarrow> string" where
  "tier_value P720 = ''p720''"
| "tier_value P1080 = ''p1080''"
| "tier_value BEST = ''best''"

definition tier_of :: "string \<Rightarrow> exn + video_tier" where
  "tier_of v =
     (if v = ''p720'' then Inr P720
      else if v = ''p1080'' then Inr P1080
      else if v = ''best'' then Inr BEST
      else Inl (ValueError v))"

fun short_side :: "video_tier \<Rightarrow> int option" where
  "short_side P720 = Some 720"
| "short_side P1080 = Some 1080"
| "short_side BEST = None"

datatype audio_codec = MP3

fun codec_value :: "audio_codec \<Rightarrow> string" where
  "codec_value MP3 = ''mp3''"

datatype download_spec = VideoSpec video_tier | AudioSpec audio_codec

definition DEFAULT_DOWNLOAD_SPEC :: download_spec where
  "DEFAULT_DOWNLOAD_SPEC = VideoSpec P720"

fun spec_kind :: "download_spec \<Rightarrow> format_kind" where
  "spec_kind (VideoSpec _) = VIDEO"
| "spec_kind (AudioSpec _) = AUDIO"

fun spec_video_tier :: "download_spec \<Rightarrow> video_tier option" where
  "spec_video_tier (VideoSpec tier) = Some tier"
| "spec_video_tier (AudioSpec _) = None"

definition spec_from_parts :: "string \<Rightarrow> string option \<Rightarrow> exn + download_spec" where
  "spec_from_parts kind video_tier =
     (case format_kind_of kind of
        Inl e \<Rightarrow> Inl e
      | Inr VIDEO \<Rightarrow>
          (case video_tier of
             None \<Rightarrow> Inl (ValueError ''video spec without a tier'')
           | Some t \<Rightarrow> (case tier_of t of Inl e \<Rightarrow> Inl e | Inr tier \<Rightarrow> Inr (VideoSpec tier)))
      | Inr AUDIO \<Rightarrow>
          (case video_tier of
             Some t \<Rightarrow> Inl (ValueError (''audio spec with a video tier '' @ t))
           | None \<Rightarrow> Inr (AudioSpec MP3)))"

text \<open>The stored column of a spec's tier: \<open>_tier_value\<close> / \<open>_video_tier_value\<close>.\<close>

definition spec_tier_value :: "download_spec \<Rightarrow> string option" where
  "spec_tier_value spec = map_option tier_value (spec_video_tier spec)"

section \<open>Entities\<close>

record user =
  user_id :: uuid
  telegram_id :: "int option"
  is_premium :: bool
  user_language :: "string option"
  user_created_at :: time

definition create_from_telegram :: "uuid \<Rightarrow> time \<Rightarrow> int \<Rightarrow> string option \<Rightarrow> user" where
  "create_from_telegram new_id now tid lang =
     \<lparr>user_id = new_id, telegram_id = Some tid, is_premium = False, user_language = lang,
      user_created_at = now\<rparr>"

record download_request =
  request_id :: uuid
  request_user_id :: uuid
  source_url :: string
  request_media_type :: media_type
  request_status :: download_status
  request_spec :: download_spec
  request_created_at :: time
  request_completed_at :: "time option"

definition create_request :: "uuid \<Rightarrow> time \<Rightarrow> uuid \<Rightarrow> string \<Rightarrow> download_spec \<Rightarrow> download_request" where
  "create_request new_id now uid url sp =
     \<lparr>request_id = new_id, request_user_id = uid, source_url = url,
      request_media_type = MUnknown, request_status = PENDING, request_spec = sp, request_created_at = now,
      request_completed_at = None\<rparr>"

definition mark_processing :: "download_request \<Rightarrow> download_request" where
  "mark_processing r = r\<lparr>request_status := PROCESSING\<rparr>"

definition mark_done :: "time \<Rightarrow> download_request \<Rightarrow> download_request" where
  "mark_done now r = r\<lparr>request_status := DONE, request_completed_at := Some now\<rparr>"

definition mark_failed :: "time \<Rightarrow> download_request \<Rightarrow> download_request" where
  "mark_failed now r = r\<lparr>request_status := FAILED, request_completed_at := Some now\<rparr>"

lemmas entity_defs = mark_processing_def mark_done_def mark_failed_def create_request_def
  create_from_telegram_def

section \<open>Value objects\<close>

text \<open>A \<open>pathlib.Path\<close>: its parts. \<open>name\<close> is the last one; file names are text.\<close>

type_synonym path = "string list"

definition path_name :: "path \<Rightarrow> string" where
  "path_name p = (if p = [] then [] else last p)"

text \<open>\<open>Path.suffix\<close>: from the last dot of the name, if it is neither first nor last.\<close>

definition path_suffix :: "path \<Rightarrow> string" where
  "path_suffix p =
     (case rpartition_at (CHR ''.'') (path_name p) of (before, found, after) \<Rightarrow>
        if found \<and> before \<noteq> [] \<and> after \<noteq> [] then CHR ''.'' # after else [])"

record download_progress =
  progress_percent :: "rat option"
  progress_downloaded :: int
  progress_total :: "int option"
  progress_speed :: "rat option"
  progress_eta :: "int option"
  progress_phase_of :: progress_phase

definition phase_marker :: "progress_phase \<Rightarrow> download_progress" where
  "phase_marker ph =
     \<lparr>progress_percent = None, progress_downloaded = 0, progress_total = None, progress_speed = None, progress_eta = None,
      progress_phase_of = ph\<rparr>"

record download_result =
  result_path :: path
  result_width :: "int option"
  result_height :: "int option"
  result_duration :: "int option"
  result_title :: "string option"
  result_uploader :: "string option"

record download_options =
  options_output_dir :: path
  options_max_filesize :: "int option"
  options_timeout :: int
  options_spec :: download_spec

text \<open>A number yt-dlp reports: an \<open>int\<close> or a \<open>float\<close>.\<close>

datatype number = IntN int | FloatN rat

record media_preview =
  preview_source_url :: string
  preview_title :: string
  preview_duration :: "number option"
  preview_uploader :: "string option"
  thumbnail_url :: "string option"
  preview_media_type :: media_type
  preview_extractor_key :: string
  preview_max_side :: "int option"

record preview_context =
  context_url :: string
  context_extractor_key :: string
  context_max_side :: "int option"

definition from_preview :: "media_preview \<Rightarrow> preview_context" where
  "from_preview p =
     \<lparr>context_url = preview_source_url p, context_extractor_key = preview_extractor_key p,
      context_max_side = preview_max_side p\<rparr>"

record stale_request =
  stale_request_id :: uuid
  stale_user_id :: uuid
  previous_status :: download_status

record health_report =
  database_ok :: bool
  cache_ok :: bool

definition all_ok :: "health_report \<Rightarrow> bool" where
  "all_ok r \<longleftrightarrow> database_ok r \<and> cache_ok r"

section \<open>Stored forms read back\<close>

lemma status_of_value [simp]: "status_of (status_value s) = Inr s"
  by (cases s) (simp_all add: status_of_def)

lemma media_type_of_value [simp]: "media_type_of (media_type_value m) = Inr m"
  by (cases m) (simp_all add: media_type_of_def)

lemma from_db_value_value [simp]: "from_db_value (media_type_value m) = m"
  by (simp add: from_db_value_def)

lemma format_kind_of_value [simp]: "format_kind_of (format_kind_value k) = Inr k"
  by (cases k) (simp_all add: format_kind_of_def)

lemma tier_of_value [simp]: "tier_of (tier_value t) = Inr t"
  by (cases t) (simp_all add: tier_of_def)

lemma status_of_Inr: "status_of v = Inr s \<Longrightarrow> v = status_value s"
  by (auto simp: status_of_def split: if_splits)

lemma media_type_of_Inr: "media_type_of v = Inr m \<Longrightarrow> v = media_type_value m"
  by (auto simp: media_type_of_def split: if_splits)

lemma format_kind_of_Inr: "format_kind_of v = Inr k \<Longrightarrow> v = format_kind_value k"
  by (auto simp: format_kind_of_def split: if_splits)

lemma tier_of_Inr: "tier_of v = Inr t \<Longrightarrow> v = tier_value t"
  by (auto simp: tier_of_def split: if_splits)

lemma status_value_inj [simp]: "status_value a = status_value b \<longleftrightarrow> a = b"
  by (cases a; cases b) simp_all

lemma tier_value_inj [simp]: "tier_value a = tier_value b \<longleftrightarrow> a = b"
  by (cases a; cases b) simp_all

lemma spec_from_parts_stored [simp]:
  "spec_from_parts (format_kind_value (spec_kind s)) (spec_tier_value s) = Inr s"
proof (cases s)
  case (VideoSpec t)
  then show ?thesis
    using format_kind_of_value [of VIDEO] by (simp add: spec_from_parts_def spec_tier_value_def)
next
  case (AudioSpec c)
  then show ?thesis
    using format_kind_of_value [of AUDIO] by (cases c) (simp add: spec_from_parts_def spec_tier_value_def)
qed

lemma spec_from_parts_error: "spec_from_parts k t = Inl e \<Longrightarrow> \<exists>m. e = ValueError m"
  by (auto simp: spec_from_parts_def format_kind_of_def tier_of_def
      split: sum.splits format_kind.splits option.splits if_splits)


section \<open>Properties\<close>

text \<open>A stored pair of a kind and a tier is read as a spec exactly when it is the pair
  that spec is written as: a round trip in both directions, and no other pair, such as an audio
  row with a tier or a video row without one, is ever read as something the user did not ask
  for.\<close>

theorem spec_stored_form:
  "spec_from_parts kind tier = Inr s \<longleftrightarrow>
     kind = format_kind_value (spec_kind s) \<and> tier = spec_tier_value s"
proof
  assume a: "spec_from_parts kind tier = Inr s"
  then show "kind = format_kind_value (spec_kind s) \<and> tier = spec_tier_value s"
    by (cases s) (auto simp: spec_from_parts_def spec_tier_value_def
        dest!: format_kind_of_Inr tier_of_Inr
        split: sum.splits format_kind.splits option.splits)
qed auto

end
