(* ===== verification/UrlValidation.thy ===== *)
theory UrlValidation
  imports Domain
begin

text \<open>
  \<open>src/domain/value_objects/url_validation.py\<close>, on top of the part of
  \<open>urllib.parse\<close> it uses.  The validity of a bracketed IP literal (\<open>ipaddress\<close>) is the
  argument \<open>bracket_ok\<close> of the parser.  The Russian message literals are named by their
  English translation.
\<close>

section \<open>urlparse: scheme, netloc, hostname\<close>

definition is_c0_or_space :: "char \<Rightarrow> bool" where
  "is_c0_or_space c \<longleftrightarrow> (of_char c :: nat) \<le> 32"

definition is_unsafe_char :: "char \<Rightarrow> bool" where
  "is_unsafe_char c \<longleftrightarrow> (of_char c :: nat) \<in> {9, 10, 13}"

definition is_ascii_alpha :: "char \<Rightarrow> bool" where
  "is_ascii_alpha c \<longleftrightarrow>
     (let n = (of_char c :: nat) in (65 \<le> n \<and> n \<le> 90) \<or> (97 \<le> n \<and> n \<le> 122))"

definition is_scheme_char :: "char \<Rightarrow> bool" where
  "is_scheme_char c \<longleftrightarrow>
     is_ascii_alpha c \<or> (48 \<le> (of_char c :: nat) \<and> (of_char c :: nat) \<le> 57)
     \<or> c \<in> {CHR ''+'', CHR ''-'', CHR ''.''}"

record parsed_url =
  url_scheme :: string
  url_netloc :: string

definition split_scheme :: "string \<Rightarrow> string \<times> string" where
  "split_scheme url =
     (case partition_at (CHR '':'') url of (before, found, after) \<Rightarrow>
        if found \<and> before \<noteq> [] \<and> is_ascii_alpha (hd before) \<and> list_all is_scheme_char before
        then (py_lower before, after)
        else ([], url))"

definition split_netloc :: "string \<Rightarrow> string" where
  "split_netloc rest =
     (if prefix ''//'' rest
      then takeWhile (\<lambda>c. c \<notin> {CHR ''/'', CHR ''?'', CHR ''#''}) (drop 2 rest)
      else [])"

definition urlparse :: "(string \<Rightarrow> bool) \<Rightarrow> string \<Rightarrow> exn + parsed_url" where
  "urlparse bracket_ok raw =
     (let url = filter (\<lambda>c. \<not> is_unsafe_char c) (lstrip_by is_c0_or_space raw);
          (scheme, rest) = split_scheme url;
          netloc = split_netloc rest;
          opening = CHR ''['' \<in> set netloc;
          closing = CHR '']'' \<in> set netloc
      in if opening \<noteq> closing then Inl (ValueError ''Invalid IPv6 URL'')
         else if opening \<and> closing \<and> \<not> bracket_ok netloc then Inl (ValueError ''Invalid IPv6 URL'')
         else Inr \<lparr>url_scheme = scheme, url_netloc = netloc\<rparr>)"

text \<open>\<open>ParseResult.hostname\<close>.\<close>

definition hostname :: "parsed_url \<Rightarrow> string option" where
  "hostname u =
     (let hostinfo = snd (snd (rpartition_at (CHR ''@'') (url_netloc u)));
          (_, open_br, bracketed) = partition_at (CHR ''['') hostinfo;
          host = (if open_br then fst (partition_at (CHR '']'') bracketed)
                  else fst (partition_at (CHR '':'') hostinfo))
      in if host = [] then None
         else (case partition_at (CHR ''%'') host of (h, percent, zone) \<Rightarrow>
                 Some (py_lower h @ (if percent then CHR ''%'' # zone else []))))"

section \<open>validate_url and the allowlist\<close>

definition validate_url :: "(string \<Rightarrow> bool) \<Rightarrow> string \<Rightarrow> exn + string" where
  "validate_url bracket_ok raw_url =
     (let url = py_strip raw_url
      in if url = [] then Inl (UnsupportedURLError ''empty link'')
         else (case urlparse bracket_ok url of
                 Inl e \<Rightarrow> Inl e
               | Inr parsed \<Rightarrow>
                   if url_scheme parsed \<notin> {''http'', ''https''}
                   then Inl (UnsupportedURLError
                     (''unsupported link scheme: '' @
                      (if url_scheme parsed = [] then ''(none)'' else url_scheme parsed)))
                   else if url_netloc parsed = []
                   then Inl (UnsupportedURLError ''the link has no domain'')
                   else Inr url))"

definition host_matches :: "string \<Rightarrow> string \<Rightarrow> bool" where
  "host_matches host domain =
     (let d = lstrip_by (\<lambda>c. c = CHR ''.'') (py_lower domain)
      in host = d \<or> suffix (CHR ''.'' # d) host)"

text \<open>\<open>(urlparse(url).hostname or "").lower().rstrip(".")\<close>\<close>

definition allowlist_host :: "parsed_url \<Rightarrow> string" where
  "allowlist_host parsed =
     rstrip_by (\<lambda>c. c = CHR ''.'') (py_lower (str_or_empty (hostname parsed)))"

definition host_permitted :: "string \<Rightarrow> string list \<Rightarrow> string list \<Rightarrow> bool" where
  "host_permitted host allowed blocked =
     (\<not> list_ex (host_matches host) blocked
      \<and> (allowed = [] \<or> list_ex (host_matches host) allowed))"

definition validate_url_against_allowlist ::
    "(string \<Rightarrow> bool) \<Rightarrow> string \<Rightarrow> string list \<Rightarrow> string list \<Rightarrow> exn + string" where
  "validate_url_against_allowlist bracket_ok raw_url allowed blocked =
     (case validate_url bracket_ok raw_url of
        Inl e \<Rightarrow> Inl e
      | Inr url \<Rightarrow>
          (case urlparse bracket_ok url of
             Inl e \<Rightarrow> Inl e
           | Inr parsed \<Rightarrow>
               if host_permitted (allowlist_host parsed) allowed blocked then Inr url
               else Inl (UnsupportedURLError
                 (''this site is not supported. Supported: '' @
                  join '', '' (sort (remdups allowed))))))"

section \<open>What a validated URL is\<close>

definition structurally_valid :: "(string \<Rightarrow> bool) \<Rightarrow> string \<Rightarrow> bool" where
  "structurally_valid bracket_ok url =
     (url \<noteq> [] \<and> py_strip url = url
      \<and> (case urlparse bracket_ok url of
           Inl _ \<Rightarrow> False
         | Inr p \<Rightarrow> url_scheme p \<in> {''http'', ''https''} \<and> url_netloc p \<noteq> []))"

lemma validate_url_iff:
  "validate_url b raw = Inr url \<longleftrightarrow> url = py_strip raw \<and> structurally_valid b url"
  by (auto simp: validate_url_def structurally_valid_def Let_def split: sum.splits if_splits)

lemma validate_url_error:
  "validate_url b raw = Inl e \<Longrightarrow> is_unsupported_url_error e \<or> e = ValueError ''Invalid IPv6 URL''"
  by (auto simp: validate_url_def urlparse_def Let_def split: sum.splits if_splits prod.splits)

text \<open>
  Matching by suffix is matching by labels: \<open>domain\<close>'s labels are the last labels of the
  host.  So \<open>youtube.com\<close> admits \<open>m.youtube.com\<close> and not \<open>evilyoutube.com\<close>.
\<close>

definition labels :: "string \<Rightarrow> string list" where
  "labels h = split_on (CHR ''.'') h"

definition domain_labels :: "string \<Rightarrow> string list" where
  "domain_labels domain = labels (lstrip_by (\<lambda>c. c = CHR ''.'') (py_lower domain))"

lemma suffix_labels_iff:
  "suffix (labels d) (labels h) \<longleftrightarrow> h = d \<or> suffix (CHR ''.'' # d) h"
proof
  assume "suffix (labels d) (labels h)"
  then obtain ps where ps: "labels h = ps @ labels d" by (auto simp: suffix_def)
  have h: "h = join [CHR ''.''] (labels h)" and d: "d = join [CHR ''.''] (labels d)"
    by (simp_all add: labels_def join_split_on)
  show "h = d \<or> suffix (CHR ''.'' # d) h"
  proof (cases "ps = []")
    case True
    then show ?thesis using h d ps by simp
  next
    case False
    have "h = join [CHR ''.''] ps @ CHR ''.'' # d"
      using h d ps join_append [OF False, of "labels d" "[CHR ''.'']"]
      by (simp add: labels_def)
    then show ?thesis by (auto simp: suffix_def)
  qed
next
  assume "h = d \<or> suffix (CHR ''.'' # d) h"
  then show "suffix (labels d) (labels h)"
    by (auto simp: suffix_def labels_def split_on_append)
qed

lemma host_matches_labels: "host_matches h d \<longleftrightarrow> suffix (domain_labels d) (labels h)"
  by (simp add: host_matches_def domain_labels_def suffix_labels_iff Let_def)

section \<open>Properties\<close>

text \<open>C37: the allowlist check accepts exactly the trimmed, structurally valid links whose
  host ends, label by label, in an allowed domain (any domain when the list is empty) and in
  no blocked one; a blocked domain wins over an allowed one.\<close>

theorem allowlist_accepts_iff:
  "validate_url_against_allowlist b raw allowed blocked = Inr url \<longleftrightarrow>
     url = py_strip raw \<and> structurally_valid b url \<and>
     (\<exists>p. urlparse b url = Inr p \<and>
        (allowed = [] \<or> (\<exists>d \<in> set allowed. suffix (domain_labels d) (labels (allowlist_host p)))) \<and>
        \<not> (\<exists>d \<in> set blocked. suffix (domain_labels d) (labels (allowlist_host p))))"
  (is "?lhs \<longleftrightarrow> ?rhs")
proof
  assume ?lhs
  then obtain p where v: "validate_url b raw = Inr url" and p: "urlparse b url = Inr p"
      and ok: "host_permitted (allowlist_host p) allowed blocked"
    by (auto simp: validate_url_against_allowlist_def split: sum.splits if_splits)
  from v have "url = py_strip raw \<and> structurally_valid b url" using validate_url_iff by blast
  with p ok show ?rhs
    by (auto simp: host_permitted_def list_ex_iff host_matches_labels)
next
  assume r: ?rhs
  then have v: "validate_url b raw = Inr url" by (metis validate_url_iff)
  from r obtain p where p: "urlparse b url = Inr p"
      and ok: "host_permitted (allowlist_host p) allowed blocked"
    by (auto simp: host_permitted_def list_ex_iff host_matches_labels)
  from v p ok show ?lhs by (simp add: validate_url_against_allowlist_def)
qed

text \<open>Validating an already validated link changes nothing, so the use cases' second
  \<open>validate_url\<close> never refuses what the allowlist check let through.\<close>

theorem validated_url_revalidates:
  assumes "validate_url_against_allowlist b raw allowed blocked = Inr url"
  shows "validate_url b url = Inr url"
proof -
  have "validate_url b raw = Inr url"
    using assms by (auto simp: validate_url_against_allowlist_def split: sum.splits if_splits)
  then show ?thesis by (auto simp: validate_url_iff)
qed

theorem validated_url_revalidates_witness:
  "validate_url (\<lambda>_. False) ''https://youtu.be/x'' = Inr ''https://youtu.be/x''"
  by (rule validated_url_revalidates [of "\<lambda>_. False" "''  https://youtu.be/x''"
        "[''youtu.be'']" "[]"]) code_simp

text \<open>A link whose host part opens a bracket and never closes it makes the check raise
  \<open>ValueError\<close>, not the \<open>UnsupportedURLError\<close> it documents and its callers catch.\<close>

theorem unbalanced_bracket_raises_value_error:
  assumes "CHR ''['' \<in> set h"
    and "\<forall>c \<in> set h. \<not> is_space c \<and> c \<notin> {CHR ''/'', CHR ''?'', CHR ''#'', CHR '']''}"
  shows "validate_url_against_allowlist b (''https://'' @ h) allowed blocked
           = Inl (ValueError ''Invalid IPv6 URL'')
         \<and> \<not> is_downloader_error (ValueError ''Invalid IPv6 URL'')"
proof -
  have sp: "\<forall>c \<in> set (''https://'' @ h). \<not> is_space c"
    using assms(2) by (simp add: is_space_def)
  have h: "h \<noteq> []" using assms(1) by auto
  let ?u = "''https://'' @ h"
  have strip: "py_strip ?u = ?u"
    unfolding py_strip_def strip_by_def using sp h
    by (simp add: lstrip_by_id rstrip_by_id)
  have l: "lstrip_by is_c0_or_space ?u = ?u"
    by (rule lstrip_by_id) (simp add: is_c0_or_space_def)
  have f: "filter (\<lambda>c. \<not> is_unsafe_char c) ?u = ?u"
    using sp by (auto simp: filter_id_conv is_unsafe_char_def is_space_def)
  have sch: "split_scheme ?u = (''https'', ''//'' @ h)"
    by (simp add: split_scheme_def is_scheme_char_def is_ascii_alpha_def py_lower_def
        lower_char_def)
  have net: "split_netloc (''//'' @ h) = h"
    using assms(2) by (simp add: split_netloc_def takeWhile_eq_all_conv)
  have "urlparse b ?u = Inl (ValueError ''Invalid IPv6 URL'')"
    unfolding urlparse_def l f Let_def sch prod.case net using assms by auto
  then have "validate_url b ?u = Inl (ValueError ''Invalid IPv6 URL'')"
    unfolding validate_url_def strip Let_def by simp
  then show ?thesis by (simp add: validate_url_against_allowlist_def)
qed

theorem unbalanced_bracket_raises_value_error_witness:
  "validate_url_against_allowlist (\<lambda>_. True) (''https://'' @ ''[::1'') [''youtu.be''] []
     = Inl (ValueError ''Invalid IPv6 URL'')
   \<and> \<not> is_downloader_error (ValueError ''Invalid IPv6 URL'')"
  by (rule unbalanced_bracket_raises_value_error) (simp_all add: is_space_def)

end
