(* ===== verification/Policy.thy ===== *)
theory Policy
  imports Domain
begin

text \<open>
  \<open>src/application/policies/format_policy.py\<close>: the per-source kill-switch and the choices
  the preview card offers.
\<close>

section \<open>FormatPolicy\<close>

text \<open>
  \<open>_disabled\<close>: the disabled kinds by lower-cased extractor key.  The constructor is a
  dictionary comprehension over the configuration's items, so of two keys that differ only in
  case the later one is kept.
\<close>

type_synonym format_policy = "string \<Rightarrow> format_kind list option"

definition FormatPolicy :: "(string \<times> format_kind list) list \<Rightarrow> format_policy" where
  "FormatPolicy disabled_formats =
     map_of (rev (map (\<lambda>(key, kinds). (py_lower key, kinds)) disabled_formats))"

definition disabled_for :: "format_policy \<Rightarrow> string \<Rightarrow> format_kind list" where
  "disabled_for policy extractor_key =
     (case policy (py_lower extractor_key) of None \<Rightarrow> [] | Some kinds \<Rightarrow> kinds)"

definition is_allowed :: "format_policy \<Rightarrow> string \<Rightarrow> download_spec \<Rightarrow> bool" where
  "is_allowed policy extractor_key sp = (spec_kind sp \<notin> set (disabled_for policy extractor_key))"

definition QUALITY_STEP_ABOVE :: int where
  "QUALITY_STEP_ABOVE = (case short_side P720 of None \<Rightarrow> 0 | Some n \<Rightarrow> n)"

definition FULL_HD :: int where
  "FULL_HD = (case short_side P1080 of None \<Rightarrow> 0 | Some n \<Rightarrow> n)"

definition DIRECT_VIDEO_SPEC :: download_spec where
  "DIRECT_VIDEO_SPEC = VideoSpec BEST"

definition tiers_for :: "int option \<Rightarrow> video_tier list" where
  "tiers_for side =
     (case side of
        None \<Rightarrow> []
      | Some s \<Rightarrow>
          if s \<le> QUALITY_STEP_ABOVE then []
          else if FULL_HD \<le> s then [P720, P1080]
          else [P720, BEST])"

record offered_choices =
  offers_video :: bool
  offers_audio :: bool
  video_tiers :: "video_tier list"

definition has_quality_step :: "offered_choices \<Rightarrow> bool" where
  "has_quality_step c = (video_tiers c \<noteq> [])"

definition offered_choices_for :: "format_policy \<Rightarrow> string \<Rightarrow> int option \<Rightarrow> offered_choices" where
  "offered_choices_for policy extractor_key side =
     (let disabled = disabled_for policy extractor_key;
          video = (VIDEO \<notin> set disabled);
          audio = (AUDIO \<notin> set disabled)
      in if \<not> video then \<lparr>offers_video = False, offers_audio = audio, video_tiers = []\<rparr>
         else \<lparr>offers_video = True, offers_audio = audio, video_tiers = tiers_for side\<rparr>)"

definition default_video_spec :: "media_preview \<Rightarrow> download_spec" where
  "default_video_spec preview =
     (if tiers_for (preview_max_side preview) \<noteq> [] then VideoSpec P720 else DIRECT_VIDEO_SPEC)"

lemmas policy_defs = is_allowed_def offered_choices_for_def tiers_for_def default_video_spec_def
  QUALITY_STEP_ABOVE_def FULL_HD_def DIRECT_VIDEO_SPEC_def has_quality_step_def

section \<open>Facts the clients of the policy use\<close>

lemma offers_video_iff: "offers_video (offered_choices_for p k s) \<longleftrightarrow> is_allowed p k (VideoSpec t)"
  by (simp add: policy_defs Let_def)

lemma offers_audio_iff: "offers_audio (offered_choices_for p k s) \<longleftrightarrow> is_allowed p k (AudioSpec c)"
  by (simp add: policy_defs Let_def)

lemma tiers_only_with_video: "t \<in> set (video_tiers (offered_choices_for p k s)) \<Longrightarrow>
    is_allowed p k (VideoSpec t)"
  by (auto simp: policy_defs Let_def split: if_splits)

lemma disabled_for_lower [simp]: "disabled_for p (py_lower k) = disabled_for p k"
  by (simp add: disabled_for_def)

section \<open>Properties\<close>

text \<open>The card and the use case cannot disagree: a format is offered exactly when the
  policy allows it, for every tier and codec, whatever the case of the extractor key; and no
  quality tier is offered for a source whose video is disabled.\<close>

theorem offered_iff_allowed:
  "(offers_video (offered_choices_for p k s) \<longleftrightarrow> is_allowed p (py_lower k) (VideoSpec t)) \<and>
   (offers_audio (offered_choices_for p k s) \<longleftrightarrow> is_allowed p (py_lower k) (AudioSpec c)) \<and>
   (set (video_tiers (offered_choices_for p k s)) \<subseteq> {t. is_allowed p k (VideoSpec t)})"
proof (intro conjI)
  show "offers_video (offered_choices_for p k s) \<longleftrightarrow> is_allowed p (py_lower k) (VideoSpec t)"
    by (simp add: policy_defs Let_def)
  show "offers_audio (offered_choices_for p k s) \<longleftrightarrow> is_allowed p (py_lower k) (AudioSpec c)"
    by (simp add: policy_defs Let_def)
  show "set (video_tiers (offered_choices_for p k s)) \<subseteq> {t. is_allowed p k (VideoSpec t)}"
    using tiers_only_with_video by blast
qed

text \<open>A tier is offered only when there is a choice (two distinct tiers), no fixed tier
  is larger than the source, and the spec a command without buttons asks for is the first
  offered tier, or the direct spec when there is no quality step.\<close>

theorem tiers_within_source:
  "(tiers_for side = [] \<or> (\<exists>a b. tiers_for side = [a, b] \<and> a \<noteq> b)) \<and>
   (\<forall>t \<in> set (tiers_for side). \<forall>n. short_side t = Some n \<longrightarrow> (\<exists>s. side = Some s \<and> n \<le> s)) \<and>
   default_video_spec (preview\<lparr>preview_max_side := side\<rparr>) =
     (case tiers_for side of [] \<Rightarrow> DIRECT_VIDEO_SPEC | t # _ \<Rightarrow> VideoSpec t)"
  by (auto simp: policy_defs split: option.splits)

theorem tiers_within_source_witness:
  "tiers_for (Some 900) = [P720, BEST] \<and> (\<exists>s. Some 900 = Some s \<and> (720::int) \<le> s)"
  using tiers_within_source [of "Some 900" undefined] by (simp add: policy_defs)

end
