(* ===== verification/Keyboards.thy ===== *)
theory Keyboards
  imports Policy
begin

text \<open>
  \<open>src/presentation/telegram/keyboards.py\<close>: the callback payloads and the inline keyboards.
  A label is what \<open>i18n.get\<close> returns, a parameter of the builders.
\<close>

section \<open>Callback payloads\<close>

definition CB_FLOW_DOWNLOAD :: string where "CB_FLOW_DOWNLOAD = ''flow:download''"
definition CB_FLOW_HELP :: string where "CB_FLOW_HELP = ''flow:help''"
definition CB_CONFIRM_PREFIX :: string where "CB_CONFIRM_PREFIX = ''dl:''"
definition CB_CANCEL_PREFIX :: string where "CB_CANCEL_PREFIX = ''cancel:''"
definition CB_QUALITY_PREFIX :: string where "CB_QUALITY_PREFIX = ''q:''"
definition CB_BACK_PREFIX :: string where "CB_BACK_PREFIX = ''back:''"
definition CB_LANG_PREFIX :: string where "CB_LANG_PREFIX = ''lang:''"

lemmas cb_defs [text_simps] = CB_FLOW_DOWNLOAD_def CB_FLOW_HELP_def CB_CONFIRM_PREFIX_def
  CB_CANCEL_PREFIX_def CB_QUALITY_PREFIX_def CB_BACK_PREFIX_def CB_LANG_PREFIX_def

definition FMT_CODE_VIDEO :: string where "FMT_CODE_VIDEO = ''v''"
definition FMT_CODE_AUDIO :: string where "FMT_CODE_AUDIO = ''a''"

definition video_code :: "video_tier \<Rightarrow> string" where
  "video_code t = FMT_CODE_VIDEO @ (case short_side t of Some n \<Rightarrow> show_int n | None \<Rightarrow> ''best'')"

text \<open>\<open>_VIDEO_CODES\<close>, built over \<open>VideoTier\<close> in declaration order.\<close>

definition VIDEO_CODES :: "(string \<times> video_tier) list" where
  "VIDEO_CODES = map (\<lambda>t. (video_code t, t)) [P720, P1080, BEST]"

fun confirm_callback_data :: "string \<Rightarrow> download_spec \<Rightarrow> string" where
  "confirm_callback_data token (AudioSpec _) = CB_CONFIRM_PREFIX @ token @ '':'' @ FMT_CODE_AUDIO"
| "confirm_callback_data token (VideoSpec tier) = CB_CONFIRM_PREFIX @ token @ '':'' @ video_code tier"

definition parse_confirm_callback :: "string \<Rightarrow> string \<times> download_spec" where
  "parse_confirm_callback payload =
     (let body = drop (length CB_CONFIRM_PREFIX) payload
      in case rpartition_at (CHR '':'') body of (token, sep, code) \<Rightarrow>
           if \<not> sep then (body, DEFAULT_DOWNLOAD_SPEC)
           else if code = FMT_CODE_AUDIO then (token, AudioSpec MP3)
           else (token, (case map_of VIDEO_CODES code of
                           Some tier \<Rightarrow> VideoSpec tier | None \<Rightarrow> DEFAULT_DOWNLOAD_SPEC)))"

section \<open>Keyboards\<close>

text \<open>\<open>i18n.get(key, **kwargs)\<close> in the context's locale; an argument is text or a number.\<close>

datatype i18n_arg = StrArg string | IntArg int | FloatArg rat

type_synonym i18n = "string \<Rightarrow> (string \<times> i18n_arg) list \<Rightarrow> string"

record button =
  button_text :: string
  callback_data :: string

type_synonym keyboard = "button list list"

definition preview_confirm_keyboard :: "i18n \<Rightarrow> string \<Rightarrow> offered_choices \<Rightarrow> keyboard" where
  "preview_confirm_keyboard i18n token choices =
     (let video =
            (if offers_video choices
             then [\<lparr>button_text = i18n ''btn-confirm-video'' [],
                    callback_data =
                      (if has_quality_step choices then CB_QUALITY_PREFIX @ token
                       else confirm_callback_data token DIRECT_VIDEO_SPEC)\<rparr>]
             else []);
          audio =
            (if offers_audio choices
             then [\<lparr>button_text = i18n ''btn-confirm-audio'' [],
                    callback_data = confirm_callback_data token (AudioSpec MP3)\<rparr>]
             else []);
          actions = video @ audio;
          cancel = [\<lparr>button_text = i18n ''btn-cancel'' [], callback_data = CB_CANCEL_PREFIX @ token\<rparr>]
      in if actions \<noteq> [] then [actions, cancel] else [cancel])"

text \<open>\<open>str(best_short_side or "")\<close>\<close>

definition side_label :: "int option \<Rightarrow> string" where
  "side_label side = (case side of None \<Rightarrow> [] | Some n \<Rightarrow> if n = 0 then [] else show_int n)"

fun tier_label :: "i18n \<Rightarrow> video_tier \<Rightarrow> int option \<Rightarrow> string" where
  "tier_label i18n BEST side = i18n ''btn-quality-best'' [(''height'', StrArg (side_label side))]"
| "tier_label i18n P720 side = i18n ''btn-quality-720'' []"
| "tier_label i18n P1080 side = i18n ''btn-quality-1080'' []"

definition quality_picker_keyboard ::
    "i18n \<Rightarrow> string \<Rightarrow> video_tier list \<Rightarrow> int option \<Rightarrow> keyboard" where
  "quality_picker_keyboard i18n token tiers side =
     [map (\<lambda>tier. \<lparr>button_text = tier_label i18n tier side,
                   callback_data = confirm_callback_data token (VideoSpec tier)\<rparr>) tiers,
      [\<lparr>button_text = i18n ''btn-back'' [], callback_data = CB_BACK_PREFIX @ token\<rparr>]]"

definition language_picker_keyboard :: "i18n \<Rightarrow> keyboard" where
  "language_picker_keyboard i18n =
     [[\<lparr>button_text = i18n ''btn-lang-ru'' [], callback_data = CB_LANG_PREFIX @ ''ru''\<rparr>,
       \<lparr>button_text = i18n ''btn-lang-en'' [], callback_data = CB_LANG_PREFIX @ ''en''\<rparr>]]"

text \<open>The reply keyboard: two labels, which Telegram sends back as text, and the placeholder of the input field.\<close>

definition BTN_KEY_DOWNLOAD :: string where "BTN_KEY_DOWNLOAD = ''btn-download''"
definition BTN_KEY_HELP :: string where "BTN_KEY_HELP = ''btn-help''"

record reply_keyboard =
  reply_rows :: "string list list"
  resize_keyboard :: bool
  is_persistent :: bool
  input_field_placeholder :: string

text \<open>\<open>i18n.get(key, locale)\<close>: a locale given overrides the context's.\<close>

record i18n_context =
  ctx_core :: "string \<Rightarrow> i18n"
  ctx_locale :: string

definition main_menu_keyboard :: "i18n_context \<Rightarrow> string option \<Rightarrow> reply_keyboard" where
  "main_menu_keyboard c locale =
     (let get = ctx_core c (case locale of None \<Rightarrow> ctx_locale c | Some l \<Rightarrow> l)
      in \<lparr>reply_rows = [[get BTN_KEY_DOWNLOAD [], get BTN_KEY_HELP []]], resize_keyboard = True, is_persistent = True,
          input_field_placeholder = get ''flow-placeholder'' []\<rparr>)"

definition buttons :: "keyboard \<Rightarrow> button list" where
  "buttons k = concat k"

section \<open>Facts on payloads\<close>

lemma show_int_720 [simp]: "show_int 720 = ''720''"
  by code_simp

lemma show_int_1080 [simp]: "show_int 1080 = ''1080''"
  by code_simp

lemma video_code_simps [simp]:
  "video_code P720 = ''v720''" "video_code P1080 = ''v1080''" "video_code BEST = ''vbest''"
  by (simp_all add: video_code_def FMT_CODE_VIDEO_def)

lemma VIDEO_CODES_eq: "VIDEO_CODES = [(''v720'', P720), (''v1080'', P1080), (''vbest'', BEST)]"
  by (simp add: VIDEO_CODES_def)

text \<open>The code of a confirm payload, and the payload as prefix, token and code.\<close>

definition spec_code :: "download_spec \<Rightarrow> string" where
  "spec_code sp = (case sp of AudioSpec _ \<Rightarrow> FMT_CODE_AUDIO | VideoSpec t \<Rightarrow> video_code t)"

lemma confirm_callback_data_eq:
  "confirm_callback_data token sp = ''dl:'' @ token @ CHR '':'' # spec_code sp"
  by (cases sp) (simp_all add: spec_code_def CB_CONFIRM_PREFIX_def)

lemma spec_code_no_colon: "CHR '':'' \<notin> set (spec_code sp)"
proof (cases sp)
  case (VideoSpec t)
  then show ?thesis by (cases t) (simp_all add: spec_code_def)
next
  case (AudioSpec c)
  then show ?thesis by (simp add: spec_code_def FMT_CODE_AUDIO_def)
qed

lemma length_spec_code: "length (spec_code sp) \<le> 5"
proof (cases sp)
  case (VideoSpec t)
  then show ?thesis by (cases t) (simp_all add: spec_code_def)
next
  case (AudioSpec c)
  then show ?thesis by (simp add: spec_code_def FMT_CODE_AUDIO_def)
qed

lemma parse_confirm_callback_code:
  assumes "CHR '':'' \<notin> set code"
  shows "parse_confirm_callback (''dl:'' @ token @ CHR '':'' # code) =
           (token,
            if code = ''a'' then AudioSpec MP3
            else case map_of VIDEO_CODES code of
                   Some tier \<Rightarrow> VideoSpec tier | None \<Rightarrow> DEFAULT_DOWNLOAD_SPEC)"
  using rpartition_at_found [OF assms, of token]
  by (simp add: parse_confirm_callback_def CB_CONFIRM_PREFIX_def FMT_CODE_AUDIO_def)

lemma parse_confirm:
  "parse_confirm_callback (confirm_callback_data token sp) = (token, sp)"
proof (cases sp)
  case (VideoSpec t)
  then show ?thesis
    unfolding confirm_callback_data_eq parse_confirm_callback_code [OF spec_code_no_colon]
    by (cases t) (simp_all add: spec_code_def VIDEO_CODES_eq)
next
  case (AudioSpec c)
  then show ?thesis
    unfolding confirm_callback_data_eq parse_confirm_callback_code [OF spec_code_no_colon]
    by (cases c) (simp_all add: spec_code_def FMT_CODE_AUDIO_def)
qed

lemmas keyboard_defs = preview_confirm_keyboard_def quality_picker_keyboard_def buttons_def

text \<open>The payloads a card can carry: the buttons of its two steps.\<close>

definition card_buttons :: "i18n \<Rightarrow> string \<Rightarrow> offered_choices \<Rightarrow> int option \<Rightarrow> button list" where
  "card_buttons i18n token choices side =
     buttons (preview_confirm_keyboard i18n token choices) @
     buttons (quality_picker_keyboard i18n token (video_tiers choices) side)"

lemma card_button_cases:
  assumes "btn \<in> set (card_buttons i18n token (offered_choices_for p k side) s)"
  shows "(\<exists>sp. callback_data btn = confirm_callback_data token sp \<and> is_allowed p k sp) \<or>
         callback_data btn \<in> {CB_QUALITY_PREFIX @ token, CB_BACK_PREFIX @ token, CB_CANCEL_PREFIX @ token}"
proof -
  have v: "offers_video (offered_choices_for p k side) \<Longrightarrow> is_allowed p k (VideoSpec t)" for t
    using offers_video_iff [of p k side t] by simp
  have a: "offers_audio (offered_choices_for p k side) \<Longrightarrow> is_allowed p k (AudioSpec MP3)"
    using offers_audio_iff [of p k side MP3] by simp
  show ?thesis
    using assms v a tiers_only_with_video [of _ p k side]
    by (auto simp: card_buttons_def keyboard_defs Let_def DIRECT_VIDEO_SPEC_def
        simp del: confirm_callback_data.simps split: if_splits)
qed

section \<open>Properties\<close>

text \<open>A confirm payload is read back to exactly the token and the spec it was built from,
  whatever characters the token has.\<close>

theorem confirm_callback_roundtrip:
  "parse_confirm_callback (confirm_callback_data token sp) = (token, sp)"
  by (rule parse_confirm)

text \<open>The payloads of older cards keep their meaning: a bare token and a payload with no
  tier or an unknown code all ask for the default 720p video, and nothing else does but the
  720p button itself.\<close>

theorem legacy_payloads_default:
  assumes "CHR '':'' \<notin> set token"
  shows "parse_confirm_callback (''dl:'' @ token) = (token, DEFAULT_DOWNLOAD_SPEC) \<and>
         (\<forall>code. CHR '':'' \<notin> set code \<longrightarrow>
            (snd (parse_confirm_callback (''dl:'' @ token @ CHR '':'' # code)) = DEFAULT_DOWNLOAD_SPEC
               \<longleftrightarrow> code \<notin> {''a'', ''v1080'', ''vbest''}))"
proof
  show "parse_confirm_callback (''dl:'' @ token) = (token, DEFAULT_DOWNLOAD_SPEC)"
    using assms by (simp add: parse_confirm_callback_def CB_CONFIRM_PREFIX_def rpartition_at_absent)
  show "\<forall>code. CHR '':'' \<notin> set code \<longrightarrow>
            (snd (parse_confirm_callback (''dl:'' @ token @ CHR '':'' # code)) = DEFAULT_DOWNLOAD_SPEC
               \<longleftrightarrow> code \<notin> {''a'', ''v1080'', ''vbest''})"
  proof (intro allI impI)
    fix code :: string
    assume c: "CHR '':'' \<notin> set code"
    show "(snd (parse_confirm_callback (''dl:'' @ token @ CHR '':'' # code)) = DEFAULT_DOWNLOAD_SPEC)
            = (code \<notin> {''a'', ''v1080'', ''vbest''})"
      unfolding parse_confirm_callback_code [OF c] snd_conv VIDEO_CODES_eq DEFAULT_DOWNLOAD_SPEC_def
      by (simp split: option.split)
  qed
qed

theorem legacy_payloads_default_witness:
  "parse_confirm_callback (''dl:'' @ ''abc'') = (''abc'', DEFAULT_DOWNLOAD_SPEC)"
  using legacy_payloads_default [of "''abc''"] by simp

text \<open>Every button of a card rendered from the policy fits Telegram's 64 bytes, carries the
  card's token, and confirms only specs the policy allows for that source.\<close>

theorem card_buttons_sound:
  assumes "length token = 32"
    and "btn \<in> set (card_buttons i18n token (offered_choices_for p k side) s)"
  shows "length (callback_data btn) \<le> 64 \<and>
         (prefix CB_CONFIRM_PREFIX (callback_data btn) \<longrightarrow>
            fst (parse_confirm_callback (callback_data btn)) = token \<and>
            is_allowed p k (snd (parse_confirm_callback (callback_data btn))))"
  using card_button_cases [OF assms(2)]
proof
  assume "\<exists>sp. callback_data btn = confirm_callback_data token sp \<and> is_allowed p k sp"
  then obtain sp where sp: "callback_data btn = confirm_callback_data token sp"
      and ok: "is_allowed p k sp" by blast
  have "length (callback_data btn) \<le> 64"
    using sp assms(1) length_spec_code [of sp] by (simp add: confirm_callback_data_eq)
  then show ?thesis using sp ok by (simp add: parse_confirm)
next
  assume "callback_data btn \<in>
    {CB_QUALITY_PREFIX @ token, CB_BACK_PREFIX @ token, CB_CANCEL_PREFIX @ token}"
  then show ?thesis using assms(1) by (auto simp: cb_defs)
qed

theorem card_buttons_sound_witness:
  "length (callback_data \<lparr>button_text = ''x'', callback_data = confirm_callback_data (replicate 32 (CHR ''f'')) (AudioSpec MP3)\<rparr>) \<le> 64"
  by (rule card_buttons_sound [of "replicate 32 (CHR ''f'')" _ "\<lambda>_ _. ''x''" "FormatPolicy []" "''youtube''" "Some 1080" "Some 1080", THEN conjunct1])
     (simp_all add: card_buttons_def keyboard_defs offered_choices_for_def disabled_for_def
       FormatPolicy_def Let_def)

text \<open>Whatever a callback's payload is, the prefix filters of at most one of the five
  callback handlers match it, and neither menu button's exact payload matches any prefix.\<close>

theorem callback_prefixes_disjoint:
  "length (filter (\<lambda>pre. prefix pre payload)
     [CB_CONFIRM_PREFIX, CB_CANCEL_PREFIX, CB_QUALITY_PREFIX, CB_BACK_PREFIX, CB_LANG_PREFIX]) \<le> 1 \<and>
   \<not> (\<exists>pre \<in> {CB_CONFIRM_PREFIX, CB_CANCEL_PREFIX, CB_QUALITY_PREFIX, CB_BACK_PREFIX, CB_LANG_PREFIX}.
        prefix pre CB_FLOW_DOWNLOAD \<or> prefix pre CB_FLOW_HELP)"
  by (cases payload) (auto simp: cb_defs)

end
