(* ===== verification/Database.thy ===== *)
theory Database
  imports Domain
begin

text \<open>
  \<open>src/infrastructure/database\<close>: the tables of \<open>models.py\<close> with their constraints,
  \<open>session_scope\<close> of \<open>engine.py\<close>, and the two SQLAlchemy repositories.

  The tables are lists of rows in insertion order; a column of an enum type is the string
  PostgreSQL stores, so a row may hold a value the program cannot read.  \<open>db_clock\<close> is the
  reading of \<open>datetime.now(UTC)\<close> and of the server's \<open>now()\<close>; \<open>db_locked\<close> are the ids of
  the rows other transactions hold a lock on.  A tie of \<open>ORDER BY\<close> is broken by insertion
  order, a choice SQL leaves open.
\<close>

section \<open>Tables\<close>

record user_row =
  urow_id :: uuid
  urow_telegram_id :: "int option"
  urow_is_premium :: bool
  urow_language :: "string option"
  urow_created_at :: time

record request_row =
  row_id :: uuid
  row_user_id :: uuid
  row_source_url :: string
  row_media_type :: string
  row_status :: string
  row_format_kind :: string
  row_video_tier :: "string option"
  row_created_at :: time
  row_completed_at :: "time option"
  row_updated_at :: time

text \<open>A line of the structured log: its event and the request it names.\<close>

datatype log_line = LogLine string "uuid option"

record db =
  db_users :: "user_row list"
  db_requests :: "request_row list"
  db_clock :: time
  db_locked :: "uuid list"
  db_log :: "log_line list"

type_synonym 'a dbio = "(db, exn, 'a) io"

definition log_db :: "string \<Rightarrow> uuid \<Rightarrow> unit dbio" where
  "log_db event rid = tellE (\<lambda>d. d\<lparr>db_log := db_log d @ [LogLine event (Some rid)]\<rparr>)"

text \<open>\<open>__table_args__\<close> and the column types: what PostgreSQL checks at a flush.\<close>

definition tier_kind_check :: "request_row \<Rightarrow> bool" where
  "tier_kind_check r \<longleftrightarrow> (row_format_kind r = ''video'') = (row_video_tier r \<noteq> None)"

definition request_columns_fit :: "request_row \<Rightarrow> bool" where
  "request_columns_fit r \<longleftrightarrow>
     length (row_source_url r) \<le> 2048 \<and> length (row_media_type r) \<le> 20 \<and>
     length (row_status r) \<le> 20 \<and> length (row_format_kind r) \<le> 20 \<and>
     (case row_video_tier r of None \<Rightarrow> True | Some t \<Rightarrow> length t \<le> 10)"

definition user_columns_fit :: "user_row \<Rightarrow> bool" where
  "user_columns_fit u \<longleftrightarrow>
     (case urow_language u of None \<Rightarrow> True | Some l \<Rightarrow> length l \<le> 8) \<and>
     (case urow_telegram_id u of None \<Rightarrow> True | Some t \<Rightarrow> - (2 ^ 63) \<le> t \<and> t < 2 ^ 63)"

definition find_request :: "uuid \<Rightarrow> db \<Rightarrow> request_row option" where
  "find_request rid d = find (\<lambda>r. row_id r = rid) (db_requests d)"

definition find_user :: "uuid \<Rightarrow> db \<Rightarrow> user_row option" where
  "find_user uid d = find (\<lambda>u. urow_id u = uid) (db_users d)"

text \<open>\<open>session.add(model)\<close> and \<open>session.flush()\<close>: the \<open>INSERT\<close>.\<close>

definition insert_request :: "request_row \<Rightarrow> unit dbio" where
  "insert_request r =
     bindE (askE id) (\<lambda>d.
       if \<not> request_columns_fit r then raiseE (LibraryError ''DBAPIError'' ''value too long'')
       else if \<not> tier_kind_check r
         then raiseE (LibraryError ''IntegrityError'' ''ck_download_requests_video_tier_kind'')
       else if find_request (row_id r) d \<noteq> None
         then raiseE (LibraryError ''IntegrityError'' ''download_requests_pkey'')
       else if find_user (row_user_id r) d = None
         then raiseE (LibraryError ''IntegrityError'' ''download_requests_user_id_fkey'')
       else tellE (\<lambda>d. d\<lparr>db_requests := db_requests d @ [r]\<rparr>))"

definition insert_user :: "user_row \<Rightarrow> unit dbio" where
  "insert_user u =
     bindE (askE id) (\<lambda>d.
       if \<not> user_columns_fit u then raiseE (LibraryError ''DBAPIError'' ''value out of range'')
       else if find_user (urow_id u) d \<noteq> None
         then raiseE (LibraryError ''IntegrityError'' ''users_pkey'')
       else if urow_telegram_id u \<noteq> None \<and>
               list_ex (\<lambda>v. urow_telegram_id v = urow_telegram_id u) (db_users d)
         then raiseE (LibraryError ''IntegrityError'' ''users_telegram_id_key'')
       else tellE (\<lambda>d. d\<lparr>db_users := db_users d @ [u]\<rparr>))"

text \<open>An \<open>UPDATE\<close> of the rows that satisfy a condition.\<close>

definition update_requests ::
    "(request_row \<Rightarrow> bool) \<Rightarrow> (request_row \<Rightarrow> request_row) \<Rightarrow> db \<Rightarrow> db" where
  "update_requests P f d =
     d\<lparr>db_requests := map (\<lambda>r. if P r then f r else r) (db_requests d)\<rparr>"

definition update_users :: "(user_row \<Rightarrow> bool) \<Rightarrow> (user_row \<Rightarrow> user_row) \<Rightarrow> db \<Rightarrow> db" where
  "update_users P f d = d\<lparr>db_users := map (\<lambda>u. if P u then f u else u) (db_users d)\<rparr>"

section \<open>session_scope\<close>

text \<open>
  Commit on success; on an exception the tables are what they were before.  What was logged
  stays logged, and time does not run backwards.  Also an exception that is not an
  \<open>Exception\<close> rolls back: closing the session discards what was not committed.
\<close>

definition session_scope :: "'a dbio \<Rightarrow> 'a dbio" where
  "session_scope body d =
     (case body d of
        (Inr x, d') \<Rightarrow> (Inr x, d')
      | (Inl e, d') \<Rightarrow> (Inl e, d'\<lparr>db_users := db_users d, db_requests := db_requests d\<rparr>))"

section \<open>Rows and entities\<close>

definition ACTIVE_STATUSES :: "download_status list" where
  "ACTIVE_STATUSES = [PENDING, PROCESSING]"

definition is_active :: "request_row \<Rightarrow> bool" where
  "is_active r \<longleftrightarrow> row_status r \<in> set (map status_value ACTIVE_STATUSES)"

definition degraded :: "media_type \<Rightarrow> string \<Rightarrow> request_row \<Rightarrow> media_type dbio" where
  "degraded parsed raw model =
     (if media_type_value parsed \<noteq> raw
      then thenE (log_db ''download_request_column_degraded'' (row_id model)) (retE parsed)
      else retE parsed)"

definition parse_status :: "request_row \<Rightarrow> exn + download_status" where
  "parse_status model =
     (case status_of (row_status model) of
        Inr s \<Rightarrow> Inr s
      | Inl _ \<Rightarrow> Inl (CorruptedRecordError ''status'' (row_status model) (row_id model) (row_user_id model)))"

definition parse_spec :: "request_row \<Rightarrow> exn + download_spec" where
  "parse_spec model =
     (case spec_from_parts (row_format_kind model) (row_video_tier model) of
        Inr s \<Rightarrow> Inr s
      | Inl _ \<Rightarrow> Inl (CorruptedRecordError ''spec''
          (row_format_kind model @ ''/'' @
             (case row_video_tier model of None \<Rightarrow> ''None'' | Some t \<Rightarrow> t))
          (row_id model) (row_user_id model)))"

definition to_entity :: "request_row \<Rightarrow> download_request dbio" where
  "to_entity model =
     bindE (degraded (from_db_value (row_media_type model)) (row_media_type model) model) (\<lambda>mt.
     bindE (liftE (parse_status model)) (\<lambda>st.
     bindE (liftE (parse_spec model)) (\<lambda>sp.
       retE \<lparr>request_id = row_id model, request_user_id = row_user_id model,
             source_url = row_source_url model, request_media_type = mt, request_status = st,
             request_spec = sp, request_created_at = row_created_at model,
             request_completed_at = row_completed_at model\<rparr>)))"

definition to_user :: "user_row \<Rightarrow> user" where
  "to_user u = \<lparr>user_id = urow_id u, telegram_id = urow_telegram_id u, is_premium = urow_is_premium u,
     user_language = urow_language u, user_created_at = urow_created_at u\<rparr>"

section \<open>SqlAlchemyDownloadRequestRepository\<close>

definition sql_get_by_id :: "uuid \<Rightarrow> download_request option dbio" where
  "sql_get_by_id rid =
     bindE (askE (find_request rid)) (\<lambda>model.
       case model of None \<Rightarrow> retE None | Some m \<Rightarrow> bindE (to_entity m) (\<lambda>r. retE (Some r)))"

text \<open>\<open>created_at\<close> is not written: the server's default fills it in.\<close>

definition request_row_of :: "time \<Rightarrow> download_request \<Rightarrow> request_row" where
  "request_row_of now r =
     \<lparr>row_id = request_id r, row_user_id = request_user_id r, row_source_url = source_url r,
      row_media_type = media_type_value (request_media_type r),
      row_status = status_value (request_status r),
      row_format_kind = format_kind_value (spec_kind (request_spec r)),
      row_video_tier = spec_tier_value (request_spec r),
      row_created_at = now, row_completed_at = None, row_updated_at = now\<rparr>"

definition sql_create :: "download_request \<Rightarrow> download_request dbio" where
  "sql_create r =
     bindE (askE db_clock) (\<lambda>now. thenE (insert_request (request_row_of now r)) (retE r))"

definition sql_update :: "download_request \<Rightarrow> unit dbio" where
  "sql_update r =
     bindE (askE (find_request (request_id r))) (\<lambda>model.
       case model of
         None \<Rightarrow> raiseE (ValueError ''DownloadRequest not found'')
       | Some _ \<Rightarrow>
           bindE (askE db_clock) (\<lambda>now.
             tellE (update_requests (\<lambda>m. row_id m = request_id r)
               (\<lambda>m. m\<lparr>row_status := status_value (request_status r),
                      row_completed_at := request_completed_at r, row_updated_at := now\<rparr>))))"

definition sql_mark_failed_by_id :: "uuid \<Rightarrow> unit dbio" where
  "sql_mark_failed_by_id rid =
     bindE (askE (find_request rid)) (\<lambda>model.
       case model of
         None \<Rightarrow> retE ()
       | Some _ \<Rightarrow>
           bindE (askE db_clock) (\<lambda>now.
             tellE (update_requests (\<lambda>m. row_id m = rid)
               (\<lambda>m. m\<lparr>row_status := status_value FAILED, row_completed_at := Some now,
                      row_updated_at := now\<rparr>))))"

definition sql_claim_for_processing :: "uuid \<Rightarrow> bool dbio" where
  "sql_claim_for_processing rid =
     bindE (askE id) (\<lambda>d.
       let matches = (\<lambda>m. row_id m = rid \<and> is_active m);
           returned = map row_id (filter matches (db_requests d))
       in thenE
            (tellE (update_requests matches
               (\<lambda>m. m\<lparr>row_status := status_value PROCESSING, row_updated_at := db_clock d\<rparr>)))
            (retE (returned \<noteq> [])))"

text \<open>The condition both statements of \<open>fail_stale\<close> check.\<close>

definition is_stale :: "time \<Rightarrow> request_row \<Rightarrow> bool" where
  "is_stale updated_before r \<longleftrightarrow> is_active r \<and> row_updated_at r < updated_before"

definition select_stale :: "time \<Rightarrow> nat \<Rightarrow> db \<Rightarrow> request_row list" where
  "select_stale updated_before limit d =
     take limit (sort_key row_updated_at
       (filter (\<lambda>r. is_stale updated_before r \<and> row_id r \<notin> set (db_locked d)) (db_requests d)))"

text \<open>The \<open>UPDATE ... RETURNING\<close> over the candidates' ids.\<close>

definition reap_candidates :: "time \<Rightarrow> request_row list \<Rightarrow> uuid list dbio" where
  "reap_candidates updated_before candidates =
     bindE (askE id) (\<lambda>d.
       let now = db_clock d;
           matches = (\<lambda>m. row_id m \<in> set (map row_id candidates) \<and> is_stale updated_before m);
           returned = map row_id (filter matches (db_requests d))
       in thenE
            (tellE (update_requests matches
               (\<lambda>m. m\<lparr>row_status := status_value FAILED, row_completed_at := Some now,
                      row_updated_at := now\<rparr>)))
            (retE returned))"

fun stale_requests :: "uuid list \<Rightarrow> request_row list \<Rightarrow> exn + stale_request list" where
  "stale_requests reaped [] = Inr []"
| "stale_requests reaped (r # rs) =
     (if row_id r \<notin> set reaped then stale_requests reaped rs
      else (case status_of (row_status r) of
              Inl e \<Rightarrow> Inl e
            | Inr s \<Rightarrow> (case stale_requests reaped rs of
                  Inl e \<Rightarrow> Inl e
                | Inr out \<Rightarrow> Inr (\<lparr>stale_request_id = row_id r, stale_user_id = row_user_id r,
                                  previous_status = s\<rparr> # out))))"

text \<open>
  \<open>between\<close> is what other transactions do to the rows after the \<open>SELECT\<close>: nothing where it
  takes row locks (PostgreSQL), anything where it does not (SQLite).
\<close>

definition sql_fail_stale :: "(db \<Rightarrow> db) \<Rightarrow> time \<Rightarrow> nat \<Rightarrow> stale_request list dbio" where
  "sql_fail_stale between updated_before limit =
     bindE (askE (select_stale updated_before limit)) (\<lambda>candidates.
       if candidates = [] then retE []
       else thenE (tellE between)
              (bindE (reap_candidates updated_before candidates)
                 (\<lambda>reaped. liftE (stale_requests reaped candidates))))"

fun entities_of :: "request_row list \<Rightarrow> download_request list dbio" where
  "entities_of [] = retE []"
| "entities_of (m # ms) =
     bindE
       (try_except (bindE (to_entity m) (\<lambda>r. retE (Some r)))
          (\<lambda>e. case e of
             CorruptedRecordError _ _ rid _ \<Rightarrow>
               Some (thenE (log_db ''download_request_skipped_in_listing'' rid) (retE None))
           | _ \<Rightarrow> None))
       (\<lambda>r. bindE (entities_of ms) (\<lambda>rs. retE (case r of None \<Rightarrow> rs | Some e \<Rightarrow> e # rs)))"

definition select_by_user :: "uuid \<Rightarrow> nat \<Rightarrow> db \<Rightarrow> request_row list" where
  "select_by_user uid limit d =
     take limit (sort_key (\<lambda>r. - row_created_at r)
       (filter (\<lambda>r. row_user_id r = uid) (db_requests d)))"

definition sql_list_by_user :: "uuid \<Rightarrow> nat \<Rightarrow> download_request list dbio" where
  "sql_list_by_user uid limit = bindE (askE (select_by_user uid limit)) entities_of"

section \<open>SqlAlchemyUserRepository\<close>

text \<open>\<open>scalar_one_or_none\<close>.\<close>

definition one_or_none :: "'a list \<Rightarrow> exn + 'a option" where
  "one_or_none rows =
     (case rows of [] \<Rightarrow> Inr None | [r] \<Rightarrow> Inr (Some r)
      | _ \<Rightarrow> Inl (LibraryError ''MultipleResultsFound'' []))"

definition users_by_telegram_id :: "int \<Rightarrow> db \<Rightarrow> user_row list" where
  "users_by_telegram_id tid d = filter (\<lambda>u. urow_telegram_id u = Some tid) (db_users d)"

definition sql_user_get_by_id :: "uuid \<Rightarrow> user option dbio" where
  "sql_user_get_by_id uid = askE (\<lambda>d. map_option to_user (find_user uid d))"

definition sql_user_get_by_telegram_id :: "int \<Rightarrow> user option dbio" where
  "sql_user_get_by_telegram_id tid =
     bindE (askE (users_by_telegram_id tid)) (\<lambda>rows.
     bindE (liftE (one_or_none rows)) (\<lambda>model. retE (map_option to_user model)))"

definition user_row_of :: "time \<Rightarrow> user \<Rightarrow> user_row" where
  "user_row_of now u =
     \<lparr>urow_id = user_id u, urow_telegram_id = telegram_id u, urow_is_premium = is_premium u,
      urow_language = user_language u, urow_created_at = now\<rparr>"

definition sql_user_create :: "user \<Rightarrow> user dbio" where
  "sql_user_create u =
     bindE (askE db_clock) (\<lambda>now. thenE (insert_user (user_row_of now u)) (retE u))"

definition sql_user_set_language :: "int \<Rightarrow> string option \<Rightarrow> user option dbio" where
  "sql_user_set_language tid lang =
     bindE (askE (users_by_telegram_id tid)) (\<lambda>rows.
     bindE (liftE (one_or_none rows)) (\<lambda>model.
       case model of
         None \<Rightarrow> retE None
       | Some m \<Rightarrow>
           let m' = m\<lparr>urow_language := lang\<rparr>
           in if \<not> user_columns_fit m'
              then raiseE (LibraryError ''DBAPIError'' ''value out of range'')
              else thenE
                (tellE (update_users (\<lambda>u. urow_id u = urow_id m) (\<lambda>u. u\<lparr>urow_language := lang\<rparr>)))
                (retE (Some (to_user m')))))"

section \<open>The transactional repositories: one committed transaction per call\<close>

definition tx_get_by_id :: "uuid \<Rightarrow> download_request option dbio" where
  "tx_get_by_id rid = session_scope (sql_get_by_id rid)"

definition tx_create :: "download_request \<Rightarrow> download_request dbio" where
  "tx_create r = session_scope (sql_create r)"

definition tx_update :: "download_request \<Rightarrow> unit dbio" where
  "tx_update r = session_scope (sql_update r)"

definition tx_mark_failed_by_id :: "uuid \<Rightarrow> unit dbio" where
  "tx_mark_failed_by_id rid = session_scope (sql_mark_failed_by_id rid)"

definition tx_claim_for_processing :: "uuid \<Rightarrow> bool dbio" where
  "tx_claim_for_processing rid = session_scope (sql_claim_for_processing rid)"

definition tx_fail_stale :: "(db \<Rightarrow> db) \<Rightarrow> time \<Rightarrow> nat \<Rightarrow> stale_request list dbio" where
  "tx_fail_stale between updated_before limit =
     session_scope (sql_fail_stale between updated_before limit)"

definition tx_list_by_user :: "uuid \<Rightarrow> nat \<Rightarrow> download_request list dbio" where
  "tx_list_by_user uid limit = session_scope (sql_list_by_user uid limit)"

definition tx_user_get_by_id :: "uuid \<Rightarrow> user option dbio" where
  "tx_user_get_by_id uid = session_scope (sql_user_get_by_id uid)"

definition tx_user_get_by_telegram_id :: "int \<Rightarrow> user option dbio" where
  "tx_user_get_by_telegram_id tid = session_scope (sql_user_get_by_telegram_id tid)"

definition tx_user_create :: "user \<Rightarrow> user dbio" where
  "tx_user_create u = session_scope (sql_user_create u)"

definition tx_user_set_language :: "int \<Rightarrow> string option \<Rightarrow> user option dbio" where
  "tx_user_set_language tid lang = session_scope (sql_user_set_language tid lang)"

lemmas sql_request_defs = sql_get_by_id_def sql_create_def sql_update_def sql_mark_failed_by_id_def
  sql_claim_for_processing_def sql_fail_stale_def sql_list_by_user_def

lemmas sql_user_defs = sql_user_get_by_id_def sql_user_get_by_telegram_id_def sql_user_create_def
  sql_user_set_language_def

lemmas tx_request_defs = tx_get_by_id_def tx_create_def tx_update_def tx_mark_failed_by_id_def
  tx_claim_for_processing_def tx_fail_stale_def tx_list_by_user_def

lemmas tx_user_defs = tx_user_get_by_id_def tx_user_get_by_telegram_id_def tx_user_create_def
  tx_user_set_language_def

end
