(* ===== verification/DatabaseFacts.thy ===== *)
theory DatabaseFacts
  imports Database "HOL-Library.Multiset"
begin

text \<open>
  What the repositories of \<open>Database\<close> guarantee: the schema's constraints are invariant, a
  session is all or nothing, a claim is a compare-and-set, a stale request is reaped at most
  once, and a corrupt row costs one request and never a listing.
\<close>

section \<open>Updates seen through find\<close>

lemma find_append: "find P (xs @ ys) = (case find P xs of None \<Rightarrow> find P ys | Some x \<Rightarrow> Some x)"
  by (induction xs) auto

lemma find_map_same_key:
  assumes "\<And>x. key (f x) = key x"
  shows "find (\<lambda>x. key x = k) (map (\<lambda>x. if P x then f x else x) xs)
           = map_option (\<lambda>x. if P x then f x else x) (find (\<lambda>x. key x = k) xs)"
  using assms by (induction xs) auto

lemma find_request_update:
  assumes "\<And>r. row_id (f r) = row_id r"
  shows "find_request rid (update_requests P f d)
           = map_option (\<lambda>r. if P r then f r else r) (find_request rid d)"
  using assms by (simp add: find_request_def update_requests_def find_map_same_key)

lemma find_request_Some: "find_request rid d = Some r \<Longrightarrow> row_id r = rid \<and> r \<in> set (db_requests d)"
  by (auto simp: find_request_def find_Some_iff)

lemma find_request_mem:
  assumes "distinct (map row_id (db_requests d))" and "r \<in> set (db_requests d)"
  shows "find_request (row_id r) d = Some r"
proof -
  have "find (\<lambda>x. row_id x = row_id r) xs = Some r"
    if "distinct (map row_id xs)" "r \<in> set xs" for xs :: "request_row list"
    using that
  proof (induction xs)
    case (Cons x xs)
    then show ?case by (cases "r = x") auto
  qed simp
  then show ?thesis using assms by (simp add: find_request_def)
qed

lemma find_request_None: "find_request rid d = None \<longleftrightarrow> rid \<notin> row_id ` set (db_requests d)"
  by (auto simp: find_request_def find_None_iff)

lemma find_user_None: "find_user uid d = None \<longleftrightarrow> uid \<notin> urow_id ` set (db_users d)"
  by (auto simp: find_user_def find_None_iff)

lemma find_request_cong: "db_requests d = db_requests d' \<Longrightarrow> find_request rid d = find_request rid d'"
  by (simp add: find_request_def)

lemma update_requests_simps [simp]:
  "db_users (update_requests P f d) = db_users d"
  "db_clock (update_requests P f d) = db_clock d"
  "db_locked (update_requests P f d) = db_locked d"
  "db_log (update_requests P f d) = db_log d"
  by (simp_all add: update_requests_def)

lemma update_requests_ids:
  "(\<And>r. row_id (f r) = row_id r) \<Longrightarrow>
     map row_id (db_requests (update_requests P f d)) = map row_id (db_requests d)"
  by (simp add: update_requests_def comp_def if_distrib cong: if_cong)

section \<open>The schema's invariant\<close>

definition telegram_ids :: "user_row list \<Rightarrow> int list" where
  "telegram_ids us = List.map_filter urow_telegram_id us"

definition request_row_ok :: "user_row list \<Rightarrow> request_row \<Rightarrow> bool" where
  "request_row_ok us r \<longleftrightarrow>
     request_columns_fit r \<and> tier_kind_check r \<and> row_user_id r \<in> urow_id ` set us"

definition db_ok :: "db \<Rightarrow> bool" where
  "db_ok d \<longleftrightarrow>
     distinct (map row_id (db_requests d)) \<and> distinct (map urow_id (db_users d)) \<and>
     distinct (telegram_ids (db_users d)) \<and> list_all user_columns_fit (db_users d) \<and>
     list_all (request_row_ok (db_users d)) (db_requests d)"

lemma db_ok_tables:
  "db_requests d = db_requests d' \<Longrightarrow> db_users d = db_users d' \<Longrightarrow> db_ok d = db_ok d'"
  by (simp add: db_ok_def)

lemma db_ok_log [simp]: "db_ok (d\<lparr>db_log := l\<rparr>) = db_ok d"
  by (rule db_ok_tables) simp_all

lemma keeps_log_db [intro]: "keeps db_ok (log_db e r)"
  by (rule keepsI) (simp add: log_db_def io_simps)

lemma session_scope_ok [intro]:
  assumes "keeps db_ok m"
  shows "keeps db_ok (session_scope m)"
proof (rule keepsI)
  fix d assume d: "db_ok d"
  obtain r d' where m: "m d = (r, d')" by fastforce
  show "db_ok (snd (session_scope m d))"
  proof (cases r)
    case (Inl e)
    then show ?thesis
      using d m by (simp add: session_scope_def db_ok_def)
  next
    case (Inr x)
    then show ?thesis using keepsD [OF assms d] m by (simp add: session_scope_def)
  qed
qed

text \<open>A status the program writes fits its column and touches no other constraint.\<close>

lemma length_status_value: "length (status_value s) \<le> 20"
  by (cases s) simp_all

lemma request_row_ok_transition:
  "request_row_ok us r \<Longrightarrow>
     request_row_ok us (r\<lparr>row_status := status_value s, row_completed_at := c, row_updated_at := t\<rparr>)"
  by (simp add: request_row_ok_def request_columns_fit_def tier_kind_check_def length_status_value)

lemma update_requests_ok:
  assumes "db_ok d" and "\<And>r. row_id (f r) = row_id r"
    and "\<And>us r. request_row_ok us r \<Longrightarrow> request_row_ok us (f r)"
  shows "db_ok (update_requests P f d)"
proof -
  have "list_all (request_row_ok (db_users d)) (db_requests (update_requests P f d))"
    using assms(1,3) by (auto simp: db_ok_def update_requests_def list_all_iff)
  then show ?thesis
    using assms(1) update_requests_ids [of f P d, OF assms(2)] by (simp add: db_ok_def)
qed

lemma keeps_update_requests [intro]:
  assumes "\<And>r. row_id (f r) = row_id r"
    and "\<And>us r. request_row_ok us r \<Longrightarrow> request_row_ok us (f r)"
  shows "keeps db_ok (tellE (update_requests P f))"
  by (rule keepsI) (simp add: tellE_def update_requests_ok [OF _ assms])

lemma keeps_liftE_db [intro]: "keeps db_ok (liftE r)"
  by simp

lemma keeps_to_entity [intro]: "keeps db_ok (to_entity m)"
  unfolding to_entity_def degraded_def by (auto intro!: keeps_bindE keeps_thenE)

lemma keeps_entities_of [intro]: "keeps db_ok (entities_of ms)"
proof (induction ms)
  case (Cons m ms)
  show ?case
    unfolding entities_of.simps
    by (rule keeps_bindE, rule keeps_try_except)
      (auto intro!: keeps_bindE keeps_thenE Cons.IH split: exn.splits)
qed simp

lemma request_row_of_ok:
  assumes "length (source_url r) \<le> 2048" and "request_user_id r \<in> urow_id ` set us"
  shows "request_row_ok us (request_row_of now r)"
proof -
  have m: "length (media_type_value (request_media_type r)) \<le> 20"
    by (cases "request_media_type r") simp_all
  show ?thesis
  proof (cases "request_spec r")
    case (VideoSpec t)
    have "length (tier_value t) \<le> 10" by (cases t) simp_all
    then show ?thesis
      using assms m VideoSpec length_status_value
      by (simp add: request_row_ok_def request_row_of_def request_columns_fit_def
          tier_kind_check_def spec_tier_value_def)
  next
    case (AudioSpec c)
    then show ?thesis
      using assms m length_status_value
      by (simp add: request_row_ok_def request_row_of_def request_columns_fit_def
          tier_kind_check_def spec_tier_value_def)
  qed
qed

lemma keeps_insert_request [intro]: "keeps db_ok (insert_request r)"
proof (rule keepsI)
  fix d assume d: "db_ok d"
  show "db_ok (snd (insert_request r d))"
    using d find_user_None [of "row_user_id r" d] find_request_None [of "row_id r" d]
    by (auto simp: insert_request_def io_simps db_ok_def request_row_ok_def)
qed

lemma telegram_ids_append [simp]:
  "telegram_ids (us @ [u]) = telegram_ids us @ (case urow_telegram_id u of None \<Rightarrow> [] | Some t \<Rightarrow> [t])"
  by (simp add: telegram_ids_def map_filter_def split: option.split)

lemma set_telegram_ids: "set (telegram_ids us) = {t. \<exists>u \<in> set us. urow_telegram_id u = Some t}"
  by (force simp: telegram_ids_def map_filter_def)

lemma keeps_insert_user [intro]: "keeps db_ok (insert_user u)"
proof (rule keepsI)
  fix d assume d: "db_ok d"
  have mono: "list_all (request_row_ok (db_users d @ [u])) (db_requests d)"
    using d by (auto simp: db_ok_def list_all_iff request_row_ok_def)
  show "db_ok (snd (insert_user u d))"
    using d mono find_user_None [of "urow_id u" d]
    by (auto simp: insert_user_def io_simps db_ok_def set_telegram_ids list_ex_iff split: option.split)
qed

lemma keeps_set_language [intro]: "keeps db_ok (sql_user_set_language tid lang)"
proof (rule keepsI)
  fix d assume d: "db_ok d"
  let ?f = "\<lambda>u. u\<lparr>urow_language := lang\<rparr>"
  have upd: "db_ok (update_users P ?f d)" if "case lang of None \<Rightarrow> True | Some l \<Rightarrow> length l \<le> 8" for P
  proof -
    let ?us = "map (\<lambda>u. if P u then ?f u else u) (db_users d)"
    have ids: "map urow_id ?us = map urow_id (db_users d)"
      by (simp add: comp_def if_distrib cong: if_cong)
    then have set_ids: "urow_id ` set ?us = urow_id ` set (db_users d)"
      by (metis image_set)
    have tids: "telegram_ids ?us = telegram_ids (db_users d)"
    proof -
      have "telegram_ids (map (\<lambda>u. if P u then ?f u else u) us) = telegram_ids us" for us
        by (induction us) (auto simp: telegram_ids_def map_filter_def)
      then show ?thesis .
    qed
    have rows: "list_all (request_row_ok ?us) (db_requests d)"
    proof -
      have "request_row_ok ?us = request_row_ok (db_users d)"
        by (rule ext) (simp only: request_row_ok_def set_ids)
      then show ?thesis using d by (simp add: db_ok_def)
    qed
    have fits: "list_all user_columns_fit ?us"
      using d that by (auto simp: db_ok_def list_all_iff user_columns_fit_def)
    show ?thesis
    proof -
      have "distinct (map urow_id ?us)"
        unfolding ids using d by (simp add: db_ok_def)
      then show ?thesis
        using d tids rows fits by (simp add: db_ok_def update_users_def)
    qed
  qed
  show "db_ok (snd (sql_user_set_language tid lang d))"
    using d upd
    by (auto simp: sql_user_set_language_def io_simps one_or_none_def user_columns_fit_def Let_def
        split: list.splits option.splits)
qed

lemma keeps_sql_get_by_id [intro]: "keeps db_ok (sql_get_by_id rid)"
  unfolding sql_get_by_id_def by (auto intro!: keeps_bindE split: option.split)

lemma keeps_sql_create [intro]: "keeps db_ok (sql_create r)"
  unfolding sql_create_def by (auto intro!: keeps_bindE keeps_thenE)

lemma keeps_sql_update [intro]: "keeps db_ok (sql_update r)"
  unfolding sql_update_def
  by (auto intro!: keeps_bindE keeps_update_requests request_row_ok_transition split: option.split)

lemma keeps_sql_mark_failed [intro]: "keeps db_ok (sql_mark_failed_by_id rid)"
  unfolding sql_mark_failed_by_id_def
  by (auto intro!: keeps_bindE keeps_update_requests request_row_ok_transition
      simp del: status_value.simps split: option.split)

lemma request_row_ok_claim:
  "request_row_ok us r \<Longrightarrow> request_row_ok us (r\<lparr>row_status := status_value s, row_updated_at := t\<rparr>)"
  using request_row_ok_transition [where r = r and c = "row_completed_at r"] by simp

lemma keeps_sql_claim [intro]: "keeps db_ok (sql_claim_for_processing rid)"
  unfolding sql_claim_for_processing_def Let_def
  by (auto intro!: keeps_bindE keeps_thenE keeps_update_requests request_row_ok_claim
      simp del: status_value.simps)

lemma keeps_reap_candidates [intro]: "keeps db_ok (reap_candidates t rs)"
  unfolding reap_candidates_def Let_def
  by (auto intro!: keeps_bindE keeps_thenE keeps_update_requests request_row_ok_transition
      simp del: status_value.simps)

lemma keeps_sql_fail_stale [intro]:
  "keeps db_ok (tellE between :: unit dbio) \<Longrightarrow> keeps db_ok (sql_fail_stale between t n)"
  unfolding sql_fail_stale_def
proof (rule keeps_bindE)
  assume between: "keeps db_ok (tellE between :: unit dbio)"
  have "keeps db_ok (bindE (reap_candidates t c) (\<lambda>reaped. liftE (stale_requests reaped c)))" for c
    by (intro keeps_bindE keeps_reap_candidates keeps_liftE)
  then show "keeps db_ok (if c = [] then retE []
      else thenE (tellE between)
             (bindE (reap_candidates t c) (\<lambda>reaped. liftE (stale_requests reaped c))))" for c
    by (simp add: keeps_thenE [OF between])
qed simp

lemma keeps_sql_list [intro]: "keeps db_ok (sql_list_by_user uid n)"
  unfolding sql_list_by_user_def by (auto intro!: keeps_bindE)

lemma keeps_sql_user_get [intro]:
  "keeps db_ok (sql_user_get_by_id uid)" "keeps db_ok (sql_user_get_by_telegram_id tid)"
  unfolding sql_user_get_by_id_def sql_user_get_by_telegram_id_def by (auto intro!: keeps_bindE)

lemma keeps_sql_user_create [intro]: "keeps db_ok (sql_user_create u)"
  unfolding sql_user_create_def by (auto intro!: keeps_bindE keeps_thenE)


section \<open>The operations, case by case\<close>

lemma session_scope_Inr [simp]: "m d = (Inr x, d') \<Longrightarrow> session_scope m d = (Inr x, d')"
  by (simp add: session_scope_def)

lemma claim_eq:
  "tx_claim_for_processing rid d =
     (Inr (\<exists>r \<in> set (db_requests d). row_id r = rid \<and> is_active r),
      update_requests (\<lambda>m. row_id m = rid \<and> is_active m)
        (\<lambda>m. m\<lparr>row_status := ''processing'', row_updated_at := db_clock d\<rparr>) d)"
  unfolding tx_claim_for_processing_def
  by (rule session_scope_Inr)
    (auto simp: sql_claim_for_processing_def io_simps Let_def filter_empty_conv)

lemma update_eq:
  "tx_update r d =
     (if find_request (request_id r) d = None then (Inl (ValueError ''DownloadRequest not found''), d)
      else (Inr (), update_requests (\<lambda>m. row_id m = request_id r)
               (\<lambda>m. m\<lparr>row_status := status_value (request_status r),
                      row_completed_at := request_completed_at r,
                      row_updated_at := db_clock d\<rparr>) d))"
  by (auto simp: tx_update_def session_scope_def sql_update_def io_simps split: option.split)

lemma mark_failed_eq:
  "tx_mark_failed_by_id rid d =
     (Inr (), if find_request rid d = None then d
              else update_requests (\<lambda>m. row_id m = rid)
               (\<lambda>m. m\<lparr>row_status := ''failed'', row_completed_at := Some (db_clock d),
                      row_updated_at := db_clock d\<rparr>) d)"
  by (auto simp: tx_mark_failed_by_id_def session_scope_def sql_mark_failed_by_id_def io_simps
      split: option.split)

text \<open>The readable part of a row, and the entity it is.\<close>

definition row_readable :: "request_row \<Rightarrow> bool" where
  "row_readable m \<longleftrightarrow> (\<exists>s. parse_status m = Inr s) \<and> (\<exists>sp. parse_spec m = Inr sp)"

definition row_entity :: "request_row \<Rightarrow> download_request" where
  "row_entity m =
     \<lparr>request_id = row_id m, request_user_id = row_user_id m, source_url = row_source_url m,
      request_media_type = from_db_value (row_media_type m),
      request_status = (case parse_status m of Inr s \<Rightarrow> s | Inl _ \<Rightarrow> FAILED),
      request_spec = (case parse_spec m of Inr s \<Rightarrow> s | Inl _ \<Rightarrow> DEFAULT_DOWNLOAD_SPEC),
      request_created_at = row_created_at m, request_completed_at = row_completed_at m\<rparr>"

definition row_corruption :: "request_row \<Rightarrow> exn" where
  "row_corruption m =
     (case parse_status m of Inl e \<Rightarrow> e
      | Inr _ \<Rightarrow> (case parse_spec m of Inl e \<Rightarrow> e | Inr _ \<Rightarrow> RuntimeError []))"

lemma to_entity_fst:
  "fst (to_entity m d) = (if row_readable m then Inr (row_entity m) else Inl (row_corruption m))"
  by (auto simp: to_entity_def degraded_def row_readable_def row_entity_def row_corruption_def io_simps
      log_db_def split: sum.splits)

lemma to_entity_tables:
  "db_requests (snd (to_entity m d)) = db_requests d \<and> db_users (snd (to_entity m d)) = db_users d
   \<and> db_clock (snd (to_entity m d)) = db_clock d"
  by (auto simp: to_entity_def degraded_def io_simps log_db_def split: sum.splits)

lemma row_corruption_cases:
  "\<not> row_readable m \<Longrightarrow>
     \<exists>col raw. row_corruption m = CorruptedRecordError col raw (row_id m) (row_user_id m)"
  by (auto simp: row_readable_def row_corruption_def parse_status_def parse_spec_def split: sum.splits)

lemma get_by_id_fst:
  "fst (tx_get_by_id rid d) =
     (case find_request rid d of
        None \<Rightarrow> Inr None
      | Some m \<Rightarrow> if row_readable m then Inr (Some (row_entity m)) else Inl (row_corruption m))"
  using to_entity_fst
  by (auto simp: tx_get_by_id_def session_scope_def sql_get_by_id_def io_simps
      split: option.split prod.split sum.split) (metis fst_conv sum.distinct(1) sum.inject)+

lemma get_by_id_tables:
  "db_requests (snd (tx_get_by_id rid d)) = db_requests d \<and>
   db_users (snd (tx_get_by_id rid d)) = db_users d"
  using to_entity_tables
  by (auto simp: tx_get_by_id_def session_scope_def sql_get_by_id_def io_simps
      split: option.split prod.split sum.split) (metis snd_conv)+

lemma row_of_readable: "parse_status (request_row_of now r) = Inr (request_status r)
    \<and> parse_spec (request_row_of now r) = Inr (request_spec r)"
  by (simp add: parse_status_def parse_spec_def request_row_of_def)

section \<open>Reaping\<close>

definition reap_row :: "time \<Rightarrow> request_row \<Rightarrow> request_row" where
  "reap_row now m =
     m\<lparr>row_status := ''failed'', row_completed_at := Some now, row_updated_at := now\<rparr>"

lemma reap_row_simps [simp]:
  "row_id (reap_row now m) = row_id m" "row_status (reap_row now m) = ''failed''"
  "row_completed_at (reap_row now m) = Some now" "row_updated_at (reap_row now m) = now"
  by (simp_all add: reap_row_def)

lemma is_active_cases: "is_active r \<longleftrightarrow> row_status r = ''pending'' \<or> row_status r = ''processing''"
  by (auto simp: is_active_def ACTIVE_STATUSES_def)

lemma failed_not_active [simp]: "\<not> is_active (reap_row now m)"
  by (simp add: is_active_cases)

lemma active_status_of: "is_active r \<Longrightarrow> \<exists>s. status_of (row_status r) = Inr s"
  by (auto simp: is_active_cases status_of_def)

lemma mem_select_stale:
  "m \<in> set (select_stale t n d) \<Longrightarrow>
     m \<in> set (db_requests d) \<and> is_stale t m \<and> row_id m \<notin> set (db_locked d)"
  unfolding select_stale_def by (auto dest!: in_set_takeD)

lemma length_select_stale: "length (select_stale t n d) \<le> n"
  by (simp add: select_stale_def)

lemma distinct_map_sort_key: "distinct (map g xs) \<Longrightarrow> distinct (map g (sort_key f xs))"
  using mset_map [of g "sort_key f xs"] mset_map [of g xs] by (metis mset_eq_imp_distinct_iff mset_sort)

lemma distinct_select_stale:
  assumes "distinct (map row_id (db_requests d))"
  shows "distinct (map row_id (select_stale t n d))"
  unfolding select_stale_def take_map [symmetric]
  by (rule distinct_take, rule distinct_map_sort_key, rule distinct_map_filter [OF assms])

definition stale_request_of :: "request_row \<Rightarrow> stale_request" where
  "stale_request_of r =
     \<lparr>stale_request_id = row_id r, stale_user_id = row_user_id r,
      previous_status = (case status_of (row_status r) of Inr s \<Rightarrow> s | Inl _ \<Rightarrow> FAILED)\<rparr>"

lemma stale_requests_eq:
  "(\<forall>r \<in> set cs. is_active r) \<Longrightarrow>
     stale_requests reaped cs = Inr (map stale_request_of (filter (\<lambda>r. row_id r \<in> set reaped) cs))"
proof (induction cs)
  case (Cons c cs)
  then obtain s where "status_of (row_status c) = Inr s" using active_status_of by force
  with Cons show ?case by (simp add: stale_request_of_def)
qed simp

text \<open>The database when the \<open>UPDATE\<close> runs, and the rows it moves.\<close>

definition db_at_update :: "(db \<Rightarrow> db) \<Rightarrow> time \<Rightarrow> nat \<Rightarrow> db \<Rightarrow> db" where
  "db_at_update between t n d = (if select_stale t n d = [] then d else between d)"

definition reaped_rows :: "(db \<Rightarrow> db) \<Rightarrow> time \<Rightarrow> nat \<Rightarrow> db \<Rightarrow> request_row list" where
  "reaped_rows between t n d =
     filter (\<lambda>c. \<exists>m \<in> set (db_requests (db_at_update between t n d)). row_id m = row_id c \<and> is_stale t m)
       (select_stale t n d)"

lemma fail_stale_eq:
  "tx_fail_stale between t n d =
     (Inr (map stale_request_of (reaped_rows between t n d)),
      update_requests (\<lambda>m. row_id m \<in> row_id ` set (select_stale t n d) \<and> is_stale t m)
        (reap_row (db_clock (db_at_update between t n d))) (db_at_update between t n d))"
proof -
  let ?cs = "select_stale t n d" and ?d1 = "db_at_update between t n d"
  let ?reaped = "map row_id (filter (\<lambda>m. row_id m \<in> set (map row_id ?cs) \<and> is_stale t m) (db_requests ?d1))"
  have act: "\<forall>r \<in> set ?cs. is_active r" by (auto dest: mem_select_stale simp: is_stale_def)
  have filt: "filter (\<lambda>r. row_id r \<in> set ?reaped) ?cs = reaped_rows between t n d"
    unfolding reaped_rows_def by (rule filter_cong) (auto, metis (mono_tags, lifting) image_eqI mem_Collect_eq)
  have upd: "(\<lambda>m. m\<lparr>row_status := status_value FAILED, row_completed_at := Some (db_clock ?d1),
                 row_updated_at := db_clock ?d1\<rparr>) = reap_row (db_clock ?d1)"
    by (rule ext) (simp add: reap_row_def)
  show ?thesis
  proof (cases "?cs = []")
    case True
    then show ?thesis
      by (simp add: tx_fail_stale_def session_scope_def sql_fail_stale_def io_simps
          reaped_rows_def db_at_update_def update_requests_def)
  next
    case False
    then have d1: "?d1 = between d" by (simp add: db_at_update_def)
    show ?thesis
      unfolding tx_fail_stale_def
      using False filt stale_requests_eq [OF act, of ?reaped] upd
      by (intro session_scope_Inr)
        (simp add: sql_fail_stale_def reap_candidates_def io_simps Let_def d1)
  qed
qed

section \<open>Properties\<close>


text \<open>C31: claiming is a compare-and-set: it answers whether the request was pending or
  processing, moves exactly that request to processing with a fresh timestamp, and leaves
  every other row, and a finished request, as it was.\<close>

theorem claim_compare_and_set:
  assumes "distinct (map row_id (db_requests d))"
  shows "fst (tx_claim_for_processing rid d)
           = Inr (\<exists>m. find_request rid d = Some m \<and> is_active m) \<and>
         find_request k (snd (tx_claim_for_processing rid d)) =
           (if k = rid then map_option (\<lambda>m. if is_active m
               then m\<lparr>row_status := ''processing'', row_updated_at := db_clock d\<rparr> else m) (find_request rid d)
            else find_request k d)"
proof
  show "fst (tx_claim_for_processing rid d) = Inr (\<exists>m. find_request rid d = Some m \<and> is_active m)"
    using find_request_mem [OF assms] by (auto simp: claim_eq dest: find_request_Some)
  show "find_request k (snd (tx_claim_for_processing rid d)) =
           (if k = rid then map_option (\<lambda>m. if is_active m
               then m\<lparr>row_status := ''processing'', row_updated_at := db_clock d\<rparr> else m) (find_request rid d)
            else find_request k d)"
    by (cases "find_request k d") (auto simp: claim_eq find_request_update dest: find_request_Some)
qed


text \<open>A small database for the witnesses: one user, three of their requests.\<close>

definition example_user :: user_row where
  "example_user = \<lparr>urow_id = 1, urow_telegram_id = Some 100, urow_is_premium = False,
     urow_language = None, urow_created_at = 0\<rparr>"

definition example_request :: "uuid \<Rightarrow> string \<Rightarrow> time \<Rightarrow> request_row" where
  "example_request rid status updated = \<lparr>row_id = rid, row_user_id = 1,
     row_source_url = ''https://youtu.be/x'', row_media_type = ''unknown'', row_status = status,
     row_format_kind = ''video'', row_video_tier = Some ''p720'', row_created_at = 0,
     row_completed_at = None, row_updated_at = updated\<rparr>"

definition example_db :: db where
  "example_db = \<lparr>db_users = [example_user],
     db_requests = [example_request 10 ''processing'' 5, example_request 11 ''pending'' 3,
                    example_request 12 ''done'' 1],
     db_clock = 50, db_locked = [], db_log = []\<rparr>"

lemmas example_db_defs = example_db_def example_user_def example_request_def

lemma example_db_ok: "db_ok example_db"
  by (simp add: db_ok_def example_db_defs telegram_ids_def map_filter_def user_columns_fit_def
      request_row_ok_def request_columns_fit_def tier_kind_check_def)


theorem claim_compare_and_set_witness:
  "fst (tx_claim_for_processing 12 example_db) = Inr False \<and>
   fst (tx_claim_for_processing 10 example_db) = Inr True"
proof -
  have d: "distinct (map row_id (db_requests example_db))" by (simp add: example_db_defs)
  show ?thesis
    using claim_compare_and_set [OF d, of 12 12] claim_compare_and_set [OF d, of 10 10]
    by (simp add: example_db_defs find_request_def is_active_cases)
qed

text \<open>A reap never raises, moves at most \<open>limit\<close> requests, and exactly those it answers
  with, each still active and past the cutoff when the update ran whatever other transactions
  did since the select; every other row is what those transactions left.  A later reap, with
  any cutoff and limit, answers with none of them again.\<close>

theorem fail_stale_at_most_once:
  assumes "distinct (map row_id (db_requests d))"
    and "distinct (map row_id (db_requests (between d)))"
    and "tx_fail_stale between cutoff limit d = (res, d')"
  shows "\<exists>out. res = Inr out \<and> length out \<le> limit \<and> distinct (map stale_request_id out) \<and>
     (\<forall>k. find_request k d' =
        (if k \<in> stale_request_id ` set out
         then map_option (reap_row (db_clock (db_at_update between cutoff limit d)))
                (find_request k (db_at_update between cutoff limit d))
         else find_request k (db_at_update between cutoff limit d))) \<and>
     (\<forall>k \<in> stale_request_id ` set out. \<exists>m.
        find_request k (db_at_update between cutoff limit d) = Some m \<and> is_stale cutoff m) \<and>
     (\<forall>cutoff2 limit2 out2. fst (tx_fail_stale id cutoff2 limit2 d') = Inr out2 \<longrightarrow>
        stale_request_id ` set out \<inter> stale_request_id ` set out2 = {})"
proof -
  let ?d1 = "db_at_update between cutoff limit d" and ?cs = "select_stale cutoff limit d"
  let ?rows = "reaped_rows between cutoff limit d"
  let ?out = "map stale_request_of ?rows"
  have d1: "distinct (map row_id (db_requests ?d1))" using assms(1,2) by (simp add: db_at_update_def)
  have res: "res = Inr ?out"
    and d': "d' = update_requests (\<lambda>m. row_id m \<in> row_id ` set ?cs \<and> is_stale cutoff m)
                    (reap_row (db_clock ?d1)) ?d1"
    using assms(3) by (simp_all add: fail_stale_eq)
  have ids: "map stale_request_id ?out = map row_id ?rows" by (simp add: stale_request_of_def)
  have idset: "stale_request_id ` set ?out = row_id ` set ?rows"
    using ids by (metis image_set)
  have len: "length ?out \<le> limit"
    using length_select_stale [of cutoff limit d]
    by (simp add: reaped_rows_def) (meson le_trans length_filter_le)
  have dist: "distinct (map stale_request_id ?out)"
    unfolding ids using distinct_map_filter [OF distinct_select_stale [OF assms(1)]]
    by (simp add: reaped_rows_def)
  have found: "(\<exists>m \<in> set (db_requests ?d1). row_id m = k \<and> is_stale cutoff m)
      \<longleftrightarrow> (\<exists>m. find_request k ?d1 = Some m \<and> is_stale cutoff m)" for k
    using find_request_mem [OF d1] find_request_Some [of k ?d1] by metis
  have "row_id ` set ?rows =
      {k \<in> row_id ` set ?cs. \<exists>m. find_request k ?d1 = Some m \<and> is_stale cutoff m}"
    unfolding reaped_rows_def set_filter found by blast
  then have rows: "k \<in> row_id ` set ?rows \<longleftrightarrow>
      k \<in> row_id ` set ?cs \<and> (\<exists>m. find_request k ?d1 = Some m \<and> is_stale cutoff m)" for k
    by blast
  have moved: "find_request k d' =
      (if k \<in> row_id ` set ?rows then map_option (reap_row (db_clock ?d1)) (find_request k ?d1)
       else find_request k ?d1)" for k
    using rows [of k] find_request_Some [of k ?d1]
    by (cases "find_request k ?d1") (auto simp: d' find_request_update)
  have dd': "distinct (map row_id (db_requests d'))"
    using d1 update_requests_ids [of "reap_row (db_clock ?d1)" _ ?d1] by (simp add: d')
  have again: "row_id ` set ?rows \<inter> stale_request_id ` set out2 = {}"
    if "fst (tx_fail_stale id c2 l2 d') = Inr out2" for c2 l2 out2
  proof -
    have sub: "stale_request_id ` set out2 \<subseteq> row_id ` set (select_stale c2 l2 d')"
      using that by (auto simp: fail_stale_eq stale_request_of_def reaped_rows_def)
    have notin: "row_id m \<notin> row_id ` set ?rows" if "m \<in> set (select_stale c2 l2 d')" for m
    proof
      assume m: "row_id m \<in> row_id ` set ?rows"
      have f: "find_request (row_id m) d' = Some m" and act: "is_active m"
        using mem_select_stale [OF that] find_request_mem [OF dd'] by (auto simp: is_stale_def)
      have "map_option (reap_row (db_clock ?d1)) (find_request (row_id m) ?d1) = Some m"
        by (rule trans [OF sym [OF moved [of "row_id m", unfolded if_P [OF m]]] f])
      then obtain m0 where "m = reap_row (db_clock ?d1) m0" by blast
      then show False using act failed_not_active by blast
    qed
    show ?thesis
      unfolding disjoint_iff
    proof (intro allI impI notI)
      fix k
      assume k: "k \<in> row_id ` set ?rows" and o2: "k \<in> stale_request_id ` set out2"
      from subsetD [OF sub o2] obtain m where "k = row_id m" "m \<in> set (select_stale c2 l2 d')"
        by (rule imageE)
      with notin [of m] k show False by simp
    qed
  qed
  show ?thesis
  proof (intro exI conjI)
    show "res = Inr ?out" "length ?out \<le> limit" "distinct (map stale_request_id ?out)"
      using res len dist by simp_all
    show "\<forall>k. find_request k d' =
        (if k \<in> stale_request_id ` set ?out then map_option (reap_row (db_clock ?d1)) (find_request k ?d1)
         else find_request k ?d1)"
      unfolding idset using moved by blast
    show "\<forall>k \<in> stale_request_id ` set ?out. \<exists>m. find_request k ?d1 = Some m \<and> is_stale cutoff m"
      unfolding idset using rows by blast
    show "\<forall>cutoff2 limit2 out2. fst (tx_fail_stale id cutoff2 limit2 d') = Inr out2 \<longrightarrow>
        stale_request_id ` set ?out \<inter> stale_request_id ` set out2 = {}"
      unfolding idset using again by blast
  qed
qed

theorem fail_stale_at_most_once_witness:
  "fst (tx_fail_stale id 9 1 example_db) =
     Inr [\<lparr>stale_request_id = 11, stale_user_id = 1, previous_status = PENDING\<rparr>] \<and>
   (\<forall>c l. 11 \<notin> (case fst (tx_fail_stale id c l (snd (tx_fail_stale id 9 1 example_db))) of
                  Inl _ \<Rightarrow> {} | Inr out2 \<Rightarrow> stale_request_id ` set out2))"
proof -
  have v: "fst (tx_fail_stale id 9 1 example_db) =
     Inr [\<lparr>stale_request_id = 11, stale_user_id = 1, previous_status = PENDING\<rparr>]"
    by code_simp
  have d: "distinct (map row_id (db_requests example_db))" by (simp add: example_db_defs)
  show ?thesis
    using fail_stale_at_most_once [of example_db id 9 1, OF d _ surjective_pairing] d v
    by (auto split: sum.split)
qed


text \<open>Where the select holds its rows (no interference) a reap takes the longest-idle
  requests first: every active request past the cutoff that it leaves behind is locked by
  another transaction, or the batch is full and no reaped request was idle for less time.\<close>

theorem fail_stale_oldest_first:
  assumes "distinct (map row_id (db_requests d))"
    and "fst (tx_fail_stale id cutoff limit d) = Inr out"
    and "m \<in> set (db_requests d)" and "is_stale cutoff m"
    and "row_id m \<notin> stale_request_id ` set out"
  shows "row_id m \<in> set (db_locked d) \<or>
         (length out = limit \<and>
          (\<forall>k \<in> stale_request_id ` set out. \<exists>r. find_request k d = Some r \<and>
             row_updated_at r \<le> row_updated_at m))"
proof (cases "row_id m \<in> set (db_locked d)")
  case False
  let ?xs = "sort_key row_updated_at
       (filter (\<lambda>r. is_stale cutoff r \<and> row_id r \<notin> set (db_locked d)) (db_requests d))"
  have sel: "select_stale cutoff limit d = take limit ?xs" by (simp add: select_stale_def)
  have rows: "reaped_rows id cutoff limit d = take limit ?xs"
    unfolding reaped_rows_def sel [symmetric]
    by (rule filter_True) (auto simp: db_at_update_def dest: mem_select_stale)
  have out: "out = map stale_request_of (take limit ?xs)"
    using assms(2) by (simp add: fail_stale_eq rows)
  have ids: "stale_request_id ` set out = row_id ` set (take limit ?xs)"
    by (auto simp: out stale_request_of_def image_iff)
  have "m \<in> set ?xs" using assms(3,4) False by simp
  moreover have "m \<notin> set (take limit ?xs)" using assms(5) ids by auto
  ultimately have drop: "m \<in> set (drop limit ?xs)"
    by (metis Un_iff append_take_drop_id set_append)
  then have "limit < length ?xs" by (metis drop_eq_Nil empty_iff linorder_not_less list.set(1))
  then have len: "length out = limit" by (simp add: out)
  have "sorted (map row_updated_at (take limit ?xs @ drop limit ?xs))"
    by (simp only: append_take_drop_id sorted_sort_key)
  then have le: "row_updated_at r \<le> row_updated_at m" if "r \<in> set (take limit ?xs)" for r
    using that drop unfolding map_append sorted_append by auto
  have "\<exists>r. find_request k d = Some r \<and> row_updated_at r \<le> row_updated_at m"
    if k: "k \<in> row_id ` set (take limit ?xs)" for k
  proof -
    obtain r where r: "r \<in> set (take limit ?xs)" "k = row_id r" using k by blast
    then have "r \<in> set (db_requests d)" by (auto dest!: in_set_takeD)
    then show ?thesis using find_request_mem [OF assms(1)] le [OF r(1)] r(2) by blast
  qed
  then show ?thesis using len ids by simp
qed simp

theorem fail_stale_oldest_first_witness:
  "\<exists>r. find_request 11 example_db = Some r \<and> row_updated_at r \<le> 5"
proof -
  have v: "fst (tx_fail_stale id 9 1 example_db) =
     Inr [\<lparr>stale_request_id = 11, stale_user_id = 1, previous_status = PENDING\<rparr>]"
    by code_simp
  have d: "distinct (map row_id (db_requests example_db))" by (simp add: example_db_defs)
  show ?thesis
    using fail_stale_oldest_first [OF d v, of "example_request 10 ''processing'' 5"]
    by (simp add: example_db_defs is_stale_def is_active_cases)
qed


lemma entities_of_fst: "fst (entities_of ms d) = Inr (map row_entity (filter row_readable ms))"
proof (induction ms arbitrary: d)
  case (Cons m ms)
  show ?case
  proof (cases "row_readable m")
    case True
    obtain d1 where "to_entity m d = (Inr (row_entity m), d1)"
      using to_entity_fst [of m d] True by (metis prod.collapse)
    then show ?thesis
      using Cons.IH [of d1] True by (auto simp: io_simps split: prod.splits sum.splits)
  next
    case False
    obtain col raw where c: "row_corruption m = CorruptedRecordError col raw (row_id m) (row_user_id m)"
      using row_corruption_cases [OF False] by blast
    obtain d1 where "to_entity m d = (Inl (row_corruption m), d1)"
      using to_entity_fst [of m d] False by (metis prod.collapse)
    then show ?thesis
      using Cons.IH False c
      by (auto simp: io_simps log_db_def split: prod.splits sum.splits)
  qed
qed (simp add: io_simps)


text \<open>A corrupt row costs only itself.  Reading it by id raises
  \<open>CorruptedRecordError\<close> with the row's own ids, marking it failed by those ids makes its
  status readable, and a listing never raises: it answers the user's readable requests in
  order, newest first, at most \<open>limit\<close> rows, skipping the corrupt ones.\<close>

theorem corrupt_row_isolated:
  assumes "find_request rid d = Some m" and "\<not> row_readable m"
  shows "(\<exists>col raw. fst (tx_get_by_id rid d) = Inl (CorruptedRecordError col raw rid (row_user_id m))) \<and>
     (\<exists>m'. find_request rid (snd (tx_mark_failed_by_id rid d)) = Some m' \<and>
           parse_status m' = Inr FAILED) \<and>
     fst (tx_list_by_user uid limit d)
       = Inr (map row_entity (filter row_readable (select_by_user uid limit d)))"
proof (intro conjI)
  have id: "row_id m = rid" using find_request_Some [OF assms(1)] by simp
  show "\<exists>col raw. fst (tx_get_by_id rid d) = Inl (CorruptedRecordError col raw rid (row_user_id m))"
    using assms row_corruption_cases [OF assms(2)] id by (auto simp: get_by_id_fst)
  show "\<exists>m'. find_request rid (snd (tx_mark_failed_by_id rid d)) = Some m' \<and> parse_status m' = Inr FAILED"
    using assms(1) id status_of_value [of FAILED]
    by (simp add: mark_failed_eq find_request_update parse_status_def)
  have "fst (session_scope m d) = fst (m d)" for m :: "download_request list dbio"
    by (simp add: session_scope_def split: prod.split sum.split)
  then show "fst (tx_list_by_user uid limit d)
       = Inr (map row_entity (filter row_readable (select_by_user uid limit d)))"
    by (simp add: tx_list_by_user_def sql_list_by_user_def bindE_def askE_def entities_of_fst)
qed

theorem corrupt_row_isolated_witness:
  "fst (tx_list_by_user 1 20 (example_db\<lparr>db_requests :=
       [example_request 10 ''archived'' 5, example_request 11 ''pending'' 3]\<rparr>))
     = Inr [row_entity (example_request 11 ''pending'' 3)]"
proof -
  let ?d = "example_db\<lparr>db_requests := [example_request 10 ''archived'' 5, example_request 11 ''pending'' 3]\<rparr>"
  have f: "find_request 10 ?d = Some (example_request 10 ''archived'' 5)"
    by (simp add: find_request_def example_request_def)
  have n: "\<not> row_readable (example_request 10 ''archived'' 5)"
    by (simp add: row_readable_def parse_status_def status_of_def example_request_def)
  have y: "row_readable (example_request 11 ''pending'' 3)"
    by (simp add: row_readable_def parse_status_def parse_spec_def status_of_def spec_from_parts_def
        format_kind_of_def tier_of_def example_request_def)
  have s: "select_by_user 1 20 ?d = [example_request 10 ''archived'' 5, example_request 11 ''pending'' 3]"
    by (simp add: select_by_user_def example_request_def)
  show ?thesis using corrupt_row_isolated [OF f n, of 1 20] n y unfolding s by simp
qed


end
