(* ===== verification/Values.thy ===== *)
theory Values
  imports Domain
begin

text \<open>
  Dynamically typed Python values: the info dictionaries of yt-dlp, what crosses a process
  boundary or Redis as JSON, and the built-ins the code applies to them.  A float is the
  rational it denotes (no infinities, no NaN); a dictionary is an association list whose first
  entry for a key counts; \<open>PFun\<close> is a callable, by its name.
\<close>

datatype pyval =
    PNone
  | PBool bool
  | PInt int
  | PFloat rat
  | PStr string
  | PList "pyval list"
  | PDict "(string \<times> pyval) list"
  | PFun string

type_synonym py_dict = "(string \<times> pyval) list"

text \<open>\<open>d.get(key)\<close>.\<close>

definition get_key :: "py_dict \<Rightarrow> string \<Rightarrow> pyval" where
  "get_key d k = (case map_of d k of None \<Rightarrow> PNone | Some v \<Rightarrow> v)"

fun truthy :: "pyval \<Rightarrow> bool" where
  "truthy PNone = False"
| "truthy (PBool b) = b"
| "truthy (PInt i) = (i \<noteq> 0)"
| "truthy (PFloat q) = (q \<noteq> 0)"
| "truthy (PStr s) = (s \<noteq> [])"
| "truthy (PList xs) = (xs \<noteq> [])"
| "truthy (PDict d) = (d \<noteq> [])"
| "truthy (PFun _) = True"

text \<open>\<open>a or b\<close>.\<close>

definition py_or :: "pyval \<Rightarrow> pyval \<Rightarrow> pyval" where
  "py_or a b = (if truthy a then a else b)"

text \<open>\<open>int(q)\<close> truncates towards zero; \<open>round(q)\<close> rounds a half to the even neighbour.\<close>

definition trunc_rat :: "rat \<Rightarrow> int" where
  "trunc_rat q = (if 0 \<le> q then \<lfloor>q\<rfloor> else \<lceil>q\<rceil>)"

definition round_half_even :: "rat \<Rightarrow> int" where
  "round_half_even q =
     (let f = \<lfloor>q\<rfloor>; d = q - of_int f
      in if d < 1 / 2 then f
         else if 1 / 2 < d then f + 1
         else if even f then f else f + 1)"

text \<open>
  \<open>int(s)\<close> of a string: an optional sign and decimal digits, blanks around them ignored;
  underscores between digits are not modelled.
\<close>

definition digit_value :: "char \<Rightarrow> nat option" where
  "digit_value c =
     (let n = (of_char c :: nat) in if 48 \<le> n \<and> n \<le> 57 then Some (n - 48) else None)"

fun parse_digits :: "nat \<Rightarrow> string \<Rightarrow> nat option" where
  "parse_digits acc [] = Some acc"
| "parse_digits acc (c # cs) =
     (case digit_value c of None \<Rightarrow> None | Some d \<Rightarrow> parse_digits (10 * acc + d) cs)"

definition parse_nat :: "string \<Rightarrow> nat option" where
  "parse_nat s = (if s = [] then None else parse_digits 0 s)"

definition parse_int :: "string \<Rightarrow> int option" where
  "parse_int s =
     (case py_strip s of
        [] \<Rightarrow> None
      | c # cs \<Rightarrow>
          if c = CHR ''-'' then map_option (\<lambda>n. - int n) (parse_nat cs)
          else if c = CHR ''+'' then map_option int (parse_nat cs)
          else map_option int (parse_nat (c # cs)))"

fun py_int :: "pyval \<Rightarrow> exn + int" where
  "py_int (PInt i) = Inr i"
| "py_int (PBool b) = Inr (if b then 1 else 0)"
| "py_int (PFloat q) = Inr (trunc_rat q)"
| "py_int (PStr s) = (case parse_int s of None \<Rightarrow> Inl (ValueError ''invalid literal for int()'')
                                        | Some i \<Rightarrow> Inr i)"
| "py_int _ = Inl TypeError"

text \<open>
  \<open>float(s)\<close> of a string: digits with an optional fraction (the form ffprobe prints);
  signs, exponents, infinities and underscores are not modelled and raise like other text.
\<close>

definition parse_decimal :: "string \<Rightarrow> rat option" where
  "parse_decimal s =
     (case partition_at (CHR ''.'') (py_strip s) of (whole, point, decimals) \<Rightarrow>
        (case (if whole = [] then Some 0 else parse_nat whole,
               if decimals = [] then Some 0 else parse_nat decimals) of
           (Some w, Some f) \<Rightarrow>
             if whole = [] \<and> decimals = [] then None
             else Some (of_nat w + of_nat f / 10 ^ length decimals)
         | _ \<Rightarrow> None))"

text \<open>\<open>float(v)\<close>.\<close>

fun py_float :: "pyval \<Rightarrow> exn + rat" where
  "py_float (PInt i) = Inr (of_int i)"
| "py_float (PBool b) = Inr (if b then 1 else 0)"
| "py_float (PFloat q) = Inr q"
| "py_float (PStr s) = (case parse_decimal s of
     None \<Rightarrow> Inl (ValueError ''could not convert string to float'') | Some q \<Rightarrow> Inr q)"
| "py_float _ = Inl TypeError"

text \<open>The value of a number, for \<open>sum\<close> and comparisons.\<close>

fun py_number :: "pyval \<Rightarrow> rat option" where
  "py_number (PInt i) = Some (of_int i)"
| "py_number (PBool b) = Some (if b then 1 else 0)"
| "py_number (PFloat q) = Some q"
| "py_number _ = None"

definition opt_int :: "int option \<Rightarrow> pyval" where
  "opt_int i = (case i of None \<Rightarrow> PNone | Some n \<Rightarrow> PInt n)"

definition opt_str :: "string option \<Rightarrow> pyval" where
  "opt_str s = (case s of None \<Rightarrow> PNone | Some t \<Rightarrow> PStr t)"

definition opt_float :: "rat option \<Rightarrow> pyval" where
  "opt_float q = (case q of None \<Rightarrow> PNone | Some r \<Rightarrow> PFloat r)"

lemma opt_int_inject [simp]: "opt_int a = opt_int b \<longleftrightarrow> a = b"
  by (cases a; cases b) (simp_all add: opt_int_def)

section \<open>Collecting results\<close>

text \<open>A list comprehension whose elements may raise: the first exception wins.\<close>

fun map_exn :: "('a \<Rightarrow> 'e + 'b) \<Rightarrow> 'a list \<Rightarrow> 'e + 'b list" where
  "map_exn f [] = Inr []"
| "map_exn f (x # xs) =
     (case f x of Inl e \<Rightarrow> Inl e
      | Inr y \<Rightarrow> (case map_exn f xs of Inl e \<Rightarrow> Inl e | Inr ys \<Rightarrow> Inr (y # ys)))"

lemma map_exn_Inr: "map_exn f xs = Inr ys \<longleftrightarrow> map f xs = map Inr ys"
proof (induction xs arbitrary: ys)
  case (Cons x xs)
  show ?case
  proof (cases "f x")
    case (Inl e)
    then show ?thesis by (cases ys) auto
  next
    case (Inr y)
    have tail: "(case map_exn f xs of Inl e \<Rightarrow> False | Inr zs \<Rightarrow> zs = ts) \<longleftrightarrow> map f xs = map Inr ts" for ts
      using Cons [of ts] by (auto split: sum.split)
    show ?thesis
      using Inr tail by (cases ys; cases "map_exn f xs") auto
  qed
qed auto

lemma map_exn_Inl: "map_exn f xs = Inl e \<Longrightarrow> \<exists>x \<in> set xs. f x = Inl e"
  by (induction xs) (auto split: sum.splits)

section \<open>Decimal numerals read back\<close>

lemma digit_value_digit_char [simp]: "d < 10 \<Longrightarrow> digit_value (digit_char d) = Some d"
  by (simp add: digit_value_def digit_char_def Let_def)

lemma parse_digits_append:
  "parse_digits acc (s @ t) =
     (case parse_digits acc s of None \<Rightarrow> None | Some a \<Rightarrow> parse_digits a t)"
  by (induction s arbitrary: acc) (auto split: option.splits)

lemma show_nat_nonempty [simp]: "show_nat n \<noteq> []"
  by (subst show_nat.simps) simp

lemma parse_digits_show_nat: "parse_digits 0 (show_nat n) = Some n"
proof (induction n rule: show_nat.induct)
  case (1 n)
  show ?case
  proof (cases "n < 10")
    case True
    then show ?thesis by (subst show_nat.simps) simp
  next
    case False
    then have s: "show_nat n = show_nat (n div 10) @ [digit_char (n mod 10)]"
      by (subst show_nat.simps) simp
    show ?thesis unfolding s parse_digits_append 1 [OF False] by simp
  qed
qed

lemma parse_nat_show_nat [simp]: "parse_nat (show_nat n) = Some n"
  by (simp add: parse_nat_def parse_digits_show_nat)

lemma show_nat_inject [simp]: "show_nat a = show_nat b \<longleftrightarrow> a = b"
  by (metis option.inject parse_nat_show_nat)

lemma digits_of_show_nat: "c \<in> set (show_nat n) \<Longrightarrow> \<exists>d < 10. c = digit_char d"
proof (induction n rule: show_nat.induct)
  case (1 n)
  show ?case
  proof (cases "n < 10")
    case True
    then show ?thesis using 1(2) by (subst (asm) show_nat.simps) auto
  next
    case False
    then have s: "show_nat n = show_nat (n div 10) @ [digit_char (n mod 10)]"
      by (subst show_nat.simps) simp
    show ?thesis using 1 False s by (metis Un_iff empty_iff empty_set insert_iff list.simps(15)
          mod_less_divisor set_append zero_less_numeral)
  qed
qed

lemma of_char_digit: "d < 10 \<Longrightarrow> (of_char (digit_char d) :: nat) = 48 + d"
  by (simp add: digit_char_def)

lemma digit_char_facts:
  assumes "d < 10"
  shows "\<not> is_space (digit_char d)" "digit_char d \<noteq> CHR '':''" "digit_char d \<noteq> CHR ''-''"
    "digit_char d \<noteq> CHR ''+''"
proof -
  have n: "(of_char (digit_char d) :: nat) = 48 + d" by (rule of_char_digit [OF assms])
  show "\<not> is_space (digit_char d)" using assms by (simp add: is_space_def n)
  have "(of_char (CHR '':'') :: nat) = 58" "(of_char (CHR ''-'') :: nat) = 45"
    "(of_char (CHR ''+'') :: nat) = 43" by simp_all
  then show "digit_char d \<noteq> CHR '':''" "digit_char d \<noteq> CHR ''-''" "digit_char d \<noteq> CHR ''+''"
    using n assms by (auto dest: arg_cong [of _ _ "of_char :: char \<Rightarrow> nat"])
qed

lemma show_nat_facts:
  "c \<in> set (show_nat n) \<Longrightarrow> \<not> is_space c \<and> c \<noteq> CHR '':'' \<and> c \<noteq> CHR ''-'' \<and> c \<noteq> CHR ''+''"
proof -
  assume "c \<in> set (show_nat n)"
  then obtain d where "d < 10" "c = digit_char d" using digits_of_show_nat [of c n] by auto
  then show ?thesis using digit_char_facts [of d] by simp
qed

lemma py_strip_no_space: "\<forall>c \<in> set s. \<not> is_space c \<Longrightarrow> py_strip s = s"
proof (cases "s = []")
  case False
  assume "\<forall>c \<in> set s. \<not> is_space c"
  with False have "lstrip_by is_space s = s" "rstrip_by is_space s = s"
    by (simp_all add: lstrip_by_id rstrip_by_id)
  then show ?thesis by (simp add: py_strip_def strip_by_def)
qed (simp add: py_strip_def strip_by_def lstrip_by_def rstrip_by_def)

lemma parse_int_show_int [simp]: "parse_int (show_int i) = Some i"
proof (cases "i < 0")
  case True
  have "py_strip (show_int i) = CHR ''-'' # show_nat (nat (- i))"
    using True show_nat_facts by (simp add: show_int_def py_strip_no_space is_space_def)
  then show ?thesis using True by (simp add: parse_int_def)
next
  case False
  obtain c cs where s: "show_nat (nat i) = c # cs" using show_nat_nonempty by (cases "show_nat (nat i)") auto
  have "py_strip (show_int i) = c # cs"
    using False show_nat_facts [of _ "nat i"] s by (simp add: show_int_def py_strip_no_space)
  moreover have "c \<noteq> CHR ''-''" "c \<noteq> CHR ''+''"
    using show_nat_facts [of c "nat i"] s by auto
  ultimately show ?thesis
    using False s parse_nat_show_nat [of "nat i"] by (simp add: parse_int_def)
qed

lemma show_int_no_colon: "CHR '':'' \<notin> set (show_int i)"
  by (auto simp: show_int_def dest: show_nat_facts)

end
