(* ===== verification/ErrorClassifier.thy ===== *)
theory ErrorClassifier
  imports Domain
begin

text \<open>
  \<open>src/infrastructure/downloader/error_classifier.py\<close>: from yt-dlp's message to the domain
  exception class, which is represented by the exception the class makes without arguments.
\<close>

section \<open>The signature table\<close>

definition SIGNATURES :: "(string list \<times> exn) list" where
  "SIGNATURES =
     [([''private'', ''login required'', ''log in'', ''sign in to view'',
        ''this post is not available'', ''requested content is not available'',
        ''you need to log in'', ''account is private'', ''only available to'', ''followers''],
       PrivateContentError),
      ([''sign in to confirm your age'', ''age-restricted'', ''age restricted'',
        ''inappropriate for some users'', ''confirm your age''],
       AgeRestrictedError),
      ([''geo'', ''not available in your country'', ''not available from your location'',
        ''blocked in your country'', ''available for the region'',
        ''video is restricted based on'', ''not made this video available in your country'',
        ''who has blocked it in your country'', ''not available in your location''],
       GeoRestrictedError),
      ([''video unavailable'', ''has been removed'', ''no longer available'', ''does not exist'',
        ''account has been terminated'', ''this video has been deleted'',
        ''content isn'' @ [CHR 0x27] @ ''t available'', ''removed by the uploader'',
        ''page not found'', ''http error 404''],
       ContentUnavailableError),
      ([''no video formats found'', ''there'' @ [CHR 0x27] @ ''s no video'', ''there is no video'',
        ''no media found'', ''unable to extract video''],
       UnsupportedMediaError)]"

definition PHOTO_URL_MARKERS :: "string list" where
  "PHOTO_URL_MARKERS = [''/photo/'', ''/photos/'', ''/slideshow/'']"

definition PHOTO_MSG_MARKERS :: "string list" where
  "PHOTO_MSG_MARKERS = [''slideshow'', ''photo mode'', ''image post'']"

text \<open>\<open>any(fragment in text for fragment in fragments)\<close>\<close>

definition mentions :: "string \<Rightarrow> string list \<Rightarrow> bool" where
  "mentions txt fragments = list_ex (\<lambda>f. sublist f txt) fragments"

fun first_match :: "string \<Rightarrow> (string list \<times> exn) list \<Rightarrow> exn option" where
  "first_match lowered [] = None"
| "first_match lowered ((fragments, exc_type) # rest) =
     (if mentions lowered fragments then Some exc_type else first_match lowered rest)"

definition classify_error :: "string \<Rightarrow> string \<Rightarrow> exn" where
  "classify_error message url =
     (let lowered = py_lower message
      in case first_match lowered SIGNATURES of
           Some exc_type \<Rightarrow> exc_type
         | None \<Rightarrow>
             if sublist ''unsupported url'' lowered
             then if mentions (py_lower url) PHOTO_URL_MARKERS \<or> mentions lowered PHOTO_MSG_MARKERS
                  then UnsupportedMediaError
                  else UnsupportedURLError []
             else ExtractionError)"

section \<open>What the classification can answer\<close>

definition classified :: "exn list" where
  "classified = [PrivateContentError, AgeRestrictedError, GeoRestrictedError,
     ContentUnavailableError, UnsupportedMediaError, UnsupportedURLError [], ExtractionError]"

lemma first_match_mem: "first_match l sigs = Some e \<Longrightarrow> e \<in> snd ` set sigs"
  by (induction sigs rule: first_match.induct) (auto split: if_splits)

lemma classify_error_mem: "classify_error m u \<in> set classified"
  by (auto simp: classify_error_def classified_def SIGNATURES_def Let_def
      split: option.split dest!: first_match_mem)

lemma classified_handled:
  "e \<in> set classified \<Longrightarrow> (is_extraction_error e \<or> is_unsupported_url_error e) \<and> is_exception e
     \<and> is_downloader_error e"
  by (auto simp: classified_def)

lemma first_match_Some_iff:
  "first_match l sigs = Some e \<longleftrightarrow>
     (\<exists>pre frs post. sigs = pre @ (frs, e) # post \<and> mentions l frs \<and>
        (\<forall>s \<in> set pre. \<not> mentions l (fst s)))"
proof (induction sigs)
  case (Cons s sigs)
  obtain frs c where s: "s = (frs, c)" by fastforce
  show ?case
  proof (cases "mentions l frs")
    case True
    have "(\<exists>pre frs' post. s # sigs = pre @ (frs', e) # post \<and> mentions l frs' \<and>
        (\<forall>t \<in> set pre. \<not> mentions l (fst t))) \<longleftrightarrow> c = e"
    proof
      assume "\<exists>pre frs' post. s # sigs = pre @ (frs', e) # post \<and> mentions l frs' \<and>
        (\<forall>t \<in> set pre. \<not> mentions l (fst t))"
      then obtain pre frs' post where *: "s # sigs = pre @ (frs', e) # post"
        "\<forall>t \<in> set pre. \<not> mentions l (fst t)" by blast
      then show "c = e" using True s by (cases pre) auto
    next
      assume "c = e"
      then show "\<exists>pre frs' post. s # sigs = pre @ (frs', e) # post \<and> mentions l frs' \<and>
        (\<forall>t \<in> set pre. \<not> mentions l (fst t))"
        using True s by (metis append_Nil empty_iff empty_set)
    qed
    then show ?thesis using True s by simp
  next
    case False
    have "(\<exists>pre frs' post. s # sigs = pre @ (frs', e) # post \<and> mentions l frs' \<and>
        (\<forall>t \<in> set pre. \<not> mentions l (fst t))) \<longleftrightarrow>
       (\<exists>pre frs' post. sigs = pre @ (frs', e) # post \<and> mentions l frs' \<and>
        (\<forall>t \<in> set pre. \<not> mentions l (fst t)))"
    proof
      assume "\<exists>pre frs' post. s # sigs = pre @ (frs', e) # post \<and> mentions l frs' \<and>
        (\<forall>t \<in> set pre. \<not> mentions l (fst t))"
      then obtain pre frs' post where *: "s # sigs = pre @ (frs', e) # post" "mentions l frs'"
        "\<forall>t \<in> set pre. \<not> mentions l (fst t)" by blast
      then show "\<exists>pre frs' post. sigs = pre @ (frs', e) # post \<and> mentions l frs' \<and>
        (\<forall>t \<in> set pre. \<not> mentions l (fst t))"
        using False s by (cases pre) auto
    next
      assume "\<exists>pre frs' post. sigs = pre @ (frs', e) # post \<and> mentions l frs' \<and>
        (\<forall>t \<in> set pre. \<not> mentions l (fst t))"
      then obtain pre frs' post where *: "sigs = pre @ (frs', e) # post" "mentions l frs'"
        "\<forall>t \<in> set pre. \<not> mentions l (fst t)" by blast
      then show "\<exists>pre frs' post. s # sigs = pre @ (frs', e) # post \<and> mentions l frs' \<and>
        (\<forall>t \<in> set pre. \<not> mentions l (fst t))"
        using False s by (intro exI [of _ "s # pre"]) auto
    qed
    then show ?thesis using False s Cons by simp
  qed
qed simp

section \<open>Properties\<close>

text \<open>The classification is decided by priority and ignores case: the class of an entry of
  the table is the answer exactly when that entry matches and no earlier one does.  Whatever the text, the answer is one of the categories the callers catch.\<close>

theorem classify_error_priority:
  "(classify_error message url = c \<and> (\<exists>s \<in> set SIGNATURES. mentions (py_lower message) (fst s)) \<longleftrightarrow>
     (\<exists>pre frs post. SIGNATURES = pre @ (frs, c) # post \<and> mentions (py_lower message) frs \<and>
        \<not> (\<exists>s \<in> set pre. mentions (py_lower message) (fst s)))) \<and>
   classify_error (py_lower message) (py_lower url) = classify_error message url \<and>
   (is_extraction_error (classify_error message url) \<or>
    is_unsupported_url_error (classify_error message url))"
proof (intro conjI)
  have fm: "first_match l sigs = Some e \<longleftrightarrow>
     (\<exists>pre frs post. sigs = pre @ (frs, e) # post \<and> mentions l frs \<and>
        \<not> (\<exists>s \<in> set pre. mentions l (fst s)))" for l sigs e
    by (simp add: first_match_Some_iff)
  have none: "first_match l sigs = None \<longleftrightarrow> \<not> (\<exists>s \<in> set sigs. mentions l (fst s))" for l sigs
    by (induction sigs rule: first_match.induct) auto
  show "(classify_error message url = c \<and> (\<exists>s \<in> set SIGNATURES. mentions (py_lower message) (fst s))) \<longleftrightarrow>
     (\<exists>pre frs post. SIGNATURES = pre @ (frs, c) # post \<and> mentions (py_lower message) frs \<and>
        \<not> (\<exists>s \<in> set pre. mentions (py_lower message) (fst s)))"
    unfolding fm [symmetric]
    using none [of "py_lower message" SIGNATURES]
    by (cases "first_match (py_lower message) SIGNATURES") (auto simp: classify_error_def Let_def)
  show "classify_error (py_lower message) (py_lower url) = classify_error message url"
    unfolding classify_error_def py_lower_idem by (rule refl)
  show "is_extraction_error (classify_error message url) \<or>
    is_unsupported_url_error (classify_error message url)"
    using classified_handled [OF classify_error_mem [of message url]] by blast
qed

text \<open>The fragment \<open>geo\<close> also matches volatile text such as an extractor's name, so a
  missing video of National Geographic is reported as blocked in the user's region.\<close>

theorem geo_matches_extractor_name:
  "classify_error ''ERROR: [NationalGeographicTV] 12: HTTP Error 404: Not Found'' url
     = GeoRestrictedError \<and>
   classify_error ''ERROR: [NationalGraphicTV] 12: HTTP Error 404: Not Found'' url
     = ContentUnavailableError"
proof
  show "classify_error ''ERROR: [NationalGeographicTV] 12: HTTP Error 404: Not Found'' url
     = GeoRestrictedError"
    by code_simp
  show "classify_error ''ERROR: [NationalGraphicTV] 12: HTTP Error 404: Not Found'' url
     = ContentUnavailableError"
    by code_simp
qed

end
