(* ===== verification/Downloader.thy ===== *)
theory Downloader
  imports Values ErrorClassifier
begin

text \<open>
  \<open>src/infrastructure/downloader/ytdlp_downloader.py\<close>, the pure part and the child
  processes: the format options, what is read from yt-dlp's info dictionary, the two
  entrypoints.  yt-dlp, ffprobe and the child's file system are the record \<open>ytdl\<close>; the
  queues carry its answers to the parent (theory \<open>DownloadRun\<close>).
\<close>

section \<open>Preview facts\<close>

definition COMPATIBLE_VCODEC :: string where
  "COMPATIBLE_VCODEC = ''h264''"

definition VCODEC_PREFIXES :: "(string \<times> string list) list" where
  "VCODEC_PREFIXES =
     [(''h264'', [''avc1'', ''h264'']), (''h265'', [''hvc1'', ''hev1'', ''h265'']),
      (''vp9'', [''vp9'', ''vp09'']), (''av01'', [''av01''])]"

text \<open>\<open>f.get("vcodec") not in (None, "none")\<close>\<close>

definition has_codec :: "pyval \<Rightarrow> bool" where
  "has_codec v \<longleftrightarrow> v \<noteq> PNone \<and> v \<noteq> PStr ''none''"

text \<open>
  \<open>str(v).startswith(prefixes)\<close>; the text of a value that is no string never starts with
  one of the starts.
\<close>

definition codec_startswith :: "pyval \<Rightarrow> string list \<Rightarrow> bool" where
  "codec_startswith v starts =
     (case v of PStr s \<Rightarrow> list_ex (\<lambda>p. prefix p s) starts | _ \<Rightarrow> False)"

definition format_is_sized :: "py_dict \<Rightarrow> bool" where
  "format_is_sized f \<longleftrightarrow>
     has_codec (get_key f ''vcodec'') \<and> truthy (get_key f ''width'') \<and> truthy (get_key f ''height'')"

definition format_is_compatible :: "string list \<Rightarrow> py_dict \<Rightarrow> bool" where
  "format_is_compatible starts f = codec_startswith (get_key f ''vcodec'') starts"

definition format_short_side :: "py_dict \<Rightarrow> exn + int" where
  "format_short_side f =
     (case py_int (get_key f ''width'') of
        Inl e \<Rightarrow> Inl e
      | Inr w \<Rightarrow> (case py_int (get_key f ''height'') of Inl e \<Rightarrow> Inl e | Inr h \<Rightarrow> Inr (min w h)))"

definition format_pool :: "string list \<Rightarrow> py_dict list \<Rightarrow> py_dict list" where
  "format_pool starts formats =
     (let sized = filter format_is_sized formats;
          compatible = filter (format_is_compatible starts) sized
      in if compatible \<noteq> [] then compatible else sized)"

definition max_compatible_short_side :: "py_dict list \<Rightarrow> exn + int option" where
  "max_compatible_short_side formats =
     (case map_of VCODEC_PREFIXES COMPATIBLE_VCODEC of
        None \<Rightarrow> Inl KeyError
      | Some starts \<Rightarrow>
          (case map_exn format_short_side (format_pool starts formats) of
             Inl e \<Rightarrow> Inl e
           | Inr [] \<Rightarrow> Inr None
           | Inr (n # ns) \<Rightarrow> Inr (Some (fold max ns n))))"

definition YDL_OPTS_PREVIEW :: py_dict where
  "YDL_OPTS_PREVIEW =
     [(''quiet'', PBool True), (''socket_timeout'', PInt 30), (''retries'', PInt 3),
      (''no_warnings'', PBool True), (''noplaylist'', PBool True), (''skip_download'', PBool True)]"

definition guess_media_type :: "py_dict \<Rightarrow> media_type" where
  "guess_media_type info =
     (if has_codec (get_key info ''vcodec'') then MVideo
      else if has_codec (get_key info ''acodec'') then MAudio
      else MUnknown)"

text \<open>The dictionaries of a list; iterating or calling \<open>.get\<close> on anything else raises.\<close>

definition as_dict :: "pyval \<Rightarrow> exn + py_dict" where
  "as_dict v = (case v of PDict d \<Rightarrow> Inr d | _ \<Rightarrow> Inl AttributeError)"

text \<open>What iterating over a JSON value yields: the keys of an object, the characters of a text.\<close>

definition iterated :: "pyval \<Rightarrow> exn + pyval list" where
  "iterated v =
     (case v of
        PList xs \<Rightarrow> Inr xs
      | PDict d \<Rightarrow> Inr (map (\<lambda>(k, _). PStr k) d)
      | PStr t \<Rightarrow> Inr (map (\<lambda>c. PStr [c]) t)
      | _ \<Rightarrow> Inl TypeError)"

definition as_dicts :: "pyval \<Rightarrow> exn + py_dict list" where
  "as_dicts v = (case iterated v of Inl e \<Rightarrow> Inl e | Inr xs \<Rightarrow> map_exn as_dict xs)"

text \<open>\<open>v[0]\<close> of a truthy value, as a dictionary.\<close>

definition first_dict :: "pyval \<Rightarrow> exn + py_dict" where
  "first_dict v =
     (case v of
        PList (x # _) \<Rightarrow> as_dict x
      | PList [] \<Rightarrow> Inl (LibraryError ''IndexError'' ''list index out of range'')
      | PStr _ \<Rightarrow> Inl AttributeError
      | PDict _ \<Rightarrow> Inl KeyError
      | _ \<Rightarrow> Inl TypeError)"

text \<open>\<open>str(v)\<close>; \<open>repr_of\<close> prints what is neither text nor an integer.\<close>

definition py_str :: "(pyval \<Rightarrow> string) \<Rightarrow> pyval \<Rightarrow> string" where
  "py_str repr_of v = (case v of PStr s \<Rightarrow> s | PInt i \<Rightarrow> show_int i | _ \<Rightarrow> repr_of v)"

definition preview_facts :: "(pyval \<Rightarrow> string) \<Rightarrow> py_dict \<Rightarrow> exn + py_dict" where
  "preview_facts repr_of info =
     (case as_dicts (py_or (get_key info ''formats'') (PList [])) of
        Inl e \<Rightarrow> Inl e
      | Inr formats \<Rightarrow>
          (case max_compatible_short_side formats of
             Inl e \<Rightarrow> Inl e
           | Inr side \<Rightarrow>
               Inr [(''title'', get_key info ''title''), (''duration'', get_key info ''duration''),
                    (''uploader'', get_key info ''uploader''),
                    (''thumbnail'', get_key info ''thumbnail''),
                    (''media_type'', PStr (media_type_value (guess_media_type info))),
                    (''extractor_key'',
                       PStr (py_lower (py_str repr_of (py_or (get_key info ''extractor_key'') (PStr []))))),
                    (''max_compatible_short_side'', opt_int side)]))"

section \<open>What crosses a process boundary\<close>

text \<open>
  The payload of a queue item: a pickled object, the JSON text of an object, or other text.
\<close>

datatype payload = PyObj pyval | JsonText pyval | Text string

type_synonym child_msg = "string \<times> payload"

fun serializable :: "pyval \<Rightarrow> bool" where
  "serializable (PFun _) = False"
| "serializable (PList xs) = list_all serializable xs"
| "serializable (PDict d) = list_all (\<lambda>kv. serializable (snd kv)) d"
| "serializable _ = True"

definition json_dumps :: "pyval \<Rightarrow> exn + payload" where
  "json_dumps v = (if serializable v then Inr (JsonText v) else Inl TypeError)"

text \<open>\<open>json.loads\<close>: only text that was dumped parses.\<close>

definition json_loads :: "payload \<Rightarrow> exn + pyval" where
  "json_loads p =
     (case p of JsonText v \<Rightarrow> Inr v | Text _ \<Rightarrow> Inl (ValueError ''JSONDecodeError'') | PyObj _ \<Rightarrow> Inl TypeError)"

text \<open>yt-dlp's \<open>DownloadError\<close>.\<close>

fun is_ydl_error :: "exn \<Rightarrow> bool" where
  "is_ydl_error (LibraryError cls _) = (cls = ''DownloadError'')"
| "is_ydl_error _ = False"

definition preview_worker_entrypoint ::
    "(py_dict \<Rightarrow> string \<Rightarrow> exn + py_dict option) \<Rightarrow> (pyval \<Rightarrow> string) \<Rightarrow> string \<Rightarrow> child_msg" where
  "preview_worker_entrypoint extract_info repr_of url =
     (let report = (\<lambda>e. if is_ydl_error e then (''extract_error'', Text (exn_str e))
                        else (''error'', Text (exn_class e @ '': '' @ exn_str e)))
      in case extract_info YDL_OPTS_PREVIEW url of
           Inl e \<Rightarrow> report e
         | Inr None \<Rightarrow> (''empty'', PyObj PNone)
         | Inr (Some info) \<Rightarrow>
             (case preview_facts repr_of info of
                Inl e \<Rightarrow> report e
              | Inr facts \<Rightarrow> (''ok'', PyObj (PDict facts))))"

section \<open>The download's options\<close>

definition video_tier_value :: "download_spec \<Rightarrow> string option" where
  "video_tier_value spec = map_option tier_value (spec_video_tier spec)"

text \<open>\<open>d[key] = value\<close>\<close>

fun set_key :: "string \<Rightarrow> pyval \<Rightarrow> py_dict \<Rightarrow> py_dict" where
  "set_key k v [] = [(k, v)]"
| "set_key k v ((k', v') # d) = (if k' = k then (k, v) # d else (k', v') # set_key k v d)"

definition common_ydl_opts :: "string \<Rightarrow> string \<Rightarrow> string option \<Rightarrow> py_dict" where
  "common_ydl_opts output_dir post_hook progress_hook =
     [(''quiet'', PBool True), (''noprogress'', PBool True), (''no_warnings'', PBool True),
      (''noplaylist'', PBool True), (''outtmpl'', PStr (output_dir @ ''/%(id)s.%(ext)s'')),
      (''restrictfilenames'', PBool True), (''socket_timeout'', PInt 30), (''retries'', PInt 10),
      (''fragment_retries'', PInt 10), (''continuedl'', PBool True),
      (''post_hooks'', PList [PFun post_hook]),
      (''progress_hooks'', PList (case progress_hook of None \<Rightarrow> [] | Some h \<Rightarrow> [PFun h]))]"

definition video_format_sort :: "video_tier \<Rightarrow> string list" where
  "video_format_sort tier =
     (let sort_keys = [''vcodec:'' @ COMPATIBLE_VCODEC, ''acodec:aac'', ''ext:mp4:m4a'']
      in case short_side tier of None \<Rightarrow> sort_keys | Some n \<Rightarrow> (''res:'' @ show_int n) # sort_keys)"

text \<open>The \<open>match spec\<close> of \<open>_build_download_ydl_opts\<close>.\<close>

definition format_ydl_opts :: "download_spec \<Rightarrow> py_dict \<Rightarrow> py_dict" where
  "format_ydl_opts spec opts =
     (case spec of
        AudioSpec codec \<Rightarrow>
          set_key ''postprocessors''
            (PList [PDict [(''key'', PStr ''FFmpegExtractAudio''),
                           (''preferredcodec'', PStr (codec_value codec)),
                           (''preferredquality'', PStr ''192'')]])
            (set_key ''format'' (PStr ''bestaudio[ext=m4a]/bestaudio/best'') opts)
      | VideoSpec tier \<Rightarrow>
          set_key ''merge_output_format'' (PStr ''mp4'')
            (set_key ''format_sort'' (PList (map PStr (video_format_sort tier)))
               (set_key ''format'' (PStr ''bv*+ba/b'') opts)))"

definition build_download_ydl_opts ::
    "string \<Rightarrow> int option \<Rightarrow> download_spec \<Rightarrow> string \<Rightarrow> string option \<Rightarrow> py_dict" where
  "build_download_ydl_opts output_dir max_filesize_bytes spec post_hook progress_hook =
     (let opts = format_ydl_opts spec (common_ydl_opts output_dir post_hook progress_hook)
      in case max_filesize_bytes of
           None \<Rightarrow> opts
         | Some n \<Rightarrow> if n = 0 then opts else set_key ''max_filesize'' (PInt n) opts)"

section \<open>Sizes, progress and media facts\<close>

fun py_sum :: "pyval list \<Rightarrow> exn + rat" where
  "py_sum [] = Inr 0"
| "py_sum (v # vs) =
     (case py_number v of
        None \<Rightarrow> Inl TypeError
      | Some q \<Rightarrow> (case py_sum vs of Inl e \<Rightarrow> Inl e | Inr r \<Rightarrow> Inr (q + r)))"

definition filesize_of :: "py_dict \<Rightarrow> pyval" where
  "filesize_of r = py_or (get_key r ''filesize'') (get_key r ''filesize_approx'')"

definition estimate_total_filesize :: "py_dict option \<Rightarrow> exn + int option" where
  "estimate_total_filesize info =
     (case info of
        None \<Rightarrow> Inr None
      | Some d \<Rightarrow>
          (let requested = get_key d ''requested_downloads''
           in if truthy requested then
                (case as_dicts requested of
                   Inl e \<Rightarrow> Inl e
                 | Inr rs \<Rightarrow>
                     (let sizes = map filesize_of rs
                      in if list_all (\<lambda>s. s \<noteq> PNone) sizes
                         then (case py_sum sizes of Inl e \<Rightarrow> Inl e | Inr q \<Rightarrow> Inr (Some (trunc_rat q)))
                         else Inr None))
              else
                (let size = filesize_of d
                 in if size = PNone then Inr None
                    else (case py_int size of Inl e \<Rightarrow> Inl e | Inr n \<Rightarrow> Inr (Some n)))))"

definition translate_progress_status :: "py_dict \<Rightarrow> format_kind \<Rightarrow> py_dict option" where
  "translate_progress_status status kind =
     (if get_key status ''status'' = PStr ''finished''
      then if kind = AUDIO then Some [(''phase'', PStr (phase_value CONVERTING))] else None
      else if get_key status ''status'' \<noteq> PStr ''downloading'' then None
      else Some
        [(''downloaded_bytes'', get_key status ''downloaded_bytes''),
         (''total_bytes'', py_or (get_key status ''total_bytes'') (get_key status ''total_bytes_estimate'')),
         (''speed'', get_key status ''speed''), (''eta'', get_key status ''eta'')])"

fun positive_int :: "pyval \<Rightarrow> int option" where
  "positive_int (PInt i) = (if i \<le> 0 then None else Some i)"
| "positive_int (PFloat q) = (if q \<le> 0 then None else Some (round_half_even q))"
| "positive_int _ = None"

text \<open>\<open>a or b\<close> on \<open>int | None\<close>.\<close>

definition or_int :: "int option \<Rightarrow> int option \<Rightarrow> int option" where
  "or_int a b = (case a of Some n \<Rightarrow> if n = 0 then b else a | None \<Rightarrow> b)"

record ytdl =
  yd_probe :: "py_dict \<Rightarrow> string \<Rightarrow> exn + py_dict option"
  yd_fetch :: "py_dict \<Rightarrow> string \<Rightarrow> (exn + py_dict option) \<times> py_dict list \<times> string list"
  yd_prepare_filename :: "py_dict \<Rightarrow> string"
  yd_isfile :: "string \<Rightarrow> bool"
  yd_listdir :: "string \<Rightarrow> exn + string list"
  yd_ffprobe :: "string \<Rightarrow> exn + payload"
  yd_repr :: "pyval \<Rightarrow> string"

text \<open>The exceptions \<open>_ffprobe_facts\<close> catches; a \<open>SubprocessError\<close> is a library's.\<close>

fun ffprobe_caught :: "exn \<Rightarrow> bool" where
  "ffprobe_caught (OSError _) = True"
| "ffprobe_caught (ValueError _) = True"
| "ffprobe_caught (LibraryError cls _) = (cls \<in> {''SubprocessError'', ''TimeoutExpired'', ''CalledProcessError''})"
| "ffprobe_caught _ = False"

record probed_facts =
  probed_width :: "int option"
  probed_height :: "int option"
  probed_duration :: "int option"

definition no_probed_facts :: probed_facts where
  "no_probed_facts = \<lparr>probed_width = None, probed_height = None, probed_duration = None\<rparr>"

text \<open>The generator stops at the first video stream, so what follows it is not looked at.\<close>

fun first_video :: "pyval list \<Rightarrow> exn + py_dict" where
  "first_video [] = Inr []"
| "first_video (v # vs) =
     (case as_dict v of
        Inl e \<Rightarrow> Inl e
      | Inr st \<Rightarrow> if get_key st ''codec_type'' = PStr ''video'' then Inr st else first_video vs)"

definition get_default :: "py_dict \<Rightarrow> string \<Rightarrow> pyval \<Rightarrow> pyval" where
  "get_default d k dflt = (case map_of d k of None \<Rightarrow> dflt | Some v \<Rightarrow> v)"

definition ffprobe_facts :: "ytdl \<Rightarrow> string \<Rightarrow> exn + probed_facts" where
  "ffprobe_facts y filename =
     (case (case yd_ffprobe y filename of Inl e \<Rightarrow> Inl e | Inr out \<Rightarrow> json_loads out) of
        Inl e \<Rightarrow> if ffprobe_caught e then Inr no_probed_facts else Inl e
      | Inr (PDict probe) \<Rightarrow>
          (case (case iterated (get_default probe ''streams'' (PList [])) of Inl e \<Rightarrow> Inl e | Inr streams \<Rightarrow> first_video streams) of
             Inl e \<Rightarrow> Inl e
           | Inr video \<Rightarrow>
               (case as_dict (get_default probe ''format'' (PDict [])) of
                     Inl e \<Rightarrow> Inl e
                   | Inr fmt \<Rightarrow>
                       (let duration = (case py_float (get_key fmt ''duration'') of Inl _ \<Rightarrow> 0 | Inr q \<Rightarrow> q)
                        in Inr \<lparr>probed_width = positive_int (get_key video ''width''),
                                probed_height = positive_int (get_key video ''height''),
                                probed_duration = positive_int (PFloat duration)\<rparr>)))
      | Inr _ \<Rightarrow> Inl AttributeError)"

definition media_facts :: "ytdl \<Rightarrow> py_dict option \<Rightarrow> string \<Rightarrow> format_kind \<Rightarrow> exn + pyval" where
  "media_facts y info0 filename kind =
     (let info = (case info0 of None \<Rightarrow> [] | Some d \<Rightarrow> d);
          is_video = (kind = VIDEO);
          width = (if is_video then positive_int (get_key info ''width'') else None);
          height = (if is_video then positive_int (get_key info ''height'') else None);
          duration = positive_int (get_key info ''duration'');
          facts = (\<lambda>w h d. PDict
            [(''path'', PStr filename), (''width'', opt_int w), (''height'', opt_int h),
             (''duration_seconds'', opt_int d), (''title'', py_or (get_key info ''title'') PNone),
             (''uploader'', py_or (py_or (py_or (get_key info ''artist'') (get_key info ''uploader''))
                                    (get_key info ''channel'')) PNone)])
      in if duration = None \<or> (is_video \<and> (width = None \<or> height = None))
         then (case ffprobe_facts y filename of
                 Inl e \<Rightarrow> Inl e
               | Inr p \<Rightarrow>
                   Inr (facts (if is_video then or_int width (probed_width p) else width)
                              (if is_video then or_int height (probed_height p) else height)
                              (or_int duration (probed_duration p))))
         else Inr (facts width height duration))"

definition resolve_downloaded_filepath :: "ytdl \<Rightarrow> py_dict option \<Rightarrow> exn + string" where
  "resolve_downloaded_filepath y info =
     (case info of
        None \<Rightarrow> Inl (DownloadProcessInternal ''yt-dlp returned no info after download'')
      | Some d \<Rightarrow>
          (let requested = get_key d ''requested_downloads'';
               guess = Inr (yd_prepare_filename y d)
           in if truthy requested then
                (case first_dict requested of
                   Inl e \<Rightarrow> Inl e
                 | Inr r \<Rightarrow>
                     (let filepath = get_key r ''filepath''
                      in if truthy filepath then Inr (py_str (yd_repr y) filepath) else guess))
              else guess))"

definition build_missing_file_diagnostic ::
    "ytdl \<Rightarrow> string \<Rightarrow> string \<Rightarrow> bool \<Rightarrow> string list \<Rightarrow> py_dict option \<Rightarrow> string" where
  "build_missing_file_diagnostic y filename output_dir used_hook hook_filenames info =
     (let actual_files = (case yd_listdir y output_dir of
            Inr fs \<Rightarrow> fs
          | Inl e \<Rightarrow> [''<could not list directory: '' @ exn_str e @ ''>'']);
          info_summary = (case info of
            None \<Rightarrow> PNone
          | Some d \<Rightarrow> PDict (map (\<lambda>k. (k, get_key d k))
              [''id'', ''ext'', ''requested_downloads'', ''requested_formats'', ''_filename'', ''filepath'']))
      in ''yt-dlp reported success but the output file is missing: '' @ filename @
         ''. used_post_hook_filename='' @ (if used_hook then ''True'' else ''False'') @
         '' post_hook_filenames='' @ yd_repr y (PList (map PStr hook_filenames)) @
         '' dir_contents='' @ yd_repr y (PList (map PStr actual_files)) @
         '' info_summary='' @ yd_repr y info_summary)"

section \<open>The download child\<close>

text \<open>What the hooks put on the progress queue.\<close>

definition forwarded_progress :: "format_kind \<Rightarrow> py_dict list \<Rightarrow> py_dict list" where
  "forwarded_progress kind statuses =
     List.map_filter (\<lambda>st. translate_progress_status st kind) statuses"

text \<open>The check before the download: \<open>Inr ()\<close> to go on.\<close>

definition size_check :: "ytdl \<Rightarrow> py_dict \<Rightarrow> string \<Rightarrow> int option \<Rightarrow> exn + unit" where
  "size_check y opts url max_filesize_bytes =
     (case max_filesize_bytes of
        None \<Rightarrow> Inr ()
      | Some limit \<Rightarrow>
          if limit = 0 then Inr ()
          else (case yd_probe y opts url of
                  Inl e \<Rightarrow> Inl e
                | Inr info \<Rightarrow>
                    (case estimate_total_filesize info of
                       Inl e \<Rightarrow> Inl e
                     | Inr None \<Rightarrow> Inr ()
                     | Inr (Some estimated) \<Rightarrow>
                         if estimated > limit
                         then Inl (FileTooLargeInternal
                                (round_half_even (of_int estimated / (1024 * 1024)))
                                (limit div (1024 * 1024)))
                         else Inr ())))"

text \<open>After the download: the final file and the facts sent to the parent.\<close>

definition finish_download ::
    "ytdl \<Rightarrow> string \<Rightarrow> format_kind \<Rightarrow> py_dict option \<Rightarrow> string list \<Rightarrow> exn + payload" where
  "finish_download y output_dir kind info final_filenames =
     (case (if final_filenames \<noteq> [] then Inr (last final_filenames)
            else resolve_downloaded_filepath y info) of
        Inl e \<Rightarrow> Inl e
      | Inr filename \<Rightarrow>
          if \<not> yd_isfile y filename
          then Inl (DownloadProcessInternal
                 (build_missing_file_diagnostic y filename output_dir (final_filenames \<noteq> [])
                    final_filenames info))
          else (case media_facts y info filename kind of
                  Inl e \<Rightarrow> Inl e
                | Inr facts \<Rightarrow> json_dumps facts))"

definition download_child_body ::
    "ytdl \<Rightarrow> string \<Rightarrow> string \<Rightarrow> int option \<Rightarrow> string \<Rightarrow> string option \<Rightarrow> (exn + payload) \<times> py_dict list" where
  "download_child_body y url output_dir max_filesize_bytes kind_value tier =
     (case spec_from_parts kind_value tier of
        Inl e \<Rightarrow> (Inl e, [])
      | Inr spec \<Rightarrow>
          (let kind = spec_kind spec;
               opts = build_download_ydl_opts output_dir max_filesize_bytes spec
                        ''_record_final_filename'' (Some ''_record_progress'')
           in case size_check y opts url max_filesize_bytes of
                Inl e \<Rightarrow> (Inl e, [])
              | Inr _ \<Rightarrow>
                  (case yd_fetch y opts url of (result, statuses, final_filenames) \<Rightarrow>
                     ((case result of
                         Inl e \<Rightarrow> Inl e
                       | Inr info \<Rightarrow> finish_download y output_dir kind info final_filenames),
                      forwarded_progress kind statuses))))"

fun child_report :: "exn + payload \<Rightarrow> child_msg" where
  "child_report (Inr p) = (''ok'', p)"
| "child_report (Inl (FileTooLargeInternal estimated limit)) =
     (''too_large'', Text (show_int estimated @ '':'' @ show_int limit))"
| "child_report (Inl e) =
     (if is_ydl_error e then (''extract_error'', Text (exn_str e)) else (''error'', Text (exn_str e)))"

definition download_worker_entrypoint ::
    "ytdl \<Rightarrow> string \<Rightarrow> string \<Rightarrow> int option \<Rightarrow> string \<Rightarrow> string option \<Rightarrow> child_msg \<times> py_dict list" where
  "download_worker_entrypoint y url output_dir max_filesize_bytes kind_value tier =
     (case download_child_body y url output_dir max_filesize_bytes kind_value tier of
        (result, progress) \<Rightarrow> (child_report result, progress))"


section \<open>Facts\<close>

lemma map_of_set_key: "map_of (set_key k v d) = (map_of d)(k \<mapsto> v)"
  by (induction d) (auto simp: fun_upd_twist)

lemma get_key_set_key [simp]: "get_key (set_key k v d) k' = (if k' = k then v else get_key d k')"
  by (simp add: get_key_def map_of_set_key)

lemma get_key_audio:
  "get_key (format_ydl_opts (AudioSpec c) d) k =
     (if k = ''postprocessors'' then
        PList [PDict [(''key'', PStr ''FFmpegExtractAudio''), (''preferredcodec'', PStr (codec_value c)),
                      (''preferredquality'', PStr ''192'')]]
      else if k = ''format'' then PStr ''bestaudio[ext=m4a]/bestaudio/best'' else get_key d k)"
  by (simp only: format_ydl_opts_def download_spec.case get_key_set_key)

lemma get_key_video:
  "get_key (format_ydl_opts (VideoSpec t) d) k =
     (if k = ''merge_output_format'' then PStr ''mp4''
      else if k = ''format_sort'' then PList (map PStr (video_format_sort t))
      else if k = ''format'' then PStr ''bv*+ba/b'' else get_key d k)"
  by (simp only: format_ydl_opts_def download_spec.case get_key_set_key)

lemma get_key_opts:
  "get_key (build_download_ydl_opts dir limit s post progress) k =
     (if k = ''max_filesize'' \<and> limit \<noteq> None \<and> limit \<noteq> Some 0 then opt_int limit
      else get_key (format_ydl_opts s (common_ydl_opts dir post progress)) k)"
proof (cases limit)
  case None
  then show ?thesis by (simp only: build_download_ydl_opts_def Let_def option.case simp_thms if_False)
next
  case (Some n)
  then show ?thesis
    by (cases "n = 0") (simp_all only: build_download_ydl_opts_def Let_def option.case get_key_set_key
        option.distinct option.inject simp_thms if_True if_False opt_int_def not_False_eq_True)
qed

lemma get_key_absent: "k \<notin> set (map fst d) \<Longrightarrow> get_key d k = PNone"
  by (simp add: get_key_def map_of_eq_None_iff [THEN iffD2])

lemma common_keys:
  "map fst (common_ydl_opts dir post progress) =
     [''quiet'', ''noprogress'', ''no_warnings'', ''noplaylist'', ''outtmpl'', ''restrictfilenames'',
      ''socket_timeout'', ''retries'', ''fragment_retries'', ''continuedl'', ''post_hooks'',
      ''progress_hooks'']"
  by (simp only: common_ydl_opts_def list.map fst_conv)

lemma common_absent:
  "get_key (common_ydl_opts dir post progress) ''format_sort'' = PNone"
  "get_key (common_ydl_opts dir post progress) ''postprocessors'' = PNone"
  "get_key (common_ydl_opts dir post progress) ''max_filesize'' = PNone"
  by (rule get_key_absent, simp add: common_keys)+

lemma fold_max: "fold max ns (n :: int) = Max (set (n # ns))"
proof (induction ns arbitrary: n)
  case (Cons m ns)
  show ?case
  proof (cases "ns = []")
    case False
    then show ?thesis using Cons [of "max m n"] by (simp add: max.commute max.left_commute)
  qed (simp add: max.commute)
qed simp

lemma format_pool_facts:
  "f \<in> set (format_pool starts formats) \<Longrightarrow>
     f \<in> set formats \<and> format_is_sized f \<and>
     ((\<exists>g \<in> set formats. format_is_sized g \<and> format_is_compatible starts g) \<longrightarrow>
        format_is_compatible starts f)"
  by (auto simp: format_pool_def Let_def filter_empty_conv split: if_splits)

section \<open>Properties\<close>

text \<open>The short side the quality buttons are computed from is the largest one among the
  formats Telegram plays inline, or among all sized formats when the source has none of those;
  it is attained by a format of the source, and absent only when no format has dimensions.\<close>

theorem max_compatible_short_side_spec:
  assumes "max_compatible_short_side formats = Inr side"
  shows "case side of
       None \<Rightarrow> filter format_is_sized formats = []
     | Some n \<Rightarrow>
         (\<exists>f \<in> set (format_pool [''avc1'', ''h264''] formats). format_short_side f = Inr n) \<and>
         (\<forall>f \<in> set formats. format_is_sized f \<and>
            (format_is_compatible [''avc1'', ''h264''] f \<or>
             \<not> list_ex (format_is_compatible [''avc1'', ''h264'']) (filter format_is_sized formats)) \<longrightarrow>
            (\<exists>m. format_short_side f = Inr m \<and> m \<le> n))"
proof -
  let ?pool = "format_pool [''avc1'', ''h264''] formats"
  have starts: "map_of VCODEC_PREFIXES COMPATIBLE_VCODEC = Some [''avc1'', ''h264'']"
    by (simp add: VCODEC_PREFIXES_def COMPATIBLE_VCODEC_def)
  obtain ns where ns: "map_exn format_short_side ?pool = Inr ns"
      and side: "side = (case ns of [] \<Rightarrow> None | m # ms \<Rightarrow> Some (fold max ms m))"
    using assms starts
    by (auto simp: max_compatible_short_side_def split: sum.splits list.splits)
  have eq: "map format_short_side ?pool = map Inr ns" using ns by (simp add: map_exn_Inr)
  show ?thesis
  proof (cases ns)
    case Nil
    then have "?pool = []" using eq by simp
    then show ?thesis using Nil side by (auto simp: format_pool_def Let_def split: if_splits)
  next
    case (Cons m ms)
    have n: "side = Some (Max (set ns))" using side Cons by (simp only: list.case fold_max)
    have "Max (set ns) \<in> set ns" using Cons by (intro Max_in) auto
    then have "Inr (Max (set ns)) \<in> set (map format_short_side ?pool)" unfolding eq by simp
    then have att: "\<exists>f \<in> set ?pool. format_short_side f = Inr (Max (set ns))" by auto
    have le: "\<exists>k. format_short_side f = Inr k \<and> k \<le> Max (set ns)" if "f \<in> set ?pool" for f
    proof -
      have "format_short_side f \<in> set (map Inr ns)" using that eq [symmetric] by simp
      then show ?thesis by auto
    qed
    have mem: "f \<in> set ?pool"
      if "f \<in> set formats" "format_is_sized f"
        "format_is_compatible [''avc1'', ''h264''] f \<or>
         \<not> list_ex (format_is_compatible [''avc1'', ''h264'']) (filter format_is_sized formats)" for f
      using that by (auto simp: format_pool_def Let_def filter_empty_conv list_ex_iff)
    show ?thesis using n att le mem by auto
  qed
qed

theorem max_compatible_short_side_spec_witness:
  "max_compatible_short_side
     [[(''vcodec'', PStr ''avc1.64''), (''width'', PInt 1280), (''height'', PInt 720)],
      [(''vcodec'', PStr ''vp9''), (''width'', PInt 3840), (''height'', PInt 2160)]] = Inr (Some 720) \<and>
   720 \<le> (2160 :: int)"
proof -
  let ?fs = "[[(''vcodec'', PStr ''avc1.64''), (''width'', PInt 1280), (''height'', PInt 720)],
      [(''vcodec'', PStr ''vp9''), (''width'', PInt 3840), (''height'', PInt 2160)]]"
  have v: "max_compatible_short_side ?fs = Inr (Some 720)" by code_simp
  show ?thesis using max_compatible_short_side_spec [OF v] v by simp
qed

text \<open>Video and audio downloads are configured by one common set of options; only the
  format selection differs.  Video sorts by the tier's short side first, never by height, and
  prefers the codec the preview counted; audio extracts an mp3 and asks for no video; the size
  backstop is present exactly when there is a limit.\<close>

theorem options_follow_spec:
  "(\<forall>k. k \<notin> {''format'', ''format_sort'', ''merge_output_format'', ''postprocessors''} \<longrightarrow>
      get_key (build_download_ydl_opts dir limit s1 post progress) k
        = get_key (build_download_ydl_opts dir limit s2 post progress) k) \<and>
   get_key (build_download_ydl_opts dir limit (VideoSpec P720) post progress) ''format_sort''
     = PList (map PStr [''res:720'', ''vcodec:h264'', ''acodec:aac'', ''ext:mp4:m4a'']) \<and>
   get_key (build_download_ydl_opts dir limit (VideoSpec BEST) post progress) ''format_sort''
     = PList (map PStr [''vcodec:h264'', ''acodec:aac'', ''ext:mp4:m4a'']) \<and>
   get_key (build_download_ydl_opts dir limit (VideoSpec t) post progress) ''postprocessors'' = PNone \<and>
   get_key (build_download_ydl_opts dir limit (AudioSpec c) post progress) ''format_sort'' = PNone \<and>
   get_key (build_download_ydl_opts dir limit (AudioSpec c) post progress) ''postprocessors''
     = PList [PDict [(''key'', PStr ''FFmpegExtractAudio''), (''preferredcodec'', PStr ''mp3''),
                     (''preferredquality'', PStr ''192'')]] \<and>
   get_key (build_download_ydl_opts dir limit s1 post progress) ''max_filesize''
     = (case limit of Some n \<Rightarrow> if n = 0 then PNone else PInt n | None \<Rightarrow> PNone)"
proof (intro conjI)
  have same: "get_key (format_ydl_opts s d) k = get_key d k"
    if "k \<notin> {''format'', ''format_sort'', ''merge_output_format'', ''postprocessors''}" for s d k
    using that by (cases s) (simp_all only: get_key_audio get_key_video insert_iff de_Morgan_disj if_False
        simp_thms)
  show "\<forall>k. k \<notin> {''format'', ''format_sort'', ''merge_output_format'', ''postprocessors''} \<longrightarrow>
      get_key (build_download_ydl_opts dir limit s1 post progress) k
        = get_key (build_download_ydl_opts dir limit s2 post progress) k"
    unfolding get_key_opts
  proof (intro allI impI)
    fix k
    assume k: "k \<notin> {''format'', ''format_sort'', ''merge_output_format'', ''postprocessors''}"
    show "(if k = ''max_filesize'' \<and> limit \<noteq> None \<and> limit \<noteq> Some 0 then opt_int limit
           else get_key (format_ydl_opts s1 (common_ydl_opts dir post progress)) k) =
          (if k = ''max_filesize'' \<and> limit \<noteq> None \<and> limit \<noteq> Some 0 then opt_int limit
           else get_key (format_ydl_opts s2 (common_ydl_opts dir post progress)) k)"
      by (simp only: same [OF k])
  qed
  have "video_format_sort P720 = [''res:720'', ''vcodec:h264'', ''acodec:aac'', ''ext:mp4:m4a'']"
    by code_simp
  then show "get_key (build_download_ydl_opts dir limit (VideoSpec P720) post progress) ''format_sort''
     = PList (map PStr [''res:720'', ''vcodec:h264'', ''acodec:aac'', ''ext:mp4:m4a''])"
    unfolding get_key_opts get_key_video by simp
  have "video_format_sort BEST = [''vcodec:h264'', ''acodec:aac'', ''ext:mp4:m4a'']"
    by code_simp
  then show "get_key (build_download_ydl_opts dir limit (VideoSpec BEST) post progress) ''format_sort''
     = PList (map PStr [''vcodec:h264'', ''acodec:aac'', ''ext:mp4:m4a''])"
    unfolding get_key_opts get_key_video by simp
  show "get_key (build_download_ydl_opts dir limit (VideoSpec t) post progress) ''postprocessors'' = PNone"
    unfolding get_key_opts get_key_video by (simp add: common_absent)
  show "get_key (build_download_ydl_opts dir limit (AudioSpec c) post progress) ''format_sort'' = PNone"
    unfolding get_key_opts get_key_audio by (simp add: common_absent)
  show "get_key (build_download_ydl_opts dir limit (AudioSpec c) post progress) ''postprocessors''
     = PList [PDict [(''key'', PStr ''FFmpegExtractAudio''), (''preferredcodec'', PStr ''mp3''),
                     (''preferredquality'', PStr ''192'')]]"
    unfolding get_key_opts get_key_audio by (cases c) simp
  have "get_key (format_ydl_opts s1 (common_ydl_opts dir post progress)) ''max_filesize'' = PNone"
    using same [of "''max_filesize''" s1] common_absent(3) by simp
  then show "get_key (build_download_ydl_opts dir limit s1 post progress) ''max_filesize''
     = (case limit of Some n \<Rightarrow> if n = 0 then PNone else PInt n | None \<Rightarrow> PNone)"
    unfolding get_key_opts by (cases limit) (simp_all add: opt_int_def)
qed

theorem options_follow_spec_witness:
  "get_key (build_download_ydl_opts ''/d'' None (VideoSpec P1080) ''h'' None) ''retries''
     = get_key (build_download_ydl_opts ''/d'' None (AudioSpec MP3) ''h'' None) ''retries''"
  using options_follow_spec [of "''/d''" None "VideoSpec P1080" "''h''" None "AudioSpec MP3" P720 MP3]
  by simp

end
