(* ===== verification/DownloadRun.thy ===== *)
theory DownloadRun
  imports Downloader
begin

text \<open>
  \<open>ytdlp_downloader.py\<close>, the parent's side: the executor thread that waits for the child and
  drains its progress, the bridge to the event loop, and the methods of \<open>YtDlpDownloader\<close>.

  Time is \<open>time.monotonic()\<close> in seconds, and passes only where the code blocks.  A child is what
  the parent can observe of it: when its items arrive, when it exits, how it takes a SIGTERM,
  and whether its result fits into the pipe's buffer.  A child that has put a larger result
  cannot exit before it is read.
\<close>

section \<open>A child process as the parent sees it\<close>

record child =
  ch_exit :: "rat option"
  ch_exit_code :: int
  ch_progress :: "(rat \<times> py_dict) list"
  ch_result :: "(rat \<times> child_msg) option"
  ch_result_fits :: bool
  ch_sigterm :: "rat option"

definition child_blocked :: "child \<Rightarrow> bool" where
  "child_blocked c \<longleftrightarrow> ch_result c \<noteq> None \<and> \<not> ch_result_fits c"

definition is_alive :: "child \<Rightarrow> rat \<Rightarrow> bool" where
  "is_alive c now \<longleftrightarrow> child_blocked c \<or> (case ch_exit c of None \<Rightarrow> True | Some t \<Rightarrow> now < t)"

text \<open>The child after its result was read.\<close>

definition result_read :: "child \<Rightarrow> child" where
  "result_read c = c\<lparr>ch_result_fits := True\<rparr>"

definition exits_by :: "rat \<Rightarrow> child \<Rightarrow> child" where
  "exits_by t c =
     c\<lparr>ch_result_fits := True,
       ch_exit := Some (if child_blocked c then t
                        else case ch_exit c of None \<Rightarrow> t | Some e \<Rightarrow> min e t)\<rparr>"

text \<open>\<open>process.terminate()\<close> and \<open>process.kill()\<close> at a time.\<close>

definition terminate_child :: "rat \<Rightarrow> child \<Rightarrow> child" where
  "terminate_child now c = (case ch_sigterm c of None \<Rightarrow> c | Some d \<Rightarrow> exits_by (now + d) c)"

definition kill_child :: "rat \<Rightarrow> child \<Rightarrow> child" where
  "kill_child now c = exits_by now c"

text \<open>The time at which \<open>process.join(timeout)\<close> returns.\<close>

definition join_child :: "child \<Rightarrow> rat \<Rightarrow> rat \<Rightarrow> rat" where
  "join_child c now timeout =
     (if child_blocked c then now + timeout
      else case ch_exit c of None \<Rightarrow> now + timeout | Some t \<Rightarrow> max now (min t (now + timeout)))"

text \<open>\<open>queue.get(timeout=...)\<close>: the item, or nothing for \<open>queue.Empty\<close>; the rest; the time.\<close>

definition queue_get :: "(rat \<times> 'a) list \<Rightarrow> rat \<Rightarrow> rat \<Rightarrow> 'a option \<times> (rat \<times> 'a) list \<times> rat" where
  "queue_get q now timeout =
     (case q of
        [] \<Rightarrow> (None, [], now + timeout)
      | (t, x) # rest \<Rightarrow>
          if t \<le> now + timeout then (Some x, rest, max now t) else (None, q, now + timeout))"

lemma queue_get_None: "queue_get q now t = (None, q', now') \<Longrightarrow> q' = q \<and> now' = now + t"
  by (auto simp: queue_get_def split: list.splits prod.splits if_splits)

lemma queue_get_Some:
  "queue_get q now t = (Some x, q', now') \<Longrightarrow>
     \<exists>a. q = (a, x) # q' \<and> now' = max now a \<and> a \<le> now + t"
  by (auto simp: queue_get_def split: list.splits prod.splits if_splits)

definition poll_timeout :: "rat \<Rightarrow> rat" where
  "poll_timeout remaining = min (1 / 2) remaining"

section \<open>Waiting for the download\<close>

lemma ceiling_poll:
  assumes "now < (deadline :: rat)"
  shows "nat \<lceil>2 * (deadline - (now + poll_timeout (deadline - now)))\<rceil> < nat \<lceil>2 * (deadline - now)\<rceil>"
proof (cases "deadline - now \<le> 1 / 2")
  case True
  then have "poll_timeout (deadline - now) = deadline - now" by (simp add: poll_timeout_def)
  moreover have "0 < \<lceil>2 * (deadline - now)\<rceil>" using assms by simp
  ultimately show ?thesis by simp
next
  case False
  then have "2 * (deadline - (now + poll_timeout (deadline - now))) = 2 * (deadline - now) - 1"
    by (simp add: poll_timeout_def min_def algebra_simps)
  then have "\<lceil>2 * (deadline - (now + poll_timeout (deadline - now)))\<rceil> = \<lceil>2 * (deadline - now)\<rceil> - 1"
    by (simp only: ceiling_diff_one)
  moreover have "0 < \<lceil>2 * (deadline - now)\<rceil>" using assms by simp
  ultimately show ?thesis by linarith
qed

lemma ceiling_later:
  "now \<le> (later :: rat) \<Longrightarrow> nat \<lceil>2 * (deadline - later)\<rceil> \<le> nat \<lceil>2 * (deadline - now)\<rceil>"
  by (intro nat_mono ceiling_mono) simp

text \<open>
  The loop of \<open>_wait_and_drain_progress\<close>: the items it hands to the sink and when it is left.
  Every round takes an item or waits at least half a second or up to the deadline, so it ends
  whatever the child does.
\<close>

function drain_loop :: "child \<Rightarrow> rat \<Rightarrow> rat \<Rightarrow> (rat \<times> py_dict) list \<Rightarrow> py_dict list \<times> rat" where
  "drain_loop c deadline now q =
     (if \<not> is_alive c now then ([], now)
      else if deadline - now \<le> 0 then ([], now)
      else (case queue_get q now (poll_timeout (deadline - now)) of
              (None, q', now') \<Rightarrow> drain_loop c deadline now' q'
            | (Some raw, q', now') \<Rightarrow>
                (case drain_loop c deadline now' q' of (raws, t) \<Rightarrow> (raw # raws, t))))"
  by pat_completeness auto
termination
proof (relation "measure (\<lambda>(c, deadline, now, q). length q + nat \<lceil>2 * (deadline - now)\<rceil>)",
    goal_cases)
  case (2 c deadline now q x y q' now')
  have "queue_get q now (poll_timeout (deadline - now)) = (None, q', now')" using 2 by simp
  then have "q' = q" "now' = now + poll_timeout (deadline - now)" by (auto dest: queue_get_None)
  then show ?case using ceiling_poll [of now deadline] 2 by simp
next
  case (3 c deadline now q x y raw q' now')
  have "queue_get q now (poll_timeout (deadline - now)) = (Some raw, q', now')" using 3 by simp
  then have "length q' < length q" "now \<le> now'" by (auto dest: queue_get_Some)
  then show ?case using ceiling_later [of now now' deadline] by simp
qed simp

declare drain_loop.simps [simp del]

record waited =
  wait_result :: "exn + unit"
  wait_items :: "py_dict list"
  wait_until :: rat
  wait_child :: child

definition wait_and_drain_progress :: "child \<Rightarrow> rat \<Rightarrow> int \<Rightarrow> waited" where
  "wait_and_drain_progress c start timeout_seconds =
     (case drain_loop c (start + of_int timeout_seconds) start (ch_progress c) of
        (items, now) \<Rightarrow>
          if is_alive c now
          then (let c' = terminate_child now c
                in \<lparr>wait_result = Inl (DownloadTimeoutInternal ''download exceeded the time limit''),
                    wait_items = items, wait_until = join_child c' now 5, wait_child = c'\<rparr>)
          else \<lparr>wait_result = Inr (), wait_items = items, wait_until = now, wait_child = c\<rparr>)"

section \<open>Results\<close>

text \<open>Absolute paths as text, and back.\<close>

definition path_str :: "path \<Rightarrow> string" where
  "path_str p = concat (map (\<lambda>part. CHR ''/'' # part) p)"

definition path_of_str :: "string \<Rightarrow> path" where
  "path_of_str s = filter (\<lambda>part. part \<noteq> [] \<and> part \<noteq> ''.'') (split_on (CHR ''/'') s)"

text \<open>
  The typed reading of a JSON value: a value of another type (yt-dlp reports none) is
  outside the model and reads as absent.
\<close>

definition as_opt_int :: "pyval \<Rightarrow> int option" where
  "as_opt_int v = (case v of PInt i \<Rightarrow> Some i | _ \<Rightarrow> None)"

definition as_opt_str :: "pyval \<Rightarrow> string option" where
  "as_opt_str v = (case v of PStr s \<Rightarrow> Some s | _ \<Rightarrow> None)"

definition as_number :: "pyval \<Rightarrow> number option" where
  "as_number v = (case v of PInt i \<Rightarrow> Some (IntN i) | PFloat q \<Rightarrow> Some (FloatN q) | _ \<Rightarrow> None)"

definition parse_result :: "payload \<Rightarrow> exn + download_result" where
  "parse_result p =
     (case json_loads p of
        Inl e \<Rightarrow> Inl e
      | Inr (PDict facts) \<Rightarrow>
          (case map_of facts ''path'' of
             None \<Rightarrow> Inl KeyError
           | Some (PStr s) \<Rightarrow>
               Inr \<lparr>result_path = path_of_str s, result_width = as_opt_int (get_key facts ''width''),
                    result_height = as_opt_int (get_key facts ''height''),
                    result_duration = as_opt_int (get_key facts ''duration_seconds''),
                    result_title = as_opt_str (get_key facts ''title''),
                    result_uploader = as_opt_str (get_key facts ''uploader'')\<rparr>
           | Some _ \<Rightarrow> Inl TypeError)
      | Inr _ \<Rightarrow> Inl TypeError)"

text \<open>\<open>a, b = payload.split(":", 1)\<close> and the two \<open>int\<close>s.\<close>

definition parse_too_large :: "payload \<Rightarrow> exn" where
  "parse_too_large p =
     (case p of
        Text s \<Rightarrow>
          (case partition_at (CHR '':'') s of (a, found, b) \<Rightarrow>
             if \<not> found then ValueError ''not enough values to unpack''
             else (case (py_int (PStr a), py_int (PStr b)) of
                     (Inr estimated, Inr limit) \<Rightarrow> FileTooLargeInternal estimated limit
                   | _ \<Rightarrow> ValueError ''invalid literal for int()''))
      | _ \<Rightarrow> AttributeError)"

definition payload_text :: "payload \<Rightarrow> string" where
  "payload_text p = (case p of Text s \<Rightarrow> s | _ \<Rightarrow> [])"

definition read_download_result :: "child_msg \<Rightarrow> exn + download_result" where
  "read_download_result msg =
     (case msg of (status, p) \<Rightarrow>
        if status = ''too_large'' then Inl (parse_too_large p)
        else if status = ''extract_error'' then Inl (DownloadExtractInternal (payload_text p))
        else if status = ''error'' then Inl (DownloadProcessInternal (payload_text p))
        else parse_result p)"

text \<open>
  \<open>_run_download_in_process\<close>: its outcome, what it hands to the sink (\<open>None\<close> is the stop
  marker its \<open>finally\<close> sends), and when it returns.
\<close>

definition run_download_in_process ::
    "child \<Rightarrow> int \<Rightarrow> (exn + download_result) \<times> py_dict option list \<times> rat" where
  "run_download_in_process c timeout_seconds =
     (let w = wait_and_drain_progress c 0 timeout_seconds;
          sunk = map Some (wait_items w) @ [None];
          died = Inl (DownloadProcessInternal ''the download process crashed'')
      in (case wait_result w of
            Inl e \<Rightarrow> Inl e
          | Inr _ \<Rightarrow>
              (case ch_result c of
                 None \<Rightarrow> died
               | Some (t, msg) \<Rightarrow> if t \<le> wait_until w then read_download_result msg else died),
          sunk, wait_until w))"

section \<open>The preview child\<close>

text \<open>\<open>_stop_process\<close>: the time when it returns and the child then.\<close>

definition stop_process :: "child \<Rightarrow> rat \<Rightarrow> child \<times> rat" where
  "stop_process c now =
     (let c1 = terminate_child now c; t1 = join_child c1 now 5
      in if is_alive c1 t1 then (kill_child t1 c1, t1) else (c1, t1))"

definition reap_preview :: "child_msg \<Rightarrow> child \<Rightarrow> rat \<Rightarrow> (exn + child_msg) \<times> child \<times> rat" where
  "reap_preview item c now =
     (let c = result_read c; t = join_child c now 5
      in if is_alive c t then (case stop_process c t of (c', t') \<Rightarrow> (Inr item, c', t'))
         else (Inr item, c, t))"

function collect_loop ::
    "child \<Rightarrow> rat \<Rightarrow> rat \<Rightarrow> (rat \<times> child_msg) list \<Rightarrow> (exn + child_msg) \<times> child \<times> rat" where
  "collect_loop c deadline now q =
     (if deadline - now \<le> 0
      then (case stop_process c now of (c', t) \<Rightarrow>
              (Inl (PreviewTimeoutInternal ''preview exceeded the time limit''), c', t))
      else (case queue_get q now (poll_timeout (deadline - now)) of
              (Some item, _, now') \<Rightarrow> reap_preview item c now'
            | (None, q', now') \<Rightarrow>
                if is_alive c now' then collect_loop c deadline now' q'
                else (case queue_get q' now' (1 / 10) of
                        (Some item, _, now'') \<Rightarrow> reap_preview item c now''
                      | (None, _, now'') \<Rightarrow>
                          (Inl (DownloadProcessInternal ''the preview process ended without a result''),
                           c, now''))))"
  by pat_completeness auto
termination
proof (relation "measure (\<lambda>(c, deadline, now, q). nat \<lceil>2 * (deadline - now)\<rceil>)", goal_cases)
  case (2 c deadline now q x y q' now')
  have "queue_get q now (poll_timeout (deadline - now)) = (None, q', now')" using 2 by simp
  then have "now' = now + poll_timeout (deadline - now)" by (auto dest: queue_get_None)
  then show ?case using ceiling_poll [of now deadline] 2 by simp
qed simp

declare collect_loop.simps [simp del]

definition collect_preview_result :: "child \<Rightarrow> rat \<Rightarrow> int \<Rightarrow> (exn + child_msg) \<times> child \<times> rat" where
  "collect_preview_result c start timeout_seconds =
     collect_loop c (start + of_int timeout_seconds) start
       (case ch_result c of None \<Rightarrow> [] | Some item \<Rightarrow> [item])"

text \<open>\<open>_run_preview_in_process\<close>: the facts, or nothing when yt-dlp found nothing.\<close>

definition run_preview_in_process :: "child \<Rightarrow> int \<Rightarrow> exn + pyval" where
  "run_preview_in_process c timeout_seconds =
     (case collect_preview_result c 0 timeout_seconds of
        (Inl e, _) \<Rightarrow> Inl e
      | (Inr (status, p), _) \<Rightarrow>
          if status = ''extract_error'' then Inl (DownloadExtractInternal (payload_text p))
          else if status = ''error'' then Inl (DownloadProcessInternal (payload_text p))
          else Inr (case p of PyObj v \<Rightarrow> v | _ \<Rightarrow> PNone))"

section \<open>Progress\<close>

definition build_download_progress :: "py_dict \<Rightarrow> exn + download_progress" where
  "build_download_progress raw =
     (if get_key raw ''phase'' = PStr (phase_value CONVERTING) then Inr (phase_marker CONVERTING)
      else
        (case py_int (py_or (get_key raw ''downloaded_bytes'') (PInt 0)) of
           Inl e \<Rightarrow> Inl e
         | Inr downloaded \<Rightarrow>
        (case (let v = get_key raw ''total_bytes''
               in if v = PNone then Inr None
                  else case py_int v of Inl e \<Rightarrow> Inl e | Inr n \<Rightarrow> Inr (Some n)) of
           Inl e \<Rightarrow> Inl e
         | Inr total_bytes \<Rightarrow>
        (case (let v = get_key raw ''speed''
               in if v = PNone then Inr None
                  else case py_float v of Inl e \<Rightarrow> Inl e | Inr q \<Rightarrow> Inr (Some q)) of
           Inl e \<Rightarrow> Inl e
         | Inr speed \<Rightarrow>
        (case (let v = get_key raw ''eta''
               in if v = PNone then Inr None
                  else case py_int v of Inl e \<Rightarrow> Inl e | Inr n \<Rightarrow> Inr (Some n)) of
           Inl e \<Rightarrow> Inl e
         | Inr eta \<Rightarrow>
             Inr \<lparr>progress_percent =
                    (case total_bytes of None \<Rightarrow> None
                     | Some n \<Rightarrow> if n = 0 then None else Some (of_int downloaded / of_int n * 100)),
                  progress_downloaded = downloaded, progress_total = total_bytes,
                  progress_speed = speed, progress_eta = eta,
                  progress_phase_of = DOWNLOADING\<rparr>)))))"

type_synonym 'w progress_callback = "download_progress \<Rightarrow> ('w, exn, unit) io"

text \<open>
  \<open>_drain_bridge\<close> over everything the bridge will ever hold.  The sink's last item is the stop
  marker, so the end of the list is never reached before it.
\<close>

fun drain_bridge :: "py_dict option list \<Rightarrow> 'w progress_callback \<Rightarrow> ('w, exn, unit) io" where
  "drain_bridge [] cb = retE ()"
| "drain_bridge (None # _) cb = retE ()"
| "drain_bridge (Some raw # rest) cb =
     bindE (liftE (build_download_progress raw)) (\<lambda>p. thenE (cb p) (drain_bridge rest cb))"

section \<open>YtDlpDownloader\<close>

text \<open>What the two \<open>except\<close> chains raise instead.\<close>

fun translate_download_error :: "string \<Rightarrow> exn \<Rightarrow> exn" where
  "translate_download_error url (DownloadTimeoutInternal _) = DownloadTimeoutError"
| "translate_download_error url (FileTooLargeInternal estimated limit) = FileTooLargeError estimated limit"
| "translate_download_error url (DownloadExtractInternal m) = classify_error m url"
| "translate_download_error url (DownloadProcessInternal _) = ExtractionError"
| "translate_download_error url e = e"

fun translate_preview_error :: "string \<Rightarrow> exn \<Rightarrow> exn" where
  "translate_preview_error url (PreviewTimeoutInternal _) = PreviewTimeoutError"
| "translate_preview_error url (DownloadExtractInternal m) = classify_error m url"
| "translate_preview_error url (DownloadProcessInternal _) = ExtractionError"
| "translate_preview_error url e = e"

text \<open>The preview's child for a link is the argument \<open>spawn\<close>.\<close>

definition get_preview :: "(string \<Rightarrow> child) \<Rightarrow> int \<Rightarrow> string \<Rightarrow> exn + media_preview" where
  "get_preview spawn preview_timeout_seconds url =
     (case run_preview_in_process (spawn url) preview_timeout_seconds of
        Inl e \<Rightarrow> Inl (translate_preview_error url e)
      | Inr (PDict facts) \<Rightarrow>
          (case media_type_of (str_or_empty (as_opt_str (get_key facts ''media_type''))) of
             Inl e \<Rightarrow> Inl e
           | Inr mt \<Rightarrow>
               Inr \<lparr>preview_source_url = url,
                    preview_title = (case as_opt_str (get_key facts ''title'') of
                                       Some (c # cs) \<Rightarrow> c # cs | _ \<Rightarrow> ''Untitled''),
                    preview_duration = as_number (get_key facts ''duration''),
                    preview_uploader = as_opt_str (get_key facts ''uploader''),
                    thumbnail_url = as_opt_str (get_key facts ''thumbnail''),
                    preview_media_type = mt,
                    preview_extractor_key = str_or_empty (as_opt_str (get_key facts ''extractor_key'')),
                    preview_max_side = as_opt_int (get_key facts ''max_compatible_short_side'')\<rparr>)
      | Inr _ \<Rightarrow> Inl ExtractionError)"

text \<open>
  \<open>download\<close>.  \<open>mkdir\<close> creates the output directory; \<open>spawn\<close> gives the child for the arguments
  the parent passes.  The drain task runs beside the executor thread, which does nothing
  the callbacks can see, so its effects are those of running it in the \<open>finally\<close>, where it
  is awaited: an exception of a callback replaces the download's outcome.
\<close>

type_synonym spawn_download =
  "string \<Rightarrow> string \<Rightarrow> int option \<Rightarrow> string \<Rightarrow> string option \<Rightarrow> child"

definition ytdlp_download ::
    "(path \<Rightarrow> ('w, exn, unit) io) \<Rightarrow> spawn_download \<Rightarrow> string \<Rightarrow> download_options \<Rightarrow>
     'w progress_callback option \<Rightarrow> ('w, exn, download_result) io" where
  "ytdlp_download mkdir spawn url options progress_callback =
     thenE (mkdir (options_output_dir options))
       (let c = spawn url (path_str (options_output_dir options)) (options_max_filesize options)
                  (format_kind_value (spec_kind (options_spec options)))
                  (video_tier_value (options_spec options))
        in case run_download_in_process c (options_timeout options) of
             (outcome, sunk, _) \<Rightarrow>
               finallyE
                 (case outcome of
                    Inl e \<Rightarrow> raiseE (translate_download_error url e)
                  | Inr result \<Rightarrow> retE result)
                 (case progress_callback of None \<Rightarrow> retE () | Some cb \<Rightarrow> drain_bridge sunk cb))"

section \<open>Spawned children\<close>

text \<open>
  The child processes of the two entrypoints: what they put on the queues is what the
  entrypoints of \<open>Downloader\<close> compute; when, is the timing.
\<close>

record timing =
  tm_exit :: "rat option"
  tm_result :: rat
  tm_progress :: "nat \<Rightarrow> rat"
  tm_fits :: bool
  tm_sigterm :: "rat option"

definition spawn_download_child :: "ytdl \<Rightarrow> timing \<Rightarrow> spawn_download" where
  "spawn_download_child y tm url output_dir max_filesize_bytes kind_value tier =
     (case download_worker_entrypoint y url output_dir max_filesize_bytes kind_value tier of
        (msg, progress) \<Rightarrow>
          \<lparr>ch_exit = tm_exit tm, ch_exit_code = 0,
           ch_progress = map (\<lambda>i. (tm_progress tm i, progress ! i)) [0..<length progress],
           ch_result = Some (tm_result tm, msg), ch_result_fits = tm_fits tm,
           ch_sigterm = tm_sigterm tm\<rparr>)"

definition spawn_preview_child ::
    "(py_dict \<Rightarrow> string \<Rightarrow> exn + py_dict option) \<Rightarrow> (pyval \<Rightarrow> string) \<Rightarrow> timing \<Rightarrow> string \<Rightarrow> child" where
  "spawn_preview_child extract_info repr_of tm url =
     \<lparr>ch_exit = tm_exit tm, ch_exit_code = 0, ch_progress = [],
      ch_result = Some (tm_result tm, preview_worker_entrypoint extract_info repr_of url),
      ch_result_fits = tm_fits tm, ch_sigterm = tm_sigterm tm\<rparr>"

end
