(* ===== verification/DownloadFacts.thy ===== *)
theory DownloadFacts
  imports DownloadRun
begin

text \<open>
  What \<open>YtDlpDownloader\<close> guarantees: the waits are bounded, the progress stream is a prefix
  of what the child sent and is always closed, every failure of the child becomes an exception
  the callers catch, and the format options follow the requested spec.
\<close>

section \<open>The waiting loops\<close>

lemma poll_timeout_le: "poll_timeout r \<le> r"
  by (simp add: poll_timeout_def)

lemma poll_timeout_nonneg: "0 \<le> r \<Longrightarrow> 0 \<le> poll_timeout r"
  by (simp add: poll_timeout_def)

lemma drain_loop_stop:
  "\<not> is_alive c now \<or> deadline - now \<le> 0 \<Longrightarrow> drain_loop c deadline now q = ([], now)"
  by (subst drain_loop.simps) simp

lemma drain_loop_empty:
  "is_alive c now \<Longrightarrow> \<not> deadline - now \<le> 0 \<Longrightarrow>
     queue_get q now (poll_timeout (deadline - now)) = (None, q', now') \<Longrightarrow>
     drain_loop c deadline now q = drain_loop c deadline now' q'"
  by (subst drain_loop.simps) simp

lemma drain_loop_item:
  "is_alive c now \<Longrightarrow> \<not> deadline - now \<le> 0 \<Longrightarrow>
     queue_get q now (poll_timeout (deadline - now)) = (Some raw, q', now') \<Longrightarrow>
     drain_loop c deadline now q = (case drain_loop c deadline now' q' of (raws, t) \<Rightarrow> (raw # raws, t))"
  by (subst drain_loop.simps) simp

lemma collect_loop_timeout:
  "deadline - now \<le> 0 \<Longrightarrow> collect_loop c deadline now q =
     (case stop_process c now of (c', t) \<Rightarrow>
        (Inl (PreviewTimeoutInternal ''preview exceeded the time limit''), c', t))"
  by (subst collect_loop.simps) simp

lemma collect_loop_item:
  "\<not> deadline - now \<le> 0 \<Longrightarrow>
     queue_get q now (poll_timeout (deadline - now)) = (Some item, q', now') \<Longrightarrow>
     collect_loop c deadline now q = reap_preview item c now'"
  by (subst collect_loop.simps) simp

lemma collect_loop_empty:
  "\<not> deadline - now \<le> 0 \<Longrightarrow>
     queue_get q now (poll_timeout (deadline - now)) = (None, q', now') \<Longrightarrow>
     collect_loop c deadline now q =
       (if is_alive c now' then collect_loop c deadline now' q'
        else (case queue_get q' now' (1 / 10) of
                (Some item, _, now'') \<Rightarrow> reap_preview item c now''
              | (None, _, now'') \<Rightarrow>
                  (Inl (DownloadProcessInternal ''the preview process ended without a result''), c, now'')))"
  by (subst collect_loop.simps) simp

lemma drain_loop_spec:
  "drain_loop c deadline now q = (items, t) \<Longrightarrow>
     now \<le> t \<and> t \<le> max now deadline \<and> prefix items (map snd q) \<and> (is_alive c t \<longrightarrow> deadline \<le> t)"
proof (induction c deadline now q arbitrary: items t rule: drain_loop.induct)
  case (1 c deadline now q)
  show ?case
  proof (cases "\<not> is_alive c now \<or> deadline - now \<le> 0")
    case True
    then show ?thesis using 1(3) drain_loop_stop [OF True, of q] by auto
  next
    case False
    obtain x q' now' where g: "queue_get q now (poll_timeout (deadline - now)) = (x, q', now')"
      by (metis prod_cases3)
    have le: "poll_timeout (deadline - now) \<le> deadline - now" "0 \<le> poll_timeout (deadline - now)"
      using False poll_timeout_nonneg by (auto simp: poll_timeout_le)
    show ?thesis
    proof (cases x)
      case None
      have n: "q' = q" "now' = now + poll_timeout (deadline - now)"
        using g None by (auto dest: queue_get_None)
      have "drain_loop c deadline now' q' = (items, t)"
        using 1(3) False g None drain_loop_empty [of c now deadline q q' now'] by simp
      then have "now' \<le> t \<and> t \<le> max now' deadline \<and> prefix items (map snd q') \<and>
          (is_alive c t \<longrightarrow> deadline \<le> t)"
        using 1(1) [of x "(q', now')" q' now'] False g None by auto
      then show ?thesis using n le by auto
    next
      case (Some raw)
      obtain a where a: "q = (a, raw) # q'" "now' = max now a" "a \<le> now + poll_timeout (deadline - now)"
        using g Some by (auto dest: queue_get_Some)
      obtain raws t' where r: "drain_loop c deadline now' q' = (raws, t')" by fastforce
      then have out: "items = raw # raws" "t' = t"
        using 1(3) False g Some r drain_loop_item [of c now deadline q raw q' now'] by auto
      have "now' \<le> t \<and> t \<le> max now' deadline \<and> prefix raws (map snd q') \<and>
          (is_alive c t \<longrightarrow> deadline \<le> t)"
        using 1(2) [of x "(q', now')" raw q' now'] False g Some r out by auto
      then show ?thesis using a out le by auto
    qed
  qed
qed

lemma join_child_le: "0 \<le> d \<Longrightarrow> now \<le> join_child c now d \<and> join_child c now d \<le> now + d"
  by (auto simp: join_child_def split: option.split)

lemma is_alive_exits_by: "\<not> is_alive (exits_by t c) t"
  by (auto simp: is_alive_def exits_by_def child_blocked_def split: option.splits)

lemma is_alive_later: "\<not> is_alive c t \<Longrightarrow> t \<le> t' \<Longrightarrow> \<not> is_alive c t'"
  by (auto simp: is_alive_def split: option.splits)

lemma stop_process_spec:
  "stop_process c now = (c', t) \<Longrightarrow> now \<le> t \<and> t \<le> now + 5 \<and> \<not> is_alive c' t"
  using join_child_le [of 5 now "terminate_child now c"] is_alive_exits_by
  by (auto simp: stop_process_def Let_def kill_child_def split: if_splits)

lemma reap_preview_spec:
  assumes "reap_preview item c now = (r, c', t)"
  shows "r = Inr item \<and> now \<le> t \<and> t \<le> now + 10 \<and> \<not> is_alive c' t"
proof -
  let ?c = "result_read c" and ?t = "join_child (result_read c) now 5"
  have j: "now \<le> ?t" "?t \<le> now + 5" using join_child_le [of 5 now ?c] by auto
  show ?thesis
  proof (cases "is_alive ?c ?t")
    case True
    then show ?thesis
      using assms j stop_process_spec [of ?c ?t]
      by (auto simp: reap_preview_def Let_def split: prod.splits)
  next
    case False
    then show ?thesis using assms j by (auto simp: reap_preview_def Let_def)
  qed
qed

lemma reap_preview_exited:
  assumes "reap_preview item c now = (r, c', t)" and "\<not> is_alive c now"
  shows "r = Inr item \<and> t = now \<and> \<not> is_alive c' t"
proof -
  have "\<not> child_blocked c" "\<exists>e. ch_exit c = Some e \<and> e \<le> now"
    using assms(2) by (auto simp: is_alive_def not_less split: option.splits)
  then show ?thesis
    using assms(1) by (auto simp: reap_preview_def result_read_def Let_def join_child_def is_alive_def
        child_blocked_def split: if_splits prod.splits)
qed

lemma collect_loop_spec:
  "collect_loop c deadline now q = (r, c', t) \<Longrightarrow> now \<le> deadline \<Longrightarrow>
     t \<le> deadline + 10 \<and> \<not> is_alive c' t \<and> (\<forall>item. r = Inr item \<longrightarrow> item \<in> snd ` set q) \<and>
     (\<forall>e. r = Inl e \<longrightarrow> (\<exists>m. e = PreviewTimeoutInternal m \<or> e = DownloadProcessInternal m))"
proof (induction c deadline now q arbitrary: r c' t rule: collect_loop.induct)
  case (1 c deadline now q)
  show ?case
  proof (cases "deadline - now \<le> 0")
    case True
    obtain c1 t1 where st: "stop_process c now = (c1, t1)" by fastforce
    show ?thesis
      using 1(2,3) stop_process_spec [OF st] collect_loop_timeout [OF True, of c q] st True by auto
  next
    case False
    obtain x q' now' where g: "queue_get q now (poll_timeout (deadline - now)) = (x, q', now')"
      by (metis prod_cases3)
    have le: "poll_timeout (deadline - now) \<le> deadline - now" "0 \<le> poll_timeout (deadline - now)"
      using False poll_timeout_nonneg by (auto simp: poll_timeout_le)
    show ?thesis
    proof (cases x)
      case (Some item)
      have "reap_preview item c now' = (r, c', t)"
        using 1(2) collect_loop_item [of deadline now q item q' now' c] False g Some by simp
      moreover have "item \<in> snd ` set q" "now' \<le> deadline"
        using queue_get_Some [of q now _ item q' now'] g Some le 1(3) by force+
      ultimately show ?thesis using reap_preview_spec [of item c now' r c' t] by auto
    next
      case None
      have n: "q' = q" "now' = now + poll_timeout (deadline - now)"
        using g None by (auto dest: queue_get_None)
      show ?thesis
      proof (cases "is_alive c now'")
        case True
        then have "collect_loop c deadline now' q' = (r, c', t)"
          using 1(2) collect_loop_empty [of deadline now q q' now' c] False g None by simp
        then show ?thesis
          using 1(1) [of x "(q', now')" q' now'] False g None True n le by auto
      next
        case dead: False
        obtain y q'' now'' where g2: "queue_get q' now' (1 / 10) = (y, q'', now'')"
          by (metis prod_cases3)
        show ?thesis
        proof (cases y)
          case (Some item)
          have r: "reap_preview item c now'' = (r, c', t)"
            using 1(2) collect_loop_empty [of deadline now q q' now' c] False g None g2 Some dead by simp
          obtain a where "q' = (a, item) # q''" "now'' = max now' a" "a \<le> now' + 1 / 10"
            using g2 Some by (auto dest: queue_get_Some)
          then show ?thesis
            using reap_preview_exited [OF r] is_alive_later [OF dead] n le by auto
        next
          case None2: None
          have "r = Inl (DownloadProcessInternal ''the preview process ended without a result'')"
            "c' = c" "t = now''"
            using 1(2) collect_loop_empty [of deadline now q q' now' c] False g None g2 None2 dead by auto
          then show ?thesis
            using queue_get_None [of q' now' "1 / 10" q'' now''] g2 None2 is_alive_later [OF dead] n le
            by auto
        qed
      qed
    qed
  qed
qed

section \<open>Properties\<close>


definition example_child :: child where
  "example_child = \<lparr>ch_exit = None, ch_exit_code = 0, ch_progress = [], ch_result = None,
     ch_result_fits = True, ch_sigterm = Some 1\<rparr>"


text \<open>Collecting a preview always ends, at most ten seconds after its time limit, and never
  leaves the child running; it answers with the item the child put or fails with one of the two
  internal exceptions \<open>get_preview\<close> translates.\<close>

theorem collect_preview_bounded:
  assumes "0 \<le> timeout_seconds" and "collect_preview_result c start timeout_seconds = (r, c', t)"
  shows "t \<le> start + of_int timeout_seconds + 10 \<and> \<not> is_alive c' t \<and>
     (case r of
        Inr item \<Rightarrow> \<exists>a. ch_result c = Some (a, item)
      | Inl e \<Rightarrow> \<exists>m. e = PreviewTimeoutInternal m \<or> e = DownloadProcessInternal m)"
  using collect_loop_spec [of c "start + of_int timeout_seconds" start
      "case ch_result c of None \<Rightarrow> [] | Some item \<Rightarrow> [item]" r c' t] assms
  by (force simp: collect_preview_result_def split: sum.splits option.splits)

theorem collect_preview_bounded_witness:
  "snd (snd (collect_preview_result example_child 0 3)) \<le> 13"
proof -
  obtain r c' t where "collect_preview_result example_child 0 3 = (r, c', t)"
    by (metis prod_cases3)
  then show ?thesis
    using collect_preview_bounded [of 3 example_child 0 r c' t] by simp
qed


section \<open>Outcomes of a download\<close>

text \<open>What a child started by the parent reports is read back without a surprise.\<close>

fun caught_internal :: "exn \<Rightarrow> bool" where
  "caught_internal (DownloadTimeoutInternal _) = True"
| "caught_internal (DownloadProcessInternal _) = True"
| "caught_internal (DownloadExtractInternal _) = True"
| "caught_internal (FileTooLargeInternal _ _) = True"
| "caught_internal _ = False"

lemma partition_too_large:
  "partition_at (CHR '':'') (show_int a @ CHR '':'' # show_int b) = (show_int a, True, show_int b)"
  by (rule partition_at_found) (rule show_int_no_colon)

lemma read_too_large:
  "read_download_result (child_report (Inl (FileTooLargeInternal a b))) = Inl (FileTooLargeInternal a b)"
  by (simp add: read_download_result_def parse_too_large_def partition_too_large)

lemma child_report_error:
  "\<exists>m. child_report (Inl e) = (''too_large'', m) \<and> (\<exists>a b. e = FileTooLargeInternal a b) \<or>
       child_report (Inl e) = (''extract_error'', Text (exn_str e)) \<or>
       child_report (Inl e) = (''error'', Text (exn_str e))"
  by (cases e) auto

lemma read_child_error:
  "\<exists>e'. read_download_result (child_report (Inl e)) = Inl e' \<and> caught_internal e'"
proof (cases "\<exists>a b. e = FileTooLargeInternal a b")
  case True
  then show ?thesis using read_too_large by fastforce
next
  case False
  then show ?thesis using child_report_error [of e] by (auto simp: read_download_result_def)
qed

lemma media_facts_shape:
  "media_facts y info filename kind = Inr v \<Longrightarrow>
     \<exists>w h d t u. v = PDict [(''path'', PStr filename), (''width'', opt_int w), (''height'', opt_int h),
        (''duration_seconds'', opt_int d), (''title'', t), (''uploader'', u)] \<and>
       (kind = AUDIO \<longrightarrow> w = None \<and> h = None)"
  by (auto simp: media_facts_def Let_def split: if_splits sum.splits)

lemma as_opt_int_opt_int [simp]: "as_opt_int (opt_int i) = i"
  by (cases i) (simp_all add: as_opt_int_def opt_int_def)

lemma read_child_ok:
  assumes "finish_download y dir kind info files = Inr p"
  shows "\<exists>filename r. yd_isfile y filename \<and> read_download_result (child_report (Inr p)) = Inr r \<and>
     result_path r = path_of_str filename \<and>
     (files \<noteq> [] \<longrightarrow> filename = last files) \<and>
     (kind = AUDIO \<longrightarrow> result_width r = None \<and> result_height r = None)"
proof -
  obtain filename facts where f: "yd_isfile y filename" "media_facts y info filename kind = Inr facts"
      "json_dumps facts = Inr p" "files \<noteq> [] \<longrightarrow> filename = last files"
    using assms by (auto simp: finish_download_def split: sum.splits if_splits)
  obtain w h d t u where v: "facts = PDict [(''path'', PStr filename), (''width'', opt_int w),
        (''height'', opt_int h), (''duration_seconds'', opt_int d), (''title'', t), (''uploader'', u)]"
      "kind = AUDIO \<longrightarrow> w = None \<and> h = None"
    using media_facts_shape [OF f(2)] by blast
  have p: "p = JsonText facts" using f(3) by (auto simp: json_dumps_def split: if_splits)
  show ?thesis
    using f v p
    by (auto simp: read_download_result_def parse_result_def json_loads_def get_key_def)
qed

text \<open>Every way a download child of this program can end.\<close>

lemma download_child_outcome:
  assumes "fst (run_download_in_process (spawn_download_child y tm url dir limit k t) timeout) = Inl e"
  shows "caught_internal e"
proof -
  let ?c = "spawn_download_child y tm url dir limit k t"
  obtain res prog where b: "download_child_body y url dir limit k t = (res, prog)" by fastforce
  have r: "ch_result ?c = Some (tm_result tm, child_report res)"
    by (simp add: spawn_download_child_def download_worker_entrypoint_def b)
  have w: "\<exists>m. wait_result (wait_and_drain_progress c 0 n) = Inl (DownloadTimeoutInternal m) \<or>
      wait_result (wait_and_drain_progress c 0 n) = Inr ()" for c n
    by (auto simp: wait_and_drain_progress_def Let_def split: prod.split)
  have "caught_internal e'" if "read_download_result (child_report res) = Inl e'" for e'
  proof (cases res)
    case (Inl x)
    then show ?thesis using read_child_error [of x] that by auto
  next
    case (Inr p)
    then obtain info files kind where "finish_download y dir kind info files = Inr p"
      using b by (auto simp: download_child_body_def Let_def split: sum.splits prod.splits)
    then show ?thesis using read_child_ok that Inr by fastforce
  qed
  then show ?thesis
    using assms r w [of ?c timeout]
    by (auto simp: run_download_in_process_def Let_def split: sum.splits if_splits)
qed

lemma translated_caught:
  "caught_internal e \<Longrightarrow> is_extraction_error (translate_download_error url e) \<or>
     is_unsupported_url_error (translate_download_error url e)"
  using classified_handled [OF classify_error_mem] by (cases e) auto



text \<open>A small yt-dlp for the witnesses: a 10 MB video with two progress reports.\<close>

definition example_info :: py_dict where
  "example_info = [(''title'', PStr ''A title''), (''width'', PInt 1280), (''height'', PInt 720),
     (''duration'', PFloat (121 / 2)), (''filesize'', PInt 10485760)]"

definition example_ytdl :: ytdl where
  "example_ytdl =
     \<lparr>yd_probe = (\<lambda>_ _. Inr (Some example_info)),
      yd_fetch = (\<lambda>_ _. (Inr (Some example_info),
        [[(''status'', PStr ''downloading''), (''downloaded_bytes'', PInt 5), (''total_bytes'', PInt 10)],
         [(''status'', PStr ''finished'')]], [''/d/x.mp4''])),
      yd_prepare_filename = (\<lambda>_. ''/d/x.webm''), yd_isfile = (\<lambda>f. f = ''/d/x.mp4''),
      yd_listdir = (\<lambda>_. Inr []), yd_ffprobe = (\<lambda>_. Inl (OSError [])), yd_repr = (\<lambda>_. [])\<rparr>"

definition example_timing :: timing where
  "example_timing = \<lparr>tm_exit = Some 5, tm_result = 5, tm_progress = (\<lambda>_. 1), tm_fits = True,
     tm_sigterm = Some 0\<rparr>"

definition example_options :: "int option \<Rightarrow> download_options" where
  "example_options limit = \<lparr>options_output_dir = [''d''], options_max_filesize = limit,
     options_timeout = 30, options_spec = VideoSpec P720\<rparr>"

lemmas example_download_defs = example_ytdl_def example_timing_def example_options_def example_info_def

text \<open>A child that exits within the limit with a result the pipe can hold is never timed out.\<close>

lemma timely_wait:
  assumes "\<not> child_blocked c" and "ch_exit c = Some e" and "e \<le> of_int timeout_seconds" and "0 \<le> e"
  shows "wait_result (wait_and_drain_progress c 0 timeout_seconds) = Inr () \<and>
     e \<le> wait_until (wait_and_drain_progress c 0 timeout_seconds)"
proof -
  obtain items now where l: "drain_loop c (of_int timeout_seconds) 0 (ch_progress c) = (items, now)"
    by fastforce
  have "\<not> is_alive c now"
    using drain_loop_spec [OF l] assms by (auto simp: is_alive_def)
  moreover from this have "e \<le> now" using assms by (simp add: is_alive_def)
  ultimately show ?thesis using l by (simp add: wait_and_drain_progress_def)
qed

lemma blocked_wait:
  assumes "child_blocked c"
  shows "\<exists>m. wait_result (wait_and_drain_progress c start timeout_seconds) = Inl (DownloadTimeoutInternal m)"
  using assms by (auto simp: wait_and_drain_progress_def Let_def is_alive_def split: prod.split)

text \<open>The outcome of a download whose drain does not fail, or does.\<close>

lemma ytdlp_download_eq:
  assumes "mkdir (options_output_dir options) w = (Inr (), w1)"
    and "run_download_in_process (spawn url (path_str (options_output_dir options))
           (options_max_filesize options) (format_kind_value (spec_kind (options_spec options)))
           (video_tier_value (options_spec options))) (options_timeout options) = (outcome, sunk, t)"
  shows "ytdlp_download mkdir spawn url options (Some cb) w =
     (case drain_bridge sunk cb w1 of
        (Inl e, w2) \<Rightarrow> (Inl e, w2)
      | (Inr _, w2) \<Rightarrow>
          (case outcome of Inl e \<Rightarrow> Inl (translate_download_error url e) | Inr r \<Rightarrow> Inr r, w2))"
  using assms
  by (auto simp: ytdlp_download_def Let_def thenE_def bindE_def finallyE_def raiseE_def retE_def
      split: prod.splits sum.splits)

lemma ytdlp_download_None_eq:
  assumes "mkdir (options_output_dir options) w = (Inr (), w1)"
    and "run_download_in_process (spawn url (path_str (options_output_dir options))
           (options_max_filesize options) (format_kind_value (spec_kind (options_spec options)))
           (video_tier_value (options_spec options))) (options_timeout options) = (outcome, sunk, t)"
  shows "ytdlp_download mkdir spawn url options None w =
     (case outcome of Inl e \<Rightarrow> Inl (translate_download_error url e) | Inr r \<Rightarrow> Inr r, w1)"
  using assms
  by (auto simp: ytdlp_download_def Let_def thenE_def bindE_def finallyE_def raiseE_def retE_def
      split: prod.splits sum.splits)


text \<open>C36: a download estimated above the delivery limit is refused before any byte is
  transferred: the outcome does not depend on the fetch, no progress is published, and the
  megabytes the user is told are the ones the child computed.\<close>

theorem oversize_refused_before_download:
  assumes "options_max_filesize options = Some limit" and "limit > 0"
    and "\<forall>opts. yd_probe y opts url = Inr info"
    and "estimate_total_filesize info = Inr (Some estimated)" and "limit < estimated"
    and "tm_fits tm" and "tm_exit tm = Some e" and "tm_result tm \<le> e" and "0 \<le> e"
    and "e \<le> of_int (options_timeout options)"
    and "mkdir (options_output_dir options) w = (Inr (), w1)"
  shows "ytdlp_download mkdir (spawn_download_child (y\<lparr>yd_fetch := fetch\<rparr>) tm) url options (Some cb) w
     = (Inl (FileTooLargeError (round_half_even (of_int estimated / (1024 * 1024))) (limit div (1024 * 1024))), w1)"
proof -
  let ?y = "y\<lparr>yd_fetch := fetch\<rparr>"
  let ?c = "spawn_download_child ?y tm url (path_str (options_output_dir options))
            (options_max_filesize options) (format_kind_value (spec_kind (options_spec options)))
            (video_tier_value (options_spec options))"
  let ?big = "FileTooLargeInternal (round_half_even (of_int estimated / (1024 * 1024))) (limit div (1024 * 1024))"
  have spec: "spec_from_parts (format_kind_value (spec_kind s)) (video_tier_value s) = Inr s" for s
    using spec_from_parts_stored [of s] by (simp add: video_tier_value_def spec_tier_value_def)
  have check: "size_check ?y opts url (options_max_filesize options) = Inl ?big" for opts
    using assms(1-5) by (simp add: size_check_def)
  have body: "download_child_body ?y url (path_str (options_output_dir options))
            (options_max_filesize options) (format_kind_value (spec_kind (options_spec options)))
            (video_tier_value (options_spec options)) = (Inl ?big, [])"
    by (simp add: download_child_body_def spec check)
  have c: "ch_result ?c = Some (tm_result tm, child_report (Inl ?big))" "ch_progress ?c = []"
    "ch_exit ?c = tm_exit tm" "ch_result_fits ?c = tm_fits tm"
    by (simp_all add: spawn_download_child_def download_worker_entrypoint_def body)
  have tw: "wait_result (wait_and_drain_progress ?c 0 (options_timeout options)) = Inr ()"
      "e \<le> wait_until (wait_and_drain_progress ?c 0 (options_timeout options))"
    using timely_wait [of ?c e "options_timeout options"] assms(6-10) c by (auto simp: child_blocked_def)
  have items: "wait_items (wait_and_drain_progress ?c 0 (options_timeout options)) = []"
  proof -
    obtain items now where l: "drain_loop ?c (0 + of_int (options_timeout options)) 0 (ch_progress ?c) = (items, now)"
      by fastforce
    then have "items = []" using drain_loop_spec [OF l] c by simp
    then show ?thesis using l by (simp add: wait_and_drain_progress_def Let_def)
  qed
  have "run_download_in_process ?c (options_timeout options) = (Inl ?big, [None],
      wait_until (wait_and_drain_progress ?c 0 (options_timeout options)))"
    using tw items c assms(8) read_too_large by (simp add: run_download_in_process_def Let_def del: child_report.simps)
  from ytdlp_download_eq [of mkdir options w w1 "spawn_download_child ?y tm" url, OF assms(11) this, of cb]
  show ?thesis by (simp add: retE_def)
qed

theorem oversize_refused_before_download_witness:
  "ytdlp_download (\<lambda>_. retE ()) (spawn_download_child (example_ytdl\<lparr>yd_fetch := \<lambda>_ _. (Inl KeyError, [], [])\<rparr>) example_timing)
     ''u'' (example_options (Some 5242880)) (Some (\<lambda>_. raiseE KeyError)) () = (Inl (FileTooLargeError 10 5), ())"
proof -
  have e: "estimate_total_filesize (Some example_info) = Inr (Some 10485760)" by code_simp
  have r: "round_half_even (of_int 10485760 / (1024 * 1024)) = 10" by code_simp
  show ?thesis
    using oversize_refused_before_download [of "example_options (Some 5242880)" 5242880 example_ytdl "''u''"
        "Some example_info" 10485760 example_timing 5 "\<lambda>_. retE ()" "()" "()"
        "\<lambda>_ _. (Inl KeyError, [], [])" "\<lambda>_. raiseE KeyError"]
      e r by (simp add: example_download_defs retE_def)
qed


text \<open>A child whose result does not fit into the pipe's buffer cannot exit, and the parent
  reads the result only after the child exited: such a download, successful or not, is always
  reported as a timeout, after the whole time limit.\<close>

theorem large_result_times_out:
  assumes "\<not> tm_fits tm" and "mkdir (options_output_dir options) w = (Inr (), w1)"
  shows "ytdlp_download mkdir (spawn_download_child y tm) url options None w
           = (Inl DownloadTimeoutError, w1)"
proof -
  let ?c = "spawn_download_child y tm url (path_str (options_output_dir options))
            (options_max_filesize options) (format_kind_value (spec_kind (options_spec options)))
            (video_tier_value (options_spec options))"
  have "child_blocked ?c"
    using assms(1) by (simp add: child_blocked_def spawn_download_child_def split: prod.split)
  then obtain m where "wait_result (wait_and_drain_progress ?c 0 (options_timeout options))
      = Inl (DownloadTimeoutInternal m)" using blocked_wait by blast
  then obtain sunk t where "run_download_in_process ?c (options_timeout options)
      = (Inl (DownloadTimeoutInternal m), sunk, t)"
    by (simp add: run_download_in_process_def Let_def)
  from ytdlp_download_None_eq [of mkdir options w w1 "spawn_download_child y tm" url, OF assms(2) this]
  show ?thesis by simp
qed

theorem large_result_times_out_witness:
  "ytdlp_download (\<lambda>_. retE ()) (spawn_download_child example_ytdl (example_timing\<lparr>tm_fits := False\<rparr>))
     ''u'' (example_options None) None () = (Inl DownloadTimeoutError, ())"
  by (rule large_result_times_out) (simp_all add: example_timing_def retE_def)

text \<open>A progress callback that raises replaces the outcome of the download, a finished
  file included: the exception of the first failing callback leaves \<open>download\<close>.\<close>

theorem callback_error_replaces_result:
  assumes "mkdir (options_output_dir options) w = (Inr (), w1)"
    and "run_download_in_process (spawn url (path_str (options_output_dir options))
           (options_max_filesize options) (format_kind_value (spec_kind (options_spec options)))
           (video_tier_value (options_spec options))) (options_timeout options)
         = (Inr result, Some raw # sunk, t)"
    and "build_download_progress raw = Inr p" and "cb p w1 = (Inl e, w2)"
  shows "ytdlp_download mkdir spawn url options (Some cb) w = (Inl e, w2)"
  using ytdlp_download_eq [of mkdir options w w1 spawn url, OF assms(1,2), of cb] assms(3,4)
  by (simp add: bindE_def liftE_def thenE_def)

theorem callback_error_replaces_result_witness:
  "fst (ytdlp_download (\<lambda>_. retE ()) (spawn_download_child example_ytdl example_timing) ''u''
     (example_options None) None ())
     = Inr \<lparr>result_path = [''d'', ''x.mp4''], result_width = Some 1280, result_height = Some 720,
            result_duration = Some 60, result_title = Some ''A title'', result_uploader = None\<rparr> \<and>
   ytdlp_download (\<lambda>_. retE ()) (spawn_download_child example_ytdl example_timing) ''u''
     (example_options None) (Some (\<lambda>p. raiseE (LibraryError ''ConnectionError'' []))) ()
     = (Inl (LibraryError ''ConnectionError'' []), ())"
proof
  show "fst (ytdlp_download (\<lambda>_. retE ()) (spawn_download_child example_ytdl example_timing) ''u''
     (example_options None) None ())
     = Inr \<lparr>result_path = [''d'', ''x.mp4''], result_width = Some 1280, result_height = Some 720,
            result_duration = Some 60, result_title = Some ''A title'', result_uploader = None\<rparr>"
    by code_simp
  let ?run = "run_download_in_process (spawn_download_child example_ytdl example_timing ''u''
     (path_str (options_output_dir (example_options None))) (options_max_filesize (example_options None))
     (format_kind_value (spec_kind (options_spec (example_options None))))
     (video_tier_value (options_spec (example_options None)))) (options_timeout (example_options None))"
  let ?raw = "[(''downloaded_bytes'', PInt 5), (''total_bytes'', PInt 10), (''speed'', PNone), (''eta'', PNone)]"
  have fst_run: "fst ?run = Inr \<lparr>result_path = [''d'', ''x.mp4''], result_width = Some 1280, result_height = Some 720,
            result_duration = Some 60, result_title = Some ''A title'', result_uploader = None\<rparr>"
    by code_simp
  have sunk: "fst (snd ?run) = [Some ?raw, None]"
    by code_simp
  have raw: "build_download_progress ?raw = Inr \<lparr>progress_percent = Some 50, progress_downloaded = 5,
        progress_total = Some 10, progress_speed = None, progress_eta = None, progress_phase_of = DOWNLOADING\<rparr>"
    by code_simp
  have r: "?run = (Inr \<lparr>result_path = [''d'', ''x.mp4''], result_width = Some 1280, result_height = Some 720,
            result_duration = Some 60, result_title = Some ''A title'', result_uploader = None\<rparr>,
          Some ?raw # [None], snd (snd ?run))"
    using fst_run sunk by (metis prod.collapse)
  show "ytdlp_download (\<lambda>_. retE ()) (spawn_download_child example_ytdl example_timing) ''u''
     (example_options None) (Some (\<lambda>p. raiseE (LibraryError ''ConnectionError'' []))) ()
     = (Inl (LibraryError ''ConnectionError'' []), ())"
    by (rule callback_error_replaces_result [of "\<lambda>_. retE ()" "example_options None" "()" "()"
          "spawn_download_child example_ytdl example_timing" "''u''", OF _ r raw]) (simp_all add: retE_def raiseE_def)
qed

lemma preview_child_message:
  "preview_worker_entrypoint ei r url = (status, p) \<Longrightarrow>
     status = ''extract_error'' \<or> status = ''error'' \<or> p = PyObj PNone \<or>
     (\<exists>facts. p = PyObj (PDict facts) \<and>
        (\<exists>mt. get_key facts ''media_type'' = PStr (media_type_value mt)))"
proof -
  assume msg: "preview_worker_entrypoint ei r url = (status, p)"
  have report: "status = ''extract_error'' \<or> status = ''error''"
    if "(if is_ydl_error e then (''extract_error'', Text (exn_str e))
         else (''error'', Text (exn_class e @ '': '' @ exn_str e))) = (status, p)" for e
    using that by (simp split: if_splits)
  have facts: "\<exists>mt. get_key facts ''media_type'' = PStr (media_type_value mt)"
    if "preview_facts r info = Inr facts" for info facts
    using that by (auto simp: preview_facts_def get_key_def split: sum.splits)
  show ?thesis
  proof (cases "ei YDL_OPTS_PREVIEW url")
    case (Inl e)
    then have "status = ''extract_error'' \<or> status = ''error''"
      using msg by (intro report [of e]) (simp add: preview_worker_entrypoint_def Let_def)
    then show ?thesis by blast
  next
    case (Inr info)
    show ?thesis
    proof (cases info)
      case None
      then show ?thesis using msg Inr by (simp add: preview_worker_entrypoint_def Let_def)
    next
      case (Some d)
      show ?thesis
      proof (cases "preview_facts r d")
        case (Inl e)
        then have "status = ''extract_error'' \<or> status = ''error''"
          using msg \<open>ei YDL_OPTS_PREVIEW url = Inr info\<close> Some
          by (intro report [of e]) (simp add: preview_worker_entrypoint_def Let_def)
        then show ?thesis by blast
      next
        case ok: (Inr fs)
        then have "p = PyObj (PDict fs)"
          using msg Inr Some by (simp add: preview_worker_entrypoint_def Let_def)
        then show ?thesis using facts [OF ok] by blast
      qed
    qed
  qed
qed

text \<open>A preview answers or raises one of the categorized exceptions the handlers show,
  whatever yt-dlp does and however long it takes.\<close>

theorem preview_errors_are_categorized:
  assumes "0 \<le> timeout_seconds"
    and "get_preview (spawn_preview_child extract_info repr_of tm) timeout_seconds url = Inl e"
  shows "is_extraction_error e \<or> is_unsupported_url_error e"
proof -
  let ?c = "spawn_preview_child extract_info repr_of tm url"
  obtain r c' t where col: "collect_preview_result ?c 0 timeout_seconds = (r, c', t)"
    by (metis prod_cases3)
  have spec: "\<not> is_alive c' t" "\<And>item. r = Inr item \<Longrightarrow> \<exists>a. ch_result ?c = Some (a, item)"
    "\<And>x. r = Inl x \<Longrightarrow> \<exists>m. x = PreviewTimeoutInternal m \<or> x = DownloadProcessInternal m"
    using collect_loop_spec [of ?c "0 + of_int timeout_seconds" 0
        "case ch_result ?c of None \<Rightarrow> [] | Some item \<Rightarrow> [item]" r c' t] assms(1) col
    by (auto simp: collect_preview_result_def split: option.splits)
  show ?thesis
  proof (cases r)
    case (Inl x)
    then show ?thesis
      using assms(2) col spec(3) [OF Inl] by (auto simp: get_preview_def run_preview_in_process_def)
  next
    case (Inr item)
    obtain status p where item: "item = (status, p)" by fastforce
    have msg: "preview_worker_entrypoint extract_info repr_of url = (status, p)"
      using spec(2) [OF Inr] item by (simp add: spawn_preview_child_def)
    have cl: "is_extraction_error (classify_error m url) \<or> is_unsupported_url_error (classify_error m url)" for m
      using classified_handled [OF classify_error_mem] by blast
    show ?thesis
      using preview_child_message [OF msg] assms(2) col Inr item cl
      by (auto simp: get_preview_def run_preview_in_process_def as_opt_str_def str_or_empty_def
          split: if_splits)
  qed
qed

theorem preview_errors_are_categorized_witness:
  "get_preview (spawn_preview_child (\<lambda>_ _. Inl (LibraryError ''DownloadError'' ''Private video'')) (\<lambda>_. [])
      example_timing) 30 ''u'' = Inl PrivateContentError \<and> is_extraction_error PrivateContentError"
proof -
  have v: "get_preview (spawn_preview_child (\<lambda>_ _. Inl (LibraryError ''DownloadError'' ''Private video'')) (\<lambda>_. [])
      example_timing) 30 ''u'' = Inl PrivateContentError" by code_simp
  show ?thesis using preview_errors_are_categorized [OF _ v] v by simp
qed

end
