(* ===== verification/Storage.thy ===== *)
theory Storage
  imports Values
begin

text \<open>
  \<open>src/infrastructure/storage/local_storage.py\<close>: the base directory as a list of named
  entries with their trees, and the operations of \<open>LocalFileStorage\<close> on it.  Symbolic links
  are leaves (they are never followed).  \<open>sto_stuck\<close> names the entries the process has no
  permission to remove; the text of a request's UUID is the numeral of the model's id.
\<close>

section \<open>The directory\<close>

datatype node =
    FileNode rat int
  | LinkNode rat int bool
  | DirNode rat "(string \<times> node) list"

text \<open>\<open>LinkNode mtime size to_dir\<close>; a link to a directory is among \<open>os.walk\<close>'s directories.\<close>

record storage =
  sto_entries :: "(string \<times> node) list"
  sto_stuck :: "string list"
  sto_now :: rat
  sto_free :: int
  sto_log :: "string list"

type_synonym 'a stio = "(storage, exn, 'a) io"

definition request_dir :: "uuid \<Rightarrow> string" where
  "request_dir rid = show_nat rid"

definition log_storage :: "string \<Rightarrow> unit stio" where
  "log_storage event = tellE (\<lambda>s. s\<lparr>sto_log := sto_log s @ [event]\<rparr>)"

text \<open>\<open>lstat().st_mtime\<close>\<close>

fun mtime :: "node \<Rightarrow> rat" where
  "mtime (FileNode t _) = t"
| "mtime (LinkNode t _ _) = t"
| "mtime (DirNode t _) = t"

text \<open>\<open>_last_activity\<close> and \<open>_size_bytes\<close>: the walks over a tree.\<close>

fun last_activity :: "node \<Rightarrow> rat" where
  "last_activity (FileNode t _) = t"
| "last_activity (LinkNode t _ _) = t"
| "last_activity (DirNode t children) = fold max (map (\<lambda>c. last_activity (snd c)) children) t"

fun size_bytes :: "node \<Rightarrow> int" where
  "size_bytes (FileNode _ n) = n"
| "size_bytes (LinkNode _ n to_dir) = n"
| "size_bytes (DirNode _ children) =
     sum_list (map (\<lambda>c. case snd c of LinkNode _ n to_dir \<Rightarrow> if to_dir then 0 else n
                                     | nd \<Rightarrow> size_bytes nd) children)"

section \<open>Operations\<close>

definition lexists :: "string \<Rightarrow> storage \<Rightarrow> bool" where
  "lexists name s \<longleftrightarrow> name \<in> fst ` set (sto_entries s)"

text \<open>\<open>_remove\<close>: true only if the entry is gone afterwards.\<close>

definition remove_entry :: "string \<Rightarrow> bool stio" where
  "remove_entry name =
     bindE (askE (\<lambda>s. name \<in> set (sto_stuck s))) (\<lambda>stuck.
       thenE
         (if stuck then log_storage ''storage_remove_failed''
          else tellE (\<lambda>s. s\<lparr>sto_entries := filter (\<lambda>e. fst e \<noteq> name) (sto_entries s)\<rparr>))
         (askE (\<lambda>s. \<not> lexists name s)))"

text \<open>\<open>temp_dir_for_request\<close>; \<open>mkdir(exist_ok=True)\<close> raises when the name is not a directory.\<close>

definition temp_dir_for_request :: "path \<Rightarrow> uuid \<Rightarrow> path stio" where
  "temp_dir_for_request base rid =
     bindE (askE (\<lambda>s. map_of (sto_entries s) (request_dir rid))) (\<lambda>entry.
       case entry of
         Some (DirNode _ _) \<Rightarrow> retE (base @ [request_dir rid])
       | Some _ \<Rightarrow> raiseE (OSError ''FileExistsError'')
       | None \<Rightarrow>
           thenE (tellE (\<lambda>s. s\<lparr>sto_entries := sto_entries s @ [(request_dir rid, DirNode (sto_now s) [])]\<rparr>))
             (retE (base @ [request_dir rid])))"

definition release :: "uuid \<Rightarrow> unit stio" where
  "release rid =
     bindE (askE (lexists (request_dir rid))) (\<lambda>there.
       if \<not> there then retE ()
       else bindE (remove_entry (request_dir rid)) (\<lambda>gone.
              if gone then retE () else log_storage ''storage_release_incomplete''))"

definition available_bytes :: "int stio" where
  "available_bytes = askE sto_free"

text \<open>
  The loop of \<open>_cleanup_expired_sync\<close> over the entries \<open>iterdir\<close> listed; an entry that was
  released in between raises \<open>FileNotFoundError\<close> and is skipped.
\<close>

fun cleanup_entries :: "int \<Rightarrow> rat \<Rightarrow> string list \<Rightarrow> nat stio" where
  "cleanup_entries max_age now [] = retE 0"
| "cleanup_entries max_age now (name # names) =
     bindE (askE (\<lambda>s. map_of (sto_entries s) name)) (\<lambda>entry.
       case entry of
         None \<Rightarrow> cleanup_entries max_age now names
       | Some node \<Rightarrow>
           if now - last_activity node \<le> of_int max_age then cleanup_entries max_age now names
           else bindE (remove_entry name) (\<lambda>gone.
                  if gone then
                    thenE (log_storage ''storage_cleanup_removed'')
                      (bindE (cleanup_entries max_age now names) (\<lambda>n. retE (n + 1)))
                  else cleanup_entries max_age now names))"

text \<open>\<open>between\<close>: the releases of jobs that finish after the listing.\<close>

definition cleanup_expired :: "(storage \<Rightarrow> storage) \<Rightarrow> int \<Rightarrow> nat stio" where
  "cleanup_expired between max_age_seconds =
     bindE (askE sto_now) (\<lambda>now.
     bindE (askE (\<lambda>s. map fst (sto_entries s))) (\<lambda>names.
       thenE (tellE between) (cleanup_entries max_age_seconds now names)))"

section \<open>Facts\<close>

lemma remove_entry_eq:
  "remove_entry name s =
     (if name \<in> set (sto_stuck s)
      then (Inr (\<not> lexists name s), s\<lparr>sto_log := sto_log s @ [''storage_remove_failed'']\<rparr>)
      else (Inr True, s\<lparr>sto_entries := filter (\<lambda>e. fst e \<noteq> name) (sto_entries s)\<rparr>))"
  by (auto simp: remove_entry_def io_simps log_storage_def lexists_def)

lemma release_eq:
  "release rid s =
     (Inr (), if \<not> lexists (request_dir rid) s then s
      else if request_dir rid \<in> set (sto_stuck s)
        then s\<lparr>sto_log := sto_log s @ [''storage_remove_failed'', ''storage_release_incomplete'']\<rparr>
      else s\<lparr>sto_entries := filter (\<lambda>e. fst e \<noteq> request_dir rid) (sto_entries s)\<rparr>)"
  by (auto simp: release_def io_simps remove_entry_eq log_storage_def)

lemma request_dir_inject [simp]: "request_dir a = request_dir b \<longleftrightarrow> a = b"
  by (simp add: request_dir_def)

lemma fold_max_ge:
  "(t :: rat) \<le> fold max ts t \<and> (\<forall>x \<in> set ts. x \<le> fold max ts t)"
proof (induction ts arbitrary: t)
  case (Cons u us)
  have "t \<le> max u t" "u \<le> max u t" by simp_all
  then show ?case using Cons [of "max u t"] by (auto intro: order_trans)
qed simp

text \<open>The nodes of a tree, and the activity of each.\<close>

fun tree_nodes :: "node \<Rightarrow> node list" where
  "tree_nodes (DirNode t children) = DirNode t children # concat (map (\<lambda>c. tree_nodes (snd c)) children)"
| "tree_nodes n = [n]"

lemma last_activity_ge: "m \<in> set (tree_nodes n) \<Longrightarrow> mtime m \<le> last_activity n"
proof (induction n rule: last_activity.induct)
  case (3 t children)
  let ?ts = "map (\<lambda>c. last_activity (snd c)) children"
  have bound: "t \<le> fold max ?ts t" "\<forall>x \<in> set ?ts. x \<le> fold max ?ts t"
    using fold_max_ge [of t ?ts] by auto
  show ?case
  proof (cases "m = DirNode t children")
    case True
    then show ?thesis using bound by simp
  next
    case False
    then obtain c where c: "c \<in> set children" "m \<in> set (tree_nodes (snd c))"
      using 3(2) by auto
    then have "mtime m \<le> last_activity (snd c)" using 3(1) by blast
    also have "\<dots> \<le> fold max ?ts t" using bound(2) c(1) by auto
    finally show ?thesis by simp
  qed
qed auto

text \<open>What the cleanup leaves and how many entries it counts.\<close>

definition expired :: "int \<Rightarrow> rat \<Rightarrow> (string \<times> node) \<Rightarrow> bool" where
  "expired max_age now e \<longleftrightarrow> of_int max_age < now - last_activity (snd e)"

lemma map_of_filter_name:
  "name \<noteq> k \<Longrightarrow> map_of (filter (\<lambda>e. fst e \<noteq> name) es) k = map_of es k"
  by (induction es) auto

lemma cleanup_entries_spec:
  assumes "distinct (map fst (sto_entries s))" and "distinct names"
  shows "\<exists>n s'. cleanup_entries max_age now names s = (Inr n, s') \<and> sto_stuck s' = sto_stuck s \<and>
     sto_entries s' = filter (\<lambda>e. \<not> (fst e \<in> set names \<and> expired max_age now e \<and>
                                      fst e \<notin> set (sto_stuck s))) (sto_entries s) \<and>
     n + length (sto_entries s') = length (sto_entries s)"
  using assms
proof (induction names arbitrary: s)
  case Nil
  then show ?case by (simp add: retE_def)
next
  case (Cons name names)
  let ?P = "\<lambda>stuck ns e. \<not> (fst e \<in> set ns \<and> expired max_age now e \<and> fst e \<notin> set stuck)"
  show ?case
  proof (cases "\<exists>node. map_of (sto_entries s) name = Some node \<and> expired max_age now (name, node)
      \<and> name \<notin> set (sto_stuck s)")
    case False
    have mem: "e \<in> set (sto_entries s) \<Longrightarrow> map_of (sto_entries s) (fst e) = Some (snd e)" for e
      using Cons.prems(1) by (simp add: map_of_eq_Some_iff)
    have same: "filter (?P (sto_stuck s) (name # names)) (sto_entries s)
        = filter (?P (sto_stuck s) names) (sto_entries s)"
    proof (rule filter_cong [OF refl])
      fix e assume "e \<in> set (sto_entries s)"
      then show "?P (sto_stuck s) (name # names) e \<longleftrightarrow> ?P (sto_stuck s) names e"
        using False mem [of e] by (auto simp: expired_def)
    qed
    have "\<exists>s1. cleanup_entries max_age now (name # names) s = cleanup_entries max_age now names s1 \<and>
       sto_entries s1 = sto_entries s \<and> sto_stuck s1 = sto_stuck s"
    proof (cases "map_of (sto_entries s) name")
      case None
      then show ?thesis by (auto simp: io_simps)
    next
      case (Some node)
      show ?thesis
      proof (cases "expired max_age now (name, node)")
        case exp: True
        then have stuck: "name \<in> set (sto_stuck s)" using False Some by blast
        have "lexists name s" using Some by (force simp: lexists_def dest: map_of_SomeD)
        then show ?thesis
          using Some exp stuck
          by (intro exI [of _ "s\<lparr>sto_log := sto_log s @ [''storage_remove_failed'']\<rparr>"])
            (simp add: io_simps remove_entry_eq expired_def)
      next
        case False
        then show ?thesis using Some by (auto simp: io_simps expired_def)
      qed
    qed
    then obtain s1 where s1: "cleanup_entries max_age now (name # names) s = cleanup_entries max_age now names s1"
      "sto_entries s1 = sto_entries s" "sto_stuck s1 = sto_stuck s" by blast
    then show ?thesis using Cons.IH [of s1] Cons.prems same by simp
  next
    case True
    then obtain node where node: "map_of (sto_entries s) name = Some node"
        "expired max_age now (name, node)" "name \<notin> set (sto_stuck s)" by blast
    let ?es = "filter (\<lambda>e. fst e \<noteq> name) (sto_entries s)"
    let ?s1 = "s\<lparr>sto_entries := ?es, sto_log := sto_log s @ [''storage_cleanup_removed'']\<rparr>"
    obtain n s' where ih: "cleanup_entries max_age now names ?s1 = (Inr n, s')" "sto_stuck s' = sto_stuck s"
        "sto_entries s' = filter (?P (sto_stuck s) names) ?es" "n + length (sto_entries s') = length ?es"
      using Cons.IH [of ?s1] Cons.prems distinct_map_filter [of fst "sto_entries s" "\<lambda>e. fst e \<noteq> name"]
      by auto
    have step: "cleanup_entries max_age now (name # names) s = (Inr (n + 1), s')"
      using node ih(1) by (simp add: io_simps remove_entry_eq expired_def log_storage_def)
    have len: "length ?es + 1 = length (sto_entries s)"
    proof -
      have "length (filter (\<lambda>e. fst e \<noteq> k) es) + 1 = length es"
        if "distinct (map fst es)" "map_of es k = Some v" for k v and es :: "(string \<times> node) list"
        using that
      proof (induction es)
        case (Cons e es)
        show ?case
        proof (cases "fst e = k")
          case True
          then have "k \<notin> fst ` set es" using Cons.prems(1) by auto
          then have "\<forall>x \<in> set es. fst x \<noteq> k" by blast
          then have "filter (\<lambda>e. fst e \<noteq> k) es = es" by (simp add: filter_id_conv)
          then show ?thesis using True by simp
        next
          case False
          then show ?thesis using Cons by simp
        qed
      qed simp
      then show ?thesis using Cons.prems(1) node(1) by blast
    qed
    have "sto_entries s' = filter (?P (sto_stuck s) (name # names)) (sto_entries s)"
    proof -
      have "?P (sto_stuck s) names e \<and> fst e \<noteq> name \<longleftrightarrow> ?P (sto_stuck s) (name # names) e"
        if "e \<in> set (sto_entries s)" for e
      proof (cases "fst e = name")
        case True
        have "map_of (sto_entries s) (fst e) = Some (snd e)"
          using that Cons.prems(1) by (simp add: map_of_eq_Some_iff)
        then have "snd e = node" using node(1) True by simp
        then show ?thesis using True node(2,3) by (simp add: expired_def)
      next
        case False
        then show ?thesis by simp
      qed
      then show ?thesis unfolding ih(3) filter_filter by (intro filter_cong refl) blast
    qed
    then show ?thesis using step ih len by auto
  qed
qed

section \<open>Properties\<close>

text \<open>C39: the cron removes exactly the removable entries in which nothing at all was touched
  for longer than the age, and counts what it removed; an entry with any file, however deep,
  written within the age survives, whatever the directory's own time, and so does one created
  after the listing.\<close>

theorem cleanup_removes_only_idle:
  assumes "distinct (map fst (sto_entries s))" and "sto_now s = now"
    and "distinct (map fst (sto_entries (between s)))"
  shows "\<exists>n s'. cleanup_expired between max_age s = (Inr n, s') \<and>
     n + length (sto_entries s') = length (sto_entries (between s)) \<and>
     set (sto_entries s') \<subseteq> set (sto_entries (between s)) \<and>
     (\<forall>(name, node) \<in> set (sto_entries (between s)). (name, node) \<notin> set (sto_entries s') \<longleftrightarrow>
        lexists name s \<and> name \<notin> set (sto_stuck (between s)) \<and> of_int max_age < now - last_activity node) \<and>
     (\<forall>(name, node) \<in> set (sto_entries (between s)). \<forall>m \<in> set (tree_nodes node).
        now - mtime m \<le> of_int max_age \<longrightarrow> (name, node) \<in> set (sto_entries s'))"
proof -
  obtain n s' where c: "cleanup_entries max_age now (map fst (sto_entries s)) (between s) = (Inr n, s')"
    "sto_entries s' = filter (\<lambda>e. \<not> (fst e \<in> set (map fst (sto_entries s)) \<and> expired max_age now e \<and>
        fst e \<notin> set (sto_stuck (between s)))) (sto_entries (between s))"
    "n + length (sto_entries s') = length (sto_entries (between s))"
    using cleanup_entries_spec [OF assms(3,1), of max_age now] by blast
  have run: "cleanup_expired between max_age s = (Inr n, s')"
    using c(1) assms(2) by (simp add: cleanup_expired_def io_simps)
  have live: "\<not> expired max_age now (name, node)"
    if "m \<in> set (tree_nodes node)" "now - mtime m \<le> of_int max_age" for m name node
    using last_activity_ge [OF that(1)] that(2) by (simp add: expired_def)
  show ?thesis
    using run c live by (intro exI [of _ n] exI [of _ s']) (fastforce simp: lexists_def expired_def)
qed

definition example_storage :: storage where
  "example_storage = \<lparr>sto_entries = [(''1'', DirNode 0 [(''a.part'', FileNode 95 7)]), (''2'', DirNode 0 [])],
     sto_stuck = [], sto_now = 100, sto_free = 5, sto_log = []\<rparr>"

theorem cleanup_removes_only_idle_witness:
  "fst (cleanup_expired id 10 example_storage) = Inr 1 \<and>
   (''1'', DirNode 0 [(''a.part'', FileNode 95 7)]) \<in> set (sto_entries (snd (cleanup_expired id 10 example_storage)))"
proof -
  have d: "distinct (map fst (sto_entries example_storage))"
    "distinct (map fst (sto_entries (id example_storage)))"
    by (simp_all add: example_storage_def)
  have v: "fst (cleanup_expired id 10 example_storage) = Inr 1" by code_simp
  show ?thesis
    using cleanup_removes_only_idle [of example_storage 100 id 10, OF d(1) _ d(2)] v
    by (auto simp: example_storage_def)
qed

text \<open>A job's release removes its own directory, with everything in it, and nothing else;
  it never raises, and releasing twice is releasing once.\<close>

theorem release_is_isolated:
  "fst (release rid s) = Inr () \<and>
   (request_dir rid \<notin> set (sto_stuck s) \<longrightarrow> \<not> lexists (request_dir rid) (snd (release rid s))) \<and>
   filter (\<lambda>e. fst e \<noteq> request_dir rid) (sto_entries (snd (release rid s)))
     = filter (\<lambda>e. fst e \<noteq> request_dir rid) (sto_entries s) \<and>
   (other \<noteq> rid \<longrightarrow> lexists (request_dir other) (snd (release rid s)) = lexists (request_dir other) s) \<and>
   sto_entries (snd (release rid (snd (release rid s)))) = sto_entries (snd (release rid s))"
proof -
  have keep: "k \<in> fst ` {e \<in> set es. fst e \<noteq> name} \<longleftrightarrow> k \<in> fst ` set es"
    if "k \<noteq> name" for k name and es :: "(string \<times> node) list"
    using that by force
  show ?thesis
    by (auto simp: release_eq lexists_def keep)
qed

theorem release_is_isolated_witness:
  "\<not> lexists (request_dir 1) (snd (release 1 example_storage)) \<and>
   lexists (request_dir 2) (snd (release 1 example_storage)) = lexists (request_dir 2) example_storage"
  using release_is_isolated [of 1 example_storage 2] by (simp add: example_storage_def)

end
