(* ===== verification/Redis.thy ===== *)
theory Redis
  imports Domain
begin

text \<open>
  The connection to Redis as the limiter and the preview store use it (\<open>redis.asyncio.Redis\<close>): a command, or a pipeline
  executed as a transaction, is answered, or raises.  One that raises was either never executed (no connection)
  or executed with its reply lost (a timeout after sending).
\<close>

datatype reply = Answered | Refused exn | Lost exn

record redis_link =
  ln_commands :: nat
  ln_reply :: "nat \<Rightarrow> reply"

definition sent :: "redis_link \<Rightarrow> redis_link" where
  "sent l = l\<lparr>ln_commands := ln_commands l + 1\<rparr>"

definition redis_command ::
    "('w \<Rightarrow> redis_link) \<Rightarrow> (redis_link \<Rightarrow> 'w \<Rightarrow> 'w) \<Rightarrow> ('w, exn, 'a) io \<Rightarrow> ('w, exn, 'a) io" where
  "redis_command get put m w =
     (let w' = put (sent (get w)) w
      in case ln_reply (get w) (ln_commands (get w)) of
           Answered \<Rightarrow> m w'
         | Refused e \<Rightarrow> (Inl e, w')
         | Lost e \<Rightarrow> (Inl e, snd (m w')))"

definition link_up :: "redis_link \<Rightarrow> bool" where
  "link_up l \<longleftrightarrow> (\<forall>n. ln_reply l n = Answered)"

definition reliable_link :: redis_link where
  "reliable_link = \<lparr>ln_commands = 0, ln_reply = (\<lambda>_. Answered)\<rparr>"

lemma link_up_simps [simp]: "link_up reliable_link" "link_up (sent l) = link_up l"
  by (simp_all add: link_up_def reliable_link_def sent_def)

lemma redis_command_up: "link_up (get w) \<Longrightarrow> redis_command get put m w = m (put (sent (get w)) w)"
  by (simp add: redis_command_def link_up_def Let_def)

lemma redis_commandE:
  assumes "redis_command get put m w = (r, w')"
  obtains (answered) "m (put (sent (get w)) w) = (r, w')"
    | (refused) e where "r = Inl e" "w' = put (sent (get w)) w"
    | (lost) e x where "r = Inl e" "m (put (sent (get w)) w) = (x, w')"
proof (cases "ln_reply (get w) (ln_commands (get w))")
  case Answered
  then show ?thesis using assms by (intro answered) (simp add: redis_command_def Let_def)
next
  case (Refused e)
  then show ?thesis using assms by (intro refused [of e]) (simp_all add: redis_command_def Let_def)
next
  case (Lost e)
  then show ?thesis using assms
    by (intro lost [of e "fst (m (put (sent (get w)) w))"]) (auto simp: redis_command_def Let_def prod_eq_iff)
qed

text \<open>What a command keeps, if counting it keeps it.\<close>

lemma keeps_redis_command:
  "(\<And>w. P w \<Longrightarrow> P (put (sent (get w)) w)) \<Longrightarrow> keeps P m \<Longrightarrow> keeps P (redis_command get put m)"
  by (auto simp: keeps_def redis_command_def Let_def split: reply.split)

end
