(* ===== verification/RateLimiter.thy ===== *)
theory RateLimiter
  imports Values Redis
begin

text \<open>
  \<open>src/infrastructure/rate_limit/redis_rate_limiter.py\<close>: the sliding window over a Redis
  sorted set per key, with the expiry of the key.  The application's and Redis's clocks are one
  reading; a member is the number \<open>uuid4\<close> draws.  Every command may fail (\<open>Redis\<close>).
\<close>

section \<open>Sorted sets with an expiry\<close>

record limiter =
  lim_sets :: "string \<Rightarrow> ((rat \<times> nat) list \<times> rat option) option"
  lim_now :: rat
  lim_uuid :: nat
  lim_redis :: redis_link

type_synonym 'a limio = "(limiter, exn, 'a) io"

record rate_limit_result =
  rl_allowed :: bool
  rl_retry_after :: int

definition KEY_PREFIX :: string where
  "KEY_PREFIX = ''umd:ratelimit:''"

text \<open>What a command finds under a key: nothing once the expiry is reached.\<close>

definition zset :: "string \<Rightarrow> limiter \<Rightarrow> (rat \<times> nat) list" where
  "zset k s =
     (case lim_sets s k of
        None \<Rightarrow> []
      | Some (evs, None) \<Rightarrow> evs
      | Some (evs, Some t) \<Rightarrow> if lim_now s < t then evs else [])"

definition zset_expiry :: "string \<Rightarrow> limiter \<Rightarrow> rat option" where
  "zset_expiry k s = (case lim_sets s k of None \<Rightarrow> None | Some (_, t) \<Rightarrow> t)"

definition zremrangebyscore :: "string \<Rightarrow> rat \<Rightarrow> unit limio" where
  "zremrangebyscore k highest =
     tellE (\<lambda>s. let evs = filter (\<lambda>e. highest < fst e) (zset k s)
       in s\<lparr>lim_sets := (lim_sets s)(k := if evs = [] then None else Some (evs, zset_expiry k s))\<rparr>)"

text \<open>\<open>zrange(key, 0, 0)\<close>: a member with the lowest score.\<close>

fun lowest_score :: "(rat \<times> nat) list \<Rightarrow> rat option" where
  "lowest_score [] = None"
| "lowest_score (e # es) =
     (case lowest_score es of None \<Rightarrow> Some (fst e) | Some m \<Rightarrow> Some (min (fst e) m))"

definition zadd :: "string \<Rightarrow> rat \<Rightarrow> nat \<Rightarrow> unit limio" where
  "zadd k score member =
     tellE (\<lambda>s. s\<lparr>lim_sets := (lim_sets s)(k := Some (zset k s @ [(score, member)], zset_expiry k s))\<rparr>)"

definition expire :: "string \<Rightarrow> int \<Rightarrow> unit limio" where
  "expire k seconds =
     tellE (\<lambda>s. s\<lparr>lim_sets := (lim_sets s)(k := (case lim_sets s k of
        None \<Rightarrow> None | Some (evs, _) \<Rightarrow> Some (evs, Some (lim_now s + of_int seconds))))\<rparr>)"

section \<open>RedisRateLimiter\<close>

definition limiter_command :: "'a limio \<Rightarrow> 'a limio" where
  "limiter_command m = redis_command lim_redis (\<lambda>l s. s\<lparr>lim_redis := l\<rparr>) m"

text \<open>
  An attempt is two transactions: one prunes and counts, the other, for an attempt below the limit, records it;
  the application's clock is read once, before both.
\<close>

definition begin_slot :: "string \<Rightarrow> int \<Rightarrow> int \<Rightarrow> rat \<Rightarrow> rate_limit_result option limio" where
  "begin_slot redis_key limit window_seconds now =
     bindE (limiter_command (thenE (zremrangebyscore redis_key (now - of_int window_seconds))
              (askE (\<lambda>s. int (length (zset redis_key s)))))) (\<lambda>current_count.
       if current_count \<ge> limit then
         bindE (limiter_command (askE (\<lambda>s. lowest_score (zset redis_key s)))) (\<lambda>oldest.
           retE (Some \<lparr>rl_allowed = False,
                  rl_retry_after = (case oldest of
                     None \<Rightarrow> 1
                   | Some score \<Rightarrow> max 1 (trunc_rat (score + of_int window_seconds - now) + 1))\<rparr>))
       else retE None)"

definition finish_slot :: "string \<Rightarrow> int \<Rightarrow> rat \<Rightarrow> rate_limit_result limio" where
  "finish_slot redis_key window_seconds now =
     bindE (askE lim_uuid) (\<lambda>member.
       thenE (tellE (\<lambda>s. s\<lparr>lim_uuid := member + 1\<rparr>))
      (thenE (limiter_command (thenE (zadd redis_key now member) (expire redis_key (window_seconds + 60))))
        (retE \<lparr>rl_allowed = True, rl_retry_after = 0\<rparr>)))"

definition acquire :: "string \<Rightarrow> int \<Rightarrow> int \<Rightarrow> rate_limit_result limio" where
  "acquire key limit window_seconds =
     bindE (askE lim_now) (\<lambda>now.
     bindE (begin_slot (KEY_PREFIX @ key) limit window_seconds now) (\<lambda>denied.
       case denied of Some result \<Rightarrow> retE result | None \<Rightarrow> finish_slot (KEY_PREFIX @ key) window_seconds now))"

section \<open>Facts\<close>

definition kept :: "string \<Rightarrow> int \<Rightarrow> limiter \<Rightarrow> (rat \<times> nat) list" where
  "kept key window s = filter (\<lambda>e. lim_now s - of_int window < fst e) (zset (KEY_PREFIX @ key) s)"

text \<open>The two transactions on the events the first one finds, and what they leave.\<close>

definition window_of :: "string \<Rightarrow> rat \<Rightarrow> limiter \<Rightarrow> (rat \<times> nat) list" where
  "window_of k start s = filter (\<lambda>e. start < fst e) (zset k s)"

definition pruned :: "string \<Rightarrow> rat \<Rightarrow> limiter \<Rightarrow> limiter" where
  "pruned k start s = s\<lparr>lim_sets := (lim_sets s)(k :=
     if window_of k start s = [] then None else Some (window_of k start s, zset_expiry k s))\<rparr>"

definition recorded :: "string \<Rightarrow> int \<Rightarrow> rat \<Rightarrow> nat \<Rightarrow> limiter \<Rightarrow> limiter" where
  "recorded k window now member s =
     s\<lparr>lim_sets := (lim_sets s)(k := Some (zset k s @ [(now, member)], Some (lim_now s + of_int (window + 60))))\<rparr>"

definition denied :: "int \<Rightarrow> rat \<Rightarrow> (rat \<times> nat) list \<Rightarrow> rate_limit_result" where
  "denied window now evs = \<lparr>rl_allowed = False, rl_retry_after = (case lowest_score evs of
     None \<Rightarrow> 1 | Some m \<Rightarrow> max 1 (trunc_rat (m + of_int window - now) + 1))\<rparr>"

definition allowed :: rate_limit_result where
  "allowed = \<lparr>rl_allowed = True, rl_retry_after = 0\<rparr>"

lemma allowed_simps [simp]: "rl_allowed allowed" "\<not> rl_allowed (denied window now evs)"
  by (simp_all add: allowed_def denied_def)

lemma zset_aside [simp]:
  "zset k (s\<lparr>lim_uuid := n\<rparr>) = zset k s" "zset k (s\<lparr>lim_redis := l\<rparr>) = zset k s"
  "zset_expiry k (s\<lparr>lim_uuid := n\<rparr>) = zset_expiry k s" "zset_expiry k (s\<lparr>lim_redis := l\<rparr>) = zset_expiry k s"
  by (simp_all add: zset_def zset_expiry_def split: option.split)

lemma window_of_aside [simp]:
  "window_of k start (s\<lparr>lim_uuid := n\<rparr>) = window_of k start s" "window_of k start (s\<lparr>lim_redis := l\<rparr>) = window_of k start s"
  by (simp_all add: window_of_def)

lemma zset_pruned [simp]: "zset k (pruned k start s) = window_of k start s"
proof (cases "window_of k start s = []")
  case False
  then have "zset k s \<noteq> []" by (auto simp: window_of_def)
  then have "case zset_expiry k s of None \<Rightarrow> True | Some t \<Rightarrow> lim_now s < t"
    by (auto simp: zset_def zset_expiry_def split: option.splits if_splits)
  then show ?thesis using False by (auto simp: zset_def pruned_def split: option.splits)
qed (simp add: zset_def pruned_def)

lemma pruned_aside:
  "pruned k start (s\<lparr>lim_redis := l\<rparr>) = (pruned k start s)\<lparr>lim_redis := l\<rparr>"
  "lim_redis (pruned k start s) = lim_redis s" "lim_uuid (pruned k start s) = lim_uuid s" "lim_now (pruned k start s) = lim_now s"
  by (simp_all add: pruned_def)

lemma recorded_aside:
  "recorded k window now m (s\<lparr>lim_redis := l\<rparr>) = (recorded k window now m s)\<lparr>lim_redis := l\<rparr>"
  "recorded k window now m (s\<lparr>lim_uuid := n\<rparr>) = (recorded k window now m s)\<lparr>lim_uuid := n\<rparr>"
  by (simp_all add: recorded_def)

lemma prune_run: "thenE (zremrangebyscore k start) (askE f) s = (Inr (f (pruned k start s)), pruned k start s)"
  by (simp add: zremrangebyscore_def thenE_def bindE_def tellE_def askE_def pruned_def window_of_def Let_def)

lemma record_run: "thenE (zadd k now m) (expire k (window + 60)) s = (Inr (), recorded k window now m s)"
  by (simp add: zadd_def expire_def thenE_def bindE_def tellE_def recorded_def)

text \<open>An answer, or an exception with the transaction run or not.\<close>

lemma begin_slot_cases:
  assumes "begin_slot k limit window now s = (r, s')"
  shows "\<exists>l. (\<exists>e. r = Inl e \<and> s' = s\<lparr>lim_redis := l\<rparr>) \<or>
     (s' = (pruned k (now - of_int window) s)\<lparr>lim_redis := l\<rparr> \<and>
      ((\<exists>e. r = Inl e) \<or>
       r = Inr (if int (length (window_of k (now - of_int window) s)) \<ge> limit
                then Some (denied window now (window_of k (now - of_int window) s)) else None)))"
proof -
  let ?p = "limiter_command (thenE (zremrangebyscore k (now - of_int window)) (askE (\<lambda>s. int (length (zset k s)))))"
  let ?q = "limiter_command (askE (\<lambda>s. lowest_score (zset k s)))"
  obtain r1 s1 where p: "?p s = (r1, s1)" by fastforce
  from p [unfolded limiter_command_def] show ?thesis
  proof (cases rule: redis_commandE)
    case answered
    then have s1: "s1 = (pruned k (now - of_int window) s)\<lparr>lim_redis := sent (lim_redis s)\<rparr>"
      and r1: "r1 = Inr (int (length (window_of k (now - of_int window) s)))"
      by (auto simp: prune_run pruned_aside)
    show ?thesis
    proof (cases "int (length (window_of k (now - of_int window) s)) \<ge> limit")
      case True
      obtain r2 s2 where q: "?q s1 = (r2, s2)" by fastforce
      have run: "r = (case r2 of Inl e \<Rightarrow> Inl e | Inr oldest \<Rightarrow> Inr (Some \<lparr>rl_allowed = False, rl_retry_after = (case oldest of
          None \<Rightarrow> 1 | Some score \<Rightarrow> max 1 (trunc_rat (score + of_int window - now) + 1))\<rparr>))" "s' = s2"
        using assms p q r1 True by (auto simp: begin_slot_def bindE_def retE_def split: sum.splits)
      from q [unfolded limiter_command_def] show ?thesis
      proof (cases rule: redis_commandE)
        case answered
        then show ?thesis using run s1 True by (auto simp: askE_def denied_def)
      next
        case (refused e)
        then show ?thesis using run s1 by auto
      next
        case (lost e x)
        then show ?thesis using run s1 by (auto simp: askE_def)
      qed
    next
      case False
      then show ?thesis using assms p r1 s1 by (auto simp: begin_slot_def bindE_def retE_def)
    qed
  next
    case (refused e)
    then show ?thesis using assms p by (auto simp: begin_slot_def bindE_def)
  next
    case (lost e x)
    then have "s1 = (pruned k (now - of_int window) s)\<lparr>lim_redis := sent (lim_redis s)\<rparr>"
      by (auto simp: prune_run pruned_aside)
    then show ?thesis using assms p lost by (auto simp: begin_slot_def bindE_def)
  qed
qed

lemma finish_slot_run:
  assumes "limiter_command (thenE (zadd k now (lim_uuid s)) (expire k (window + 60))) (s\<lparr>lim_uuid := lim_uuid s + 1\<rparr>) = (r1, s1)"
  shows "finish_slot k window now s = (case r1 of Inl e \<Rightarrow> Inl e | Inr _ \<Rightarrow> Inr allowed, s1)"
  using assms
  by (auto simp: finish_slot_def bindE_def thenE_def askE_def tellE_def retE_def allowed_def split: sum.splits prod.splits)

lemma finish_slot_cases:
  assumes "finish_slot k window now s = (r, s')"
  shows "\<exists>l. (\<exists>e. r = Inl e \<and> s' = s\<lparr>lim_uuid := lim_uuid s + 1, lim_redis := l\<rparr>) \<or>
     (s' = (recorded k window now (lim_uuid s) s)\<lparr>lim_uuid := lim_uuid s + 1, lim_redis := l\<rparr> \<and>
      (r = Inr allowed \<or> (\<exists>e. r = Inl e)))"
proof -
  let ?s = "s\<lparr>lim_uuid := lim_uuid s + 1\<rparr>"
  obtain r1 s1 where p: "limiter_command (thenE (zadd k now (lim_uuid s)) (expire k (window + 60))) ?s = (r1, s1)" by fastforce
  have run: "r = (case r1 of Inl e \<Rightarrow> Inl e | Inr _ \<Rightarrow> Inr allowed)" "s' = s1"
    using assms finish_slot_run [OF p] by simp_all
  from p [unfolded limiter_command_def] show ?thesis
    by (cases rule: redis_commandE) (auto simp: run record_run recorded_aside)
qed

text \<open>Of a whole attempt: nothing happened, the window was pruned, or the attempt was recorded; only what was recorded is allowed.\<close>

lemma acquireE:
  fixes key :: string and window :: int and s :: limiter
  assumes "acquire key limit window s = (r, s')"
  obtains (untouched) e l where "r = Inl e" "s' = s\<lparr>lim_redis := l\<rparr>"
    | (pruned) l n where "s' = (pruned (KEY_PREFIX @ key) (lim_now s - of_int window) s)\<lparr>lim_redis := l, lim_uuid := n\<rparr>"
        "(\<exists>e. r = Inl e) \<or>
         limit \<le> int (length (kept key window s)) \<and> r = Inr (denied window (lim_now s) (kept key window s))"
    | (recorded) l n where "int (length (kept key window s)) < limit"
        "s' = (recorded (KEY_PREFIX @ key) window (lim_now s) (lim_uuid s)
                (pruned (KEY_PREFIX @ key) (lim_now s - of_int window) s))\<lparr>lim_redis := l, lim_uuid := n\<rparr>"
        "r = Inr allowed \<or> (\<exists>e. r = Inl e)"
proof -
  let ?k = "KEY_PREFIX @ key" and ?start = "lim_now s - of_int window" and ?evs = "kept key window s"
  let ?p = "pruned ?k ?start s"
  have evs: "window_of ?k ?start s = ?evs" by (simp add: kept_def window_of_def)
  have same: "?p\<lparr>lim_redis := l\<rparr> = ?p\<lparr>lim_redis := l, lim_uuid := lim_uuid s\<rparr>" for l
    by (simp add: pruned_def)
  obtain r1 s1 where b: "begin_slot ?k limit window (lim_now s) s = (r1, s1)" by fastforce
  have run: "(r, s') = (case r1 of Inl e \<Rightarrow> (Inl e, s1) | Inr (Some v) \<Rightarrow> (Inr v, s1)
      | Inr None \<Rightarrow> finish_slot ?k window (lim_now s) s1)"
    using assms b by (auto simp: acquire_def bindE_def askE_def retE_def split: sum.splits option.splits)
  from begin_slot_cases [OF b, unfolded evs]
  consider (none) e l where "r1 = Inl e" "s1 = s\<lparr>lim_redis := l\<rparr>"
    | (failed) e l where "r1 = Inl e" "s1 = ?p\<lparr>lim_redis := l\<rparr>"
    | (full) l where "limit \<le> int (length ?evs)" "r1 = Inr (Some (denied window (lim_now s) ?evs))" "s1 = ?p\<lparr>lim_redis := l\<rparr>"
    | (free) l where "int (length ?evs) < limit" "r1 = Inr None" "s1 = ?p\<lparr>lim_redis := l\<rparr>"
    by (auto split: if_splits)
  then show thesis
  proof cases
    case (none e l)
    then show thesis using run by (intro untouched [of e l]) auto
  next
    case (failed e l)
    then show thesis using run pruned [where l = l and n = "lim_uuid s"] same by simp
  next
    case (full l)
    then show thesis using run pruned [where l = l and n = "lim_uuid s"] same by simp
  next
    case (free l)
    then have "finish_slot ?k window (lim_now s) s1 = (r, s')" using run by simp
    from finish_slot_cases [OF this]
    obtain l' where "(\<exists>e. r = Inl e) \<and> s' = s1\<lparr>lim_uuid := lim_uuid s1 + 1, lim_redis := l'\<rparr> \<or>
       s' = (recorded ?k window (lim_now s) (lim_uuid s1) s1)\<lparr>lim_uuid := lim_uuid s1 + 1, lim_redis := l'\<rparr> \<and>
         (r = Inr allowed \<or> (\<exists>e. r = Inl e))" by blast
    then show thesis
    proof (elim disjE conjE)
      assume "\<exists>e. r = Inl e" "s' = s1\<lparr>lim_uuid := lim_uuid s1 + 1, lim_redis := l'\<rparr>"
      then show thesis using pruned [where l = l' and n = "lim_uuid s + 1"] free(3) by (simp add: pruned_aside)
    qed (use recorded [OF free(1), where l = l' and n = "lim_uuid s + 1"] free(3) in \<open>simp_all add: pruned_aside recorded_aside\<close>)
  qed
qed

text \<open>While Redis answers, every attempt is decided.\<close>

lemma begin_slot_up:
  assumes "link_up (lim_redis s)"
  obtains l where "link_up l" "begin_slot k limit window now s =
     (Inr (if int (length (window_of k (now - of_int window) s)) \<ge> limit
           then Some (denied window now (window_of k (now - of_int window) s)) else None),
      (pruned k (now - of_int window) s)\<lparr>lim_redis := l\<rparr>)"
proof -
  have p: "limiter_command (thenE (zremrangebyscore k (now - of_int window)) (askE (\<lambda>s. int (length (zset k s))))) s =
      (Inr (int (length (window_of k (now - of_int window) s))), (pruned k (now - of_int window) s)\<lparr>lim_redis := sent (lim_redis s)\<rparr>)"
    using assms by (simp add: limiter_command_def redis_command_up prune_run pruned_aside)
  show thesis
  proof (cases "int (length (window_of k (now - of_int window) s)) \<ge> limit")
    case True
    then show thesis
      using that [of "sent (sent (lim_redis s))"] p assms
      by (simp add: begin_slot_def bindE_def limiter_command_def [of "askE _"] redis_command_up askE_def retE_def denied_def)
  next
    case False
    then show thesis using that [of "sent (lim_redis s)"] p assms by (simp add: begin_slot_def bindE_def retE_def)
  qed
qed

lemma finish_slot_up:
  assumes "link_up (lim_redis s)"
  shows "finish_slot k window now s = (Inr allowed,
     (recorded k window now (lim_uuid s) s)\<lparr>lim_uuid := lim_uuid s + 1, lim_redis := sent (lim_redis s)\<rparr>)"
proof -
  let ?s = "s\<lparr>lim_uuid := lim_uuid s + 1\<rparr>"
  have "limiter_command (thenE (zadd k now (lim_uuid s)) (expire k (window + 60))) ?s =
      (Inr (), (recorded k window now (lim_uuid s) s)\<lparr>lim_uuid := lim_uuid s + 1, lim_redis := sent (lim_redis s)\<rparr>)"
    using assms by (simp add: limiter_command_def redis_command_up record_run recorded_aside)
  from finish_slot_run [OF this] show ?thesis by simp
qed

lemma acquire_up:
  assumes "link_up (lim_redis s)"
  shows "fst (acquire key limit window s) = Inr (if limit \<le> int (length (kept key window s))
      then denied window (lim_now s) (kept key window s) else allowed)"
    and "link_up (lim_redis (snd (acquire key limit window s)))"
proof -
  have evs: "window_of (KEY_PREFIX @ key) (lim_now s - of_int window) s = kept key window s" by (simp add: kept_def window_of_def)
  obtain l where l: "link_up l" "begin_slot (KEY_PREFIX @ key) limit window (lim_now s) s =
     (Inr (if int (length (kept key window s)) \<ge> limit then Some (denied window (lim_now s) (kept key window s)) else None),
      (pruned (KEY_PREFIX @ key) (lim_now s - of_int window) s)\<lparr>lim_redis := l\<rparr>)"
    by (rule begin_slot_up [OF assms, where k = "KEY_PREFIX @ key" and limit = limit and window = window and now = "lim_now s",
          unfolded evs])
  then show "fst (acquire key limit window s) = Inr (if limit \<le> int (length (kept key window s))
      then denied window (lim_now s) (kept key window s) else allowed)"
    and "link_up (lim_redis (snd (acquire key limit window s)))"
    by (simp_all add: acquire_def bindE_def askE_def retE_def finish_slot_up)
qed

lemma lowest_score_spec:
  "lowest_score es = Some m \<Longrightarrow> m \<in> fst ` set es \<and> (\<forall>e \<in> set es. m \<le> fst e)"
proof (induction es arbitrary: m)
  case (Cons e es)
  show ?case
  proof (cases "lowest_score es")
    case None
    then have "es = []" by (cases es) (auto split: option.splits)
    then show ?thesis using Cons.prems None by simp
  next
    case (Some k)
    then have m: "m = min (fst e) k" using Cons.prems by simp
    have k: "k \<in> fst ` set es" "\<forall>x \<in> set es. k \<le> fst x" using Cons.IH [OF Some] by auto
    have "\<forall>x \<in> set es. m \<le> fst x" using k(2) by (simp add: m min.coboundedI2)
    moreover have "m = fst e \<or> m \<in> fst ` set es" using k(1) by (simp add: m min_def)
    ultimately show ?thesis by (auto simp: m)
  qed
qed simp

lemma lowest_score_None: "lowest_score es = None \<longleftrightarrow> es = []"
  by (cases es) (auto split: option.splits)

text \<open>The accepted times of a sequence of attempts on one key.\<close>

fun accepted :: "string \<Rightarrow> int \<Rightarrow> int \<Rightarrow> rat list \<Rightarrow> limiter \<Rightarrow> rat list" where
  "accepted key limit window [] s = []"
| "accepted key limit window (t # ts) s =
     (case acquire key limit window (s\<lparr>lim_now := t\<rparr>) of
        (Inr r, s') \<Rightarrow> (if rl_allowed r then [t] else []) @ accepted key limit window ts s'
      | (Inl _, s') \<Rightarrow> accepted key limit window ts s')"

definition in_window :: "int \<Rightarrow> rat \<Rightarrow> rat \<Rightarrow> bool" where
  "in_window window t x \<longleftrightarrow> t - of_int window < x \<and> x \<le> t"

definition stored :: "string \<Rightarrow> limiter \<Rightarrow> (rat \<times> nat) list" where
  "stored key s = (case lim_sets s (KEY_PREFIX @ key) of None \<Rightarrow> [] | Some (evs, _) \<Rightarrow> evs)"

text \<open>
  The invariant of a key: the expiry never drops an event that is still in the window, and no
  window holds more than the limit.
\<close>

definition key_ok :: "string \<Rightarrow> int \<Rightarrow> int \<Rightarrow> rat \<Rightarrow> limiter \<Rightarrow> bool" where
  "key_ok key limit window now s \<longleftrightarrow>
     (\<forall>e \<in> set (stored key s). fst e \<le> now \<and>
        (\<forall>t. zset_expiry (KEY_PREFIX @ key) s = Some t \<longrightarrow> fst e + of_int window \<le> t)) \<and>
     (\<forall>t. int (length (filter (\<lambda>e. in_window window t (fst e)) (stored key s))) \<le> max 0 limit)"

lemma kept_stored:
  assumes "key_ok key limit window now s" and "now \<le> t" and "lim_now s' = t"
    and "lim_sets s' = lim_sets s"
  shows "kept key window s' = filter (\<lambda>e. t - of_int window < fst e) (stored key s)"
proof -
  let ?k = "KEY_PREFIX @ key"
  show ?thesis
  proof (cases "lim_sets s ?k")
    case None
    then show ?thesis using assms by (simp add: kept_def zset_def stored_def)
  next
    case (Some p)
    obtain evs ex where p: "p = (evs, ex)" by fastforce
    show ?thesis
    proof (cases ex)
      case None
      then show ?thesis using Some p assms by (simp add: kept_def zset_def stored_def)
    next
      case (Some x)
      have "\<forall>e \<in> set evs. fst e + of_int window \<le> x"
        using assms(1) \<open>lim_sets s ?k = Some p\<close> p Some
        by (auto simp: key_ok_def stored_def zset_expiry_def)
      then have "filter (\<lambda>e. t - of_int window < fst e) evs = []" if "x \<le> t"
        using that by (fastforce simp: filter_empty_conv)
      then show ?thesis
        using \<open>lim_sets s ?k = Some p\<close> p Some assms by (auto simp: kept_def zset_def stored_def)
    qed
  qed
qed

lemma filter_length_le: "(\<And>x. x \<in> set xs \<Longrightarrow> P x \<Longrightarrow> Q x) \<Longrightarrow> length (filter P xs) \<le> length (filter Q xs)"
  by (induction xs) auto

lemma key_ok_aside [simp]:
  "key_ok key limit window now (s\<lparr>lim_redis := l\<rparr>) = key_ok key limit window now s"
  "key_ok key limit window now (s\<lparr>lim_uuid := n\<rparr>) = key_ok key limit window now s"
  "stored key (s\<lparr>lim_redis := l\<rparr>) = stored key s" "stored key (s\<lparr>lim_uuid := n\<rparr>) = stored key s"
  by (simp_all add: key_ok_def stored_def zset_expiry_def)

text \<open>The slot an attempt got.\<close>

definition granted :: "exn + rate_limit_result \<Rightarrow> bool" where
  "granted r \<longleftrightarrow> (case r of Inr v \<Rightarrow> rl_allowed v | Inl _ \<Rightarrow> False)"

lemma granted_simps [simp]: "granted (Inr v) = rl_allowed v" "\<not> granted (Inl e)"
  by (simp_all add: granted_def)

definition slot_of :: "exn + rate_limit_result \<Rightarrow> rat \<Rightarrow> rat list" where
  "slot_of r t = (if granted r then [t] else [])"

text \<open>
  An attempt keeps the invariant, and what a window that ends at it or later contains of the events before it
  and the attempt itself, it contains of the events after it; an attempt whose recording got no reply only adds to these.
\<close>

lemma key_ok_acquire:
  assumes ok: "key_ok key limit window now s" and t: "now \<le> t" and w: "0 \<le> window"
    and a: "acquire key limit window (s\<lparr>lim_now := t\<rparr>) = (r, s')"
  shows "key_ok key limit window t s'"
    and "t \<le> u \<Longrightarrow> length (filter (in_window window u) (map fst (stored key s) @ slot_of r t))
           \<le> length (filter (in_window window u) (map fst (stored key s')))"
proof -
  let ?s = "s\<lparr>lim_now := t\<rparr>" and ?S = "stored key s" and ?k = "KEY_PREFIX @ key" and ?start = "t - of_int window"
  let ?kept = "filter (\<lambda>e. ?start < fst e) ?S"
  have kept: "kept key window ?s = ?kept" using kept_stored [OF ok t, of ?s] by simp
  then have seen: "window_of ?k ?start ?s = ?kept" by (simp add: kept_def window_of_def)
  have expiry: "zset_expiry ?k ?s = zset_expiry ?k s" by (simp add: zset_expiry_def)
  have old: "\<forall>e \<in> set ?S. fst e \<le> t" using ok t by (force simp: key_ok_def)
  have bound: "int (length (filter (\<lambda>e. in_window window u (fst e)) ?kept)) \<le> max 0 limit" for u
  proof -
    have "length (filter (\<lambda>e. in_window window u (fst e)) ?kept)
        \<le> length (filter (\<lambda>e. in_window window u (fst e)) ?S)"
      unfolding filter_filter by (rule filter_length_le) simp
    moreover have "int (length (filter (\<lambda>e. in_window window u (fst e)) ?S)) \<le> max 0 limit"
      using ok unfolding key_ok_def by blast
    ultimately show ?thesis by linarith
  qed
  have same: "filter (in_window window u) (map fst ?kept) = filter (in_window window u) (map fst ?S)" if "t \<le> u" for u
    using that by (auto simp: filter_map comp_def in_window_def intro!: arg_cong [of _ _ "map fst"] filter_cong)
  let ?goal = "\<lambda>s'. key_ok key limit window t s' \<and> (\<forall>u \<ge> t. length (filter (in_window window u) (map fst ?S @ slot_of r t))
      \<le> length (filter (in_window window u) (map fst (stored key s'))))"
  have "?goal s'"
    using a
  proof (cases rule: acquireE)
    case (untouched e l)
    have "stored key ?s = ?S" "key_ok key limit window t ?s"
      using ok t by (force simp: key_ok_def stored_def zset_expiry_def)+
    moreover have "s' = ?s\<lparr>lim_redis := l\<rparr>" "slot_of r t = []" using untouched by (simp_all add: slot_of_def)
    ultimately show ?thesis by simp
  next
    case (pruned l n)
    have "\<forall>e \<in> set ?kept. fst e \<le> t" using old by auto
    then have "key_ok key limit window t (pruned ?k ?start ?s)"
      using ok bound by (auto simp: key_ok_def stored_def pruned_def seen expiry zset_expiry_def)
    moreover have "stored key (pruned ?k ?start ?s) = ?kept" by (simp add: stored_def pruned_def seen)
    moreover have "slot_of r t = []" using pruned(2) by (auto simp: slot_of_def)
    ultimately show ?thesis using same by (simp add: pruned(1))
  next
    case (recorded l n)
    let ?new = "recorded ?k window t (lim_uuid s) (pruned ?k ?start ?s)"
    have st: "stored key ?new = ?kept @ [(t, lim_uuid s)]" by (simp add: stored_def recorded_def seen)
    have few: "int (length ?kept) < limit" using recorded(1) by (simp add: kept)
    have "int (length (filter (\<lambda>e. in_window window u (fst e)) (stored key ?new))) \<le> max 0 limit" for u
    proof (cases "in_window window u t")
      case True
      have "length (filter (\<lambda>e. in_window window u (fst e)) ?kept) \<le> length ?kept" by (rule length_filter_le)
      then show ?thesis using True few unfolding st by simp
    next
      case False
      then show ?thesis using bound [of u] st by simp
    qed
    moreover have "\<forall>e \<in> set (stored key ?new). fst e \<le> t \<and> fst e + of_int window \<le> t + of_int (window + 60)"
      using st old by auto
    ultimately have "key_ok key limit window t ?new"
      by (auto simp: key_ok_def zset_expiry_def recorded_def pruned_aside)
    moreover have "length (filter (in_window window u) (map fst ?S @ slot_of r t)) \<le> length (filter (in_window window u) (map fst (stored key ?new)))"
      if "t \<le> u" for u
      using same [OF that] by (simp add: st slot_of_def)
    moreover have "s' = ?new\<lparr>lim_redis := l, lim_uuid := n\<rparr>" using recorded(2) by simp
    ultimately show ?thesis by simp
  qed
  then show "key_ok key limit window t s'"
    and "t \<le> u \<Longrightarrow> length (filter (in_window window u) (map fst (stored key s) @ slot_of r t))
           \<le> length (filter (in_window window u) (map fst (stored key s')))" by blast+
qed

lemma accepted_subset: "set (accepted key limit window us v) \<subseteq> set us"
proof (induction us arbitrary: v)
  case (Cons t us)
  obtain res v' where a: "acquire key limit window (v\<lparr>lim_now := t\<rparr>) = (res, v')" by fastforce
  show ?case using Cons [of v'] a by (cases res) auto
qed simp

text \<open>One attempt: what holds of the events kept after it and of later times holds of the events before it and the attempt.\<close>

lemma window_step:
  assumes ok: "key_ok key limit window now s" and t: "now \<le> t" and w: "0 \<le> window"
    and a: "acquire key limit window (s\<lparr>lim_now := t\<rparr>) = (r, s')"
    and later: "\<forall>x \<in> set later. t \<le> x"
    and rest: "int (length (filter (in_window window u) (map fst (stored key s') @ later))) \<le> max 0 limit"
  shows "int (length (filter (in_window window u) (map fst (stored key s) @ slot_of r t @ later))) \<le> max 0 limit"
proof (cases "u < t")
  case True
  have "filter (in_window window u) (slot_of r t @ later) = []"
    unfolding filter_empty_conv using True later by (auto simp: in_window_def slot_of_def)
  then show ?thesis using ok by (simp add: key_ok_def filter_map comp_def)
next
  case False
  then show ?thesis using key_ok_acquire(2) [OF ok t w a, of u] rest by simp
qed

lemma accepted_Cons:
  "acquire key limit window (s\<lparr>lim_now := t\<rparr>) = (r, s') \<Longrightarrow>
     accepted key limit window (t # ts) s = slot_of r t @ accepted key limit window ts s'"
  by (cases r) (simp_all add: slot_of_def)

lemma accepted_window:
  assumes "key_ok key limit window now s" and "0 \<le> window" and "sorted (now # ts)"
  shows "int (length (filter (in_window window u) (map fst (stored key s) @ accepted key limit window ts s)))
           \<le> max 0 limit"
  using assms
proof (induction ts arbitrary: now s)
  case Nil
  then show ?case by (simp add: key_ok_def filter_map comp_def)
next
  case (Cons t ts)
  obtain r s' where a: "acquire key limit window (s\<lparr>lim_now := t\<rparr>) = (r, s')" by fastforce
  have t: "now \<le> t" and ts: "sorted (t # ts)" using Cons.prems(3) by auto
  note ok = key_ok_acquire(1) [OF Cons.prems(1) t Cons.prems(2) a]
  have later: "\<forall>x \<in> set (accepted key limit window ts s'). t \<le> x"
    using accepted_subset [of key limit window ts s'] ts by auto
  show ?case
    unfolding accepted_Cons [OF a]
    by (rule window_step [OF Cons.prems(1) t Cons.prems(2) a later Cons.IH [OF ok Cons.prems(2) ts]])
qed

section \<open>Properties\<close>

text \<open>However the attempts on a fresh key are spread over time, no sliding window of the
  given length ever contains more accepted attempts than the limit, not even across a fixed
  window's boundary; the key's expiry and failing commands never weaken this.\<close>

theorem sliding_window_limit:
  assumes "sorted ts" and "0 \<le> window" and "0 \<le> limit" and "stored key s = []"
  shows "int (length (filter (in_window window u) (accepted key limit window ts s))) \<le> limit"
proof (cases ts)
  case Nil
  then show ?thesis using assms by simp
next
  case (Cons t ts')
  have "key_ok key limit window t s" using assms(4) by (simp add: key_ok_def)
  from accepted_window [OF this assms(2), of ts u] show ?thesis
    using assms Cons by simp
qed

definition fresh_limiter :: limiter where
  "fresh_limiter = \<lparr>lim_sets = (\<lambda>_. None), lim_now = 0, lim_uuid = 0, lim_redis = reliable_link\<rparr>"

theorem sliding_window_limit_witness:
  "accepted ''k'' 1 60 [0, 59] fresh_limiter = [0] \<and>
   length (filter (in_window 60 61) (accepted ''k'' 1 60 [0, 59] fresh_limiter)) \<le> 1"
proof
  show "accepted ''k'' 1 60 [0, 59] fresh_limiter = [0]"
    by code_simp
  have e: "stored ''k'' fresh_limiter = []" by (simp add: stored_def fresh_limiter_def)
  show "length (filter (in_window 60 61) (accepted ''k'' 1 60 [0, 59] fresh_limiter)) \<le> 1"
    using sliding_window_limit [of "[0, 59]" 60 1, OF _ _ _ e, of 61] by simp
qed

text \<open>A refusal records nothing and its waiting time is right: it is at least a second, at
  most one second longer than needed, and an attempt after that time, with none in between, is
  accepted, if Redis answers then.\<close>

theorem retry_after_is_enough:
  assumes "acquire key limit window s = (Inr r, s')" and "\<not> rl_allowed r"
    and "0 < limit" and "int (length (kept key window s)) \<le> limit" and "0 \<le> window" and "link_up (lim_redis s')"
  shows "set (stored key s') \<subseteq> set (zset (KEY_PREFIX @ key) s) \<and> 1 \<le> rl_retry_after r \<and>
     (\<exists>e \<in> set (kept key window s).
        of_int (rl_retry_after r) \<le> max 1 (fst e + of_int window - lim_now s + 1)) \<and>
     (\<exists>r2 s2. acquire key limit window (s'\<lparr>lim_now := lim_now s + of_int (rl_retry_after r)\<rparr>) = (Inr r2, s2)
        \<and> rl_allowed r2)"
proof -
  let ?k = "KEY_PREFIX @ key" and ?kept = "kept key window s"
  have full: "limit \<le> int (length ?kept)"
    using assms(1) by (cases rule: acquireE) (use assms(2) in auto)
  then have ne: "?kept \<noteq> []" using assms(3) by auto
  then obtain m where m: "lowest_score ?kept = Some m" by (metis lowest_score_None not_None_eq)
  note low = lowest_score_spec [OF m]
  have r: "rl_retry_after r = max 1 (trunc_rat (m + of_int window - lim_now s) + 1)"
    and s': "lim_sets s' = (lim_sets s)(?k := Some (?kept, zset_expiry ?k s))"
  proof -
    have evs: "window_of ?k (lim_now s - of_int window) s = ?kept" by (simp add: kept_def window_of_def)
    show "rl_retry_after r = max 1 (trunc_rat (m + of_int window - lim_now s) + 1)"
      "lim_sets s' = (lim_sets s)(?k := Some (?kept, zset_expiry ?k s))"
      using assms(1) by (cases rule: acquireE; use assms(2) ne m in \<open>auto simp: denied_def pruned_def evs\<close>)+
  qed
  let ?now = "lim_now s + of_int (rl_retry_after r)"
  let ?d = "m + of_int window - lim_now s"
  have dpos: "0 < ?d" using low by (auto simp: kept_def)
  have tr: "trunc_rat ?d = \<lfloor>?d\<rfloor>" using dpos by (simp add: trunc_rat_def)
  have "?d < of_int \<lfloor>?d\<rfloor> + 1" by (rule floor_less_iff [THEN iffD1, of "?d" "\<lfloor>?d\<rfloor> + 1", simplified])
  then have enough: "m \<le> ?now - of_int window"
    using r tr by (simp add: max_def split: if_splits)
  have fewer: "int (length (kept key window (s'\<lparr>lim_now := ?now\<rparr>))) < limit"
  proof -
    have sub: "kept key window (s'\<lparr>lim_now := ?now\<rparr>) = filter (\<lambda>e. ?now - of_int window < fst e) ?kept
        \<or> kept key window (s'\<lparr>lim_now := ?now\<rparr>) = []"
      by (auto simp: kept_def s' zset_def split: option.splits)
    obtain e where e: "e \<in> set ?kept" "fst e = m" using low by auto
    have "length (filter (\<lambda>e. ?now - of_int window < fst e) ?kept) < length ?kept"
      using e enough by (intro length_filter_less [of e]) auto
    then show ?thesis using sub assms(3,4) by auto
  qed
  have "set (stored key s') \<subseteq> set (zset ?k s)" by (auto simp: stored_def s' kept_def)
  moreover have "1 \<le> rl_retry_after r" using r by simp
  moreover have "\<exists>e \<in> set ?kept. of_int (rl_retry_after r) \<le> max 1 (fst e + of_int window - lim_now s + 1)"
  proof -
    have "of_int \<lfloor>?d\<rfloor> \<le> ?d" by simp
    then have "of_int (rl_retry_after r) \<le> max 1 (?d + 1)" using r tr by (auto simp: max_def)
    then show ?thesis using low by (auto simp: image_iff)
  qed
  moreover have "\<exists>r2 s2. acquire key limit window (s'\<lparr>lim_now := ?now\<rparr>) = (Inr r2, s2) \<and> rl_allowed r2"
    using acquire_up(1) [of "s'\<lparr>lim_now := ?now\<rparr>" key limit window] assms(6) fewer
    by (cases "acquire key limit window (s'\<lparr>lim_now := ?now\<rparr>)") simp
  ultimately show ?thesis by blast
qed

theorem retry_after_is_enough_witness:
  "\<exists>r s'. acquire ''k'' 1 60 (snd (acquire ''k'' 1 60 fresh_limiter)) = (Inr r, s') \<and> rl_retry_after r = 61 \<and>
     1 \<le> rl_retry_after r"
proof -
  let ?s = "snd (acquire ''k'' 1 60 fresh_limiter)"
  have v: "fst (acquire ''k'' 1 60 ?s) = Inr \<lparr>rl_allowed = False, rl_retry_after = 61\<rparr>"
    by code_simp
  have k: "length (kept ''k'' 60 ?s) = 1" by code_simp
  obtain s' where a: "acquire ''k'' 1 60 ?s = (Inr \<lparr>rl_allowed = False, rl_retry_after = 61\<rparr>, s')"
    using v by (metis prod.collapse)
  have "link_up (lim_redis (snd (acquire ''k'' 1 60 ?s)))"
    by (intro acquire_up) (simp add: fresh_limiter_def)
  then show ?thesis using retry_after_is_enough [OF a] a k by simp
qed

end
