(* ===== verification/PreviewStore.thy ===== *)
theory PreviewStore
  imports Downloader Redis
begin

text \<open>
  \<open>src/infrastructure/preview_context/redis_preview_context_store.py\<close>: JSON values under
  random tokens with Redis's own expiry; every command may fail (\<open>Redis\<close>).  The interface \<open>PreviewContextStorePort\<close> as the
  locale \<open>preview_context_store\<close>, with what its clients get from it.
\<close>

section \<open>The store\<close>

text \<open>What Redis returns: text (decoded or not), or bytes that are no UTF-8.\<close>

datatype raw_value = Decoded payload | Undecodable

record pstore =
  ps_entries :: "string \<Rightarrow> (raw_value \<times> rat) option"
  ps_now :: rat
  ps_uuid :: nat
  ps_log :: "string list"
  ps_redis :: redis_link

type_synonym 'a psio = "(pstore, exn, 'a) io"

definition PREVIEW_KEY_PREFIX :: string where
  "PREVIEW_KEY_PREFIX = ''umd:preview:''"

text \<open>\<open>uuid4().hex\<close>: 32 lower-case hexadecimal digits of a 128-bit number.\<close>

definition hex_digit :: "nat \<Rightarrow> char" where
  "hex_digit d = (if d < 10 then char_of (48 + d) else char_of (87 + d))"

fun hex_digits :: "nat \<Rightarrow> nat \<Rightarrow> string" where
  "hex_digits 0 n = []"
| "hex_digits (Suc k) n = hex_digits k (n div 16) @ [hex_digit (n mod 16)]"

definition uuid_hex :: "nat \<Rightarrow> string" where
  "uuid_hex n = hex_digits 32 n"

definition encode_context :: "preview_context \<Rightarrow> pyval" where
  "encode_context c =
     PDict [(''url'', PStr (context_url c)), (''extractor_key'', PStr (context_extractor_key c)),
            (''max_compatible_short_side'', opt_int (context_max_side c))]"

definition subscript :: "pyval \<Rightarrow> string \<Rightarrow> exn + pyval" where
  "subscript v k =
     (case v of
        PDict d \<Rightarrow> (case map_of d k of None \<Rightarrow> Inl KeyError | Some x \<Rightarrow> Inr x)
      | _ \<Rightarrow> Inl TypeError)"

text \<open>\<open>isinstance(side, int)\<close> holds of a \<open>bool\<close> too, which is then the number it equals.\<close>

definition decode_data :: "pyval \<Rightarrow> exn + preview_context" where
  "decode_data data =
     (case subscript data ''max_compatible_short_side'' of
        Inl e \<Rightarrow> Inl e
      | Inr side \<Rightarrow>
     (case subscript data ''url'' of
        Inl e \<Rightarrow> Inl e
      | Inr url \<Rightarrow>
     (case subscript data ''extractor_key'' of
        Inl e \<Rightarrow> Inl e
      | Inr key \<Rightarrow>
     (case (url, key) of
        (PStr u, PStr k) \<Rightarrow>
          (case side of
             PNone \<Rightarrow> Inr \<lparr>context_url = u, context_extractor_key = k, context_max_side = None\<rparr>
           | PInt n \<Rightarrow> Inr \<lparr>context_url = u, context_extractor_key = k, context_max_side = Some n\<rparr>
           | PBool b \<Rightarrow> Inr \<lparr>context_url = u, context_extractor_key = k,
                             context_max_side = Some (if b then 1 else 0)\<rparr>
           | _ \<Rightarrow> Inl TypeError)
      | _ \<Rightarrow> Inl TypeError))))"

fun decode_caught :: "exn \<Rightarrow> bool" where
  "decode_caught (ValueError _) = True"
| "decode_caught KeyError = True"
| "decode_caught TypeError = True"
| "decode_caught _ = False"

text \<open>\<open>_decode\<close>; the decoding of bytes is outside its \<open>try\<close>.\<close>

definition decode_context :: "raw_value option \<Rightarrow> preview_context option psio" where
  "decode_context value =
     (case value of
        None \<Rightarrow> retE None
      | Some Undecodable \<Rightarrow> raiseE (ValueError ''UnicodeDecodeError'')
      | Some (Decoded p) \<Rightarrow>
          (case (case json_loads p of Inl e \<Rightarrow> Inl e | Inr data \<Rightarrow> decode_data data) of
             Inr c \<Rightarrow> retE (Some c)
           | Inl e \<Rightarrow>
               if decode_caught e
               then thenE (tellE (\<lambda>s. s\<lparr>ps_log := ps_log s @ [''preview_context_unreadable'']\<rparr>)) (retE None)
               else raiseE e))"

text \<open>\<open>GET\<close>: nothing once the entry has expired.\<close>

definition redis_get :: "string \<Rightarrow> pstore \<Rightarrow> raw_value option" where
  "redis_get k s =
     (case ps_entries s k of None \<Rightarrow> None | Some (v, t) \<Rightarrow> if ps_now s < t then Some v else None)"

definition store_command :: "'a psio \<Rightarrow> 'a psio" where
  "store_command m = redis_command ps_redis (\<lambda>l s. s\<lparr>ps_redis := l\<rparr>) m"

definition set_entry :: "string \<Rightarrow> raw_value \<Rightarrow> int \<Rightarrow> unit psio" where
  "set_entry k v ttl_seconds =
     tellE (\<lambda>s. s\<lparr>ps_entries := (ps_entries s)(k := Some (v, ps_now s + of_int ttl_seconds))\<rparr>)"

definition delete_entry :: "string \<Rightarrow> unit psio" where
  "delete_entry k = tellE (\<lambda>s. s\<lparr>ps_entries := (ps_entries s)(k := None)\<rparr>)"

definition ps_save :: "int \<Rightarrow> preview_context \<Rightarrow> string psio" where
  "ps_save ttl_seconds c =
     bindE (askE (\<lambda>s. uuid_hex (ps_uuid s))) (\<lambda>token.
       thenE (tellE (\<lambda>s. s\<lparr>ps_uuid := ps_uuid s + 1\<rparr>))
      (thenE (store_command (set_entry (PREVIEW_KEY_PREFIX @ token) (Decoded (JsonText (encode_context c))) ttl_seconds))
        (retE token)))"

definition ps_get :: "string \<Rightarrow> preview_context option psio" where
  "ps_get token = bindE (store_command (askE (redis_get (PREVIEW_KEY_PREFIX @ token)))) decode_context"

definition ps_delete :: "string \<Rightarrow> unit psio" where
  "ps_delete token = store_command (delete_entry (PREVIEW_KEY_PREFIX @ token))"

text \<open>\<open>GETDEL\<close>\<close>

definition ps_pop :: "string \<Rightarrow> preview_context option psio" where
  "ps_pop token =
     bindE (store_command
       (bindE (askE (redis_get (PREVIEW_KEY_PREFIX @ token))) (\<lambda>value.
          thenE (delete_entry (PREVIEW_KEY_PREFIX @ token)) (retE value)))) decode_context"

section \<open>The interface\<close>

text \<open>
  What the handlers rely on.  \<open>live w token\<close> is the context a token stands for at a moment; the
  laws hold in the worlds \<open>good\<close> describes, which the operations keep; \<open>fresh\<close> says that the
  token drawn next is not in use.  An operation that raises has had its whole effect or none; where the store
  \<open>answers\<close> no operation raises.
\<close>

text \<open>The contexts that \<open>n\<close> calls of \<open>pop\<close> with one token answer with.\<close>

fun claims_of :: "(string \<Rightarrow> ('w, exn, preview_context option) io) \<Rightarrow> nat \<Rightarrow> string \<Rightarrow> 'w \<Rightarrow>
    preview_context list" where
  "claims_of pop 0 token w = []"
| "claims_of pop (Suc n) token w =
     (case pop token w of
        (Inr (Some c), w') \<Rightarrow> c # claims_of pop n token w'
      | (Inr None, w') \<Rightarrow> claims_of pop n token w'
      | (Inl _, w') \<Rightarrow> claims_of pop n token w')"

locale preview_context_store =
  fixes save :: "preview_context \<Rightarrow> ('w, exn, string) io"
    and get :: "string \<Rightarrow> ('w, exn, preview_context option) io"
    and delete :: "string \<Rightarrow> ('w, exn, unit) io"
    and pop :: "string \<Rightarrow> ('w, exn, preview_context option) io"
    and live :: "'w \<Rightarrow> string \<Rightarrow> preview_context option"
    and good :: "'w \<Rightarrow> bool"
    and fresh :: "'w \<Rightarrow> bool"
    and answers :: "'w \<Rightarrow> bool"
  assumes save_law: "good w \<Longrightarrow> fresh w \<Longrightarrow> save c w = (saved, w') \<Longrightarrow> good w' \<and> (\<exists>token. live w token = None \<and>
            (saved = Inr token \<and> live w' = (live w)(token \<mapsto> c) \<or>
             (\<exists>e. saved = Inl e) \<and> live w' \<in> {live w, (live w)(token \<mapsto> c)}))"
    and get_law: "good w \<Longrightarrow> get token w = (got, w') \<Longrightarrow> good w' \<and> live w' = live w \<and>
            (got = Inr (live w token) \<or> (\<exists>e. got = Inl e))"
    and delete_law: "good w \<Longrightarrow> delete token w = (deleted, w') \<Longrightarrow> good w' \<and>
            (deleted = Inr () \<and> live w' = (live w)(token := None) \<or>
             (\<exists>e. deleted = Inl e) \<and> live w' \<in> {live w, (live w)(token := None)})"
    and pop_law: "good w \<Longrightarrow> pop token w = (popped, w') \<Longrightarrow> good w' \<and>
            (popped = Inr (live w token) \<and> live w' = (live w)(token := None) \<or>
             (\<exists>e. popped = Inl e) \<and> live w' \<in> {live w, (live w)(token := None)})"
    and save_answers: "good w \<Longrightarrow> answers w \<Longrightarrow> save c w = (saved, w') \<Longrightarrow> answers w' \<and> (\<exists>token. saved = Inr token)"
    and pop_answers: "good w \<Longrightarrow> answers w \<Longrightarrow> pop token w = (popped, w') \<Longrightarrow> answers w' \<and> (\<exists>c. popped = Inr c)"
begin

lemma no_claim: "good w \<Longrightarrow> live w token = None \<Longrightarrow> claims_of pop n token w = []"
proof (induction n arbitrary: w)
  case (Suc n)
  obtain r w' where run: "pop token w = (r, w')" by fastforce
  then have "good w'" "live w' token = None" "r = Inr None \<or> (\<exists>e. r = Inl e)"
    using pop_law [OF Suc.prems(1) run] Suc.prems(2) by auto
  then show ?case using Suc.IH [of w'] run by auto
qed simp

text \<open>However the calls end, at most one of them answers with the context.\<close>

lemma at_most_one_claim:
  "good w \<Longrightarrow> claims_of pop n token w = [] \<or> (\<exists>c. live w token = Some c \<and> claims_of pop n token w = [c])"
proof (induction n arbitrary: w)
  case (Suc n)
  obtain r w' where run: "pop token w = (r, w')" by fastforce
  note law = pop_law [OF Suc.prems run]
  then have good: "good w'" by blast
  from law have "r = Inr (live w token) \<and> live w' token = None \<or> (\<exists>e. r = Inl e) \<and> live w' token \<in> {None, live w token}" by auto
  then show ?case
  proof (elim disjE conjE exE)
    assume "r = Inr (live w token)" "live w' token = None"
    then show ?thesis using run no_claim [OF good] by (cases "live w token") auto
  next
    fix e assume "r = Inl e" "live w' token \<in> {None, live w token}"
    then show ?thesis using run Suc.IH [OF good] by auto
  qed
qed simp

lemma single_claim:
  assumes "good w" and "answers w"
  shows "claims_of pop (Suc n) token w = (case live w token of None \<Rightarrow> [] | Some c \<Rightarrow> [c])"
proof -
  obtain r w' where run: "pop token w = (r, w')" by fastforce
  then have "good w'" "live w' token = None" "r = Inr (live w token)"
    using pop_law [OF assms(1) run] pop_answers [OF assms run] by auto
  then show ?thesis using no_claim [of w' token n] run by (simp split: option.split)
qed

lemma saved_is_claimed:
  assumes "good w" and "fresh w" and "answers w"
  shows "\<exists>token w'. save c w = (Inr token, w') \<and> live w token = None \<and> claims_of pop (Suc n) token w' = [c]"
proof -
  obtain r w' where run: "save c w = (r, w')" by fastforce
  obtain token where "r = Inr token" "live w token = None" "good w'" "live w' = (live w)(token \<mapsto> c)" "answers w'"
    using save_law [OF assms(1,2) run] save_answers [OF assms(1,3) run] by auto
  then show ?thesis using single_claim [of w' n token] run by simp
qed

end

section \<open>The store provides the interface\<close>

definition ps_live :: "pstore \<Rightarrow> string \<Rightarrow> preview_context option" where
  "ps_live s token =
     (case redis_get (PREVIEW_KEY_PREFIX @ token) s of
        Some (Decoded p) \<Rightarrow>
          (case json_loads p of
             Inl _ \<Rightarrow> None
           | Inr data \<Rightarrow> (case decode_data data of Inl _ \<Rightarrow> None | Inr c \<Rightarrow> Some c))
      | _ \<Rightarrow> None)"

text \<open>The stores this program writes: every value is text.\<close>

definition ps_good :: "pstore \<Rightarrow> bool" where
  "ps_good s \<longleftrightarrow> (\<forall>k v t. ps_entries s k = Some (v, t) \<longrightarrow> v \<noteq> Undecodable)"

definition ps_fresh :: "pstore \<Rightarrow> bool" where
  "ps_fresh s \<longleftrightarrow> ps_entries s (PREVIEW_KEY_PREFIX @ uuid_hex (ps_uuid s)) = None"

lemma decode_encode [simp]: "decode_data (encode_context c) = Inr c"
  by (cases "context_max_side c")
    (simp_all add: decode_data_def encode_context_def subscript_def opt_int_def)

lemma decode_data_caught: "decode_data data = Inl e \<Longrightarrow> decode_caught e"
  by (auto simp: decode_data_def subscript_def split: sum.splits pyval.splits option.splits prod.splits)

lemma json_loads_caught: "json_loads p = Inl e \<Longrightarrow> decode_caught e"
  by (auto simp: json_loads_def split: payload.splits)

lemma decode_context_eq:
  assumes "value \<noteq> Some Undecodable"
  shows "\<exists>l. decode_context value s =
     (Inr (case value of
        Some (Decoded p) \<Rightarrow>
          (case json_loads p of Inl _ \<Rightarrow> None
           | Inr data \<Rightarrow> (case decode_data data of Inl _ \<Rightarrow> None | Inr c \<Rightarrow> Some c))
      | _ \<Rightarrow> None), s\<lparr>ps_log := l\<rparr>)"
proof (cases "value")
  case None
  then show ?thesis by (auto simp: decode_context_def retE_def intro: exI [of _ "ps_log s"])
next
  case (Some v)
  then obtain p where v: "v = Decoded p" using assms by (cases v) auto
  let ?out = "case json_loads p of Inl e \<Rightarrow> Inl e | Inr data \<Rightarrow> decode_data data"
  have caught: "decode_caught e" if "?out = Inl e" for e
    using that decode_data_caught json_loads_caught by (auto split: sum.splits)
  show ?thesis
  proof (cases ?out)
    case (Inl e)
    then show ?thesis
      using Some v caught [OF Inl]
      by (auto simp: decode_context_def io_simps split: sum.splits)
  next
    case (Inr c)
    then show ?thesis
      using Some v
      by (auto simp: decode_context_def io_simps split: sum.splits intro!: exI [of _ "ps_log s"])
  qed
qed

lemma redis_get_good: "ps_good s \<Longrightarrow> redis_get k s \<noteq> Some Undecodable"
  by (auto simp: ps_good_def redis_get_def split: option.splits if_splits)

lemma redis_get_log [simp]: "redis_get k (s\<lparr>ps_log := l\<rparr>) = redis_get k s"
  by (simp add: redis_get_def split: option.split)

lemma ps_live_log [simp]: "ps_live (s\<lparr>ps_log := l\<rparr>) = ps_live s"
  by (rule ext) (simp add: ps_live_def)

lemma ps_good_log [simp]: "ps_good (s\<lparr>ps_log := l\<rparr>) = ps_good s"
  by (simp add: ps_good_def)

lemma redis_get_other:
  "redis_get (PREVIEW_KEY_PREFIX @ t) (s\<lparr>ps_entries := (ps_entries s)(PREVIEW_KEY_PREFIX @ token := v)\<rparr>)
     = (if t = token then (case v of None \<Rightarrow> None | Some (x, e) \<Rightarrow> if ps_now s < e then Some x else None)
        else redis_get (PREVIEW_KEY_PREFIX @ t) s)"
  by (auto simp: redis_get_def split: option.split)

lemma ps_live_delete:
  "ps_live (s\<lparr>ps_entries := (ps_entries s)(PREVIEW_KEY_PREFIX @ token := None)\<rparr>) = (ps_live s)(token := None)"
  by (rule ext) (simp add: ps_live_def redis_get_other)

lemma ps_good_delete:
  "ps_good s \<Longrightarrow> ps_good (s\<lparr>ps_entries := (ps_entries s)(PREVIEW_KEY_PREFIX @ token := None)\<rparr>)"
  by (auto simp: ps_good_def)

text \<open>Tokens are distinct while fewer than \<open>16 ^ 32\<close> have been drawn.\<close>

lemma hex_digit_inj: "d < 16 \<Longrightarrow> e < 16 \<Longrightarrow> hex_digit d = hex_digit e \<longleftrightarrow> d = e"
proof -
  assume de: "d < 16" "e < 16"
  have "(of_char (hex_digit d) :: nat) = (if d < 10 then 48 + d else 87 + d)" if "d < 16" for d
    using that by (simp add: hex_digit_def)
  then have num: "(of_char (hex_digit d) :: nat) = (if d < 10 then 48 + d else 87 + d)"
    "(of_char (hex_digit e) :: nat) = (if e < 10 then 48 + e else 87 + e)" using de by auto
  show ?thesis
  proof
    assume "hex_digit d = hex_digit e"
    then have "(if d < 10 then 48 + d else 87 + d) = (if e < 10 then 48 + e else 87 + e)"
      using num by simp
    then show "d = e" using de by (simp split: if_splits)
  qed simp
qed

lemma length_hex_digits [simp]: "length (hex_digits k n) = k"
  by (induction k arbitrary: n) auto

lemma hex_digits_inj: "n < 16 ^ k \<Longrightarrow> m < 16 ^ k \<Longrightarrow> hex_digits k n = hex_digits k m \<longleftrightarrow> n = m"
proof (induction k arbitrary: n m)
  case (Suc k)
  have "n div 16 < 16 ^ k" "m div 16 < 16 ^ k" using Suc.prems by (auto simp: less_mult_imp_div_less mult.commute)
  then have "hex_digits k (n div 16) = hex_digits k (m div 16) \<longleftrightarrow> n div 16 = m div 16" by (rule Suc.IH)
  moreover have "hex_digit (n mod 16) = hex_digit (m mod 16) \<longleftrightarrow> n mod 16 = m mod 16"
    by (rule hex_digit_inj) simp_all
  ultimately show ?case by (simp, metis div_mult_mod_eq)
qed simp


text \<open>The next token is unused while every token in use is an earlier draw.\<close>

lemma fresh_draw:
  assumes "ps_uuid s < 16 ^ 32"
    and "\<forall>t. ps_entries s (PREVIEW_KEY_PREFIX @ t) \<noteq> None \<longrightarrow> (\<exists>n < ps_uuid s. t = uuid_hex n)"
  shows "ps_fresh s"
proof -
  have "uuid_hex (ps_uuid s) \<noteq> uuid_hex n" if "n < ps_uuid s" for n
    using hex_digits_inj [of "ps_uuid s" 32 n] that assms(1) by (simp add: uuid_hex_def)
  then show ?thesis using assms(2) by (fastforce simp: ps_fresh_def)
qed

lemma length_token: "length (uuid_hex n) = 32"
  by (simp add: uuid_hex_def)

text \<open>The operations: whole effect, or none, or an effect without its answer.\<close>

lemma ps_aside [simp]:
  "redis_get k (s\<lparr>ps_redis := l\<rparr>) = redis_get k s" "ps_good (s\<lparr>ps_redis := l\<rparr>) = ps_good s"
  "redis_get k (s\<lparr>ps_uuid := n\<rparr>) = redis_get k s" "ps_good (s\<lparr>ps_uuid := n\<rparr>) = ps_good s"
  by (simp_all add: redis_get_def ps_good_def split: option.split)

lemma ps_live_aside [simp]: "ps_live (s\<lparr>ps_redis := l\<rparr>) = ps_live s" "ps_live (s\<lparr>ps_uuid := n\<rparr>) = ps_live s"
  by (intro ext; simp add: ps_live_def)+

definition without :: "string \<Rightarrow> pstore \<Rightarrow> pstore" where
  "without token s = s\<lparr>ps_entries := (ps_entries s)(PREVIEW_KEY_PREFIX @ token := None)\<rparr>"

lemma without_simps [simp]: "ps_live (without token s) = (ps_live s)(token := None)" "ps_good s \<Longrightarrow> ps_good (without token s)"
  "ps_redis (without token s) = ps_redis s"
  by (simp_all only: without_def ps_live_delete ps_good_delete) simp

lemma without_aside: "without token (s\<lparr>ps_redis := l\<rparr>) = (without token s)\<lparr>ps_redis := l\<rparr>"
  by (simp add: without_def)

lemma ps_live_decode:
  assumes "ps_good s"
  obtains l where "decode_context (redis_get (PREVIEW_KEY_PREFIX @ token) s) s' = (Inr (ps_live s token), s'\<lparr>ps_log := l\<rparr>)"
  using decode_context_eq [OF redis_get_good [OF assms, of "PREVIEW_KEY_PREFIX @ token"], of s'] by (auto simp: ps_live_def)

lemma ps_get_cases:
  assumes good: "ps_good s" and run: "ps_get token s = (r, s')"
  shows "\<exists>l log. s' = s\<lparr>ps_redis := l, ps_log := log\<rparr> \<and> (r = Inr (ps_live s token) \<or> (\<exists>e. r = Inl e))"
    and "link_up (ps_redis s) \<Longrightarrow> r = Inr (ps_live s token) \<and> link_up (ps_redis s')"
proof -
  let ?s = "s\<lparr>ps_redis := sent (ps_redis s)\<rparr>"
  obtain log where dec: "decode_context (redis_get (PREVIEW_KEY_PREFIX @ token) s) ?s = (Inr (ps_live s token), ?s\<lparr>ps_log := log\<rparr>)"
    by (rule ps_live_decode [OF good])
  obtain r1 s1 where c: "store_command (askE (redis_get (PREVIEW_KEY_PREFIX @ token))) s = (r1, s1)" by fastforce
  have out: "(r, s') = (case r1 of Inl e \<Rightarrow> (Inl e, s1) | Inr v \<Rightarrow> decode_context v s1)"
    using run c by (simp add: ps_get_def bindE_def split: sum.split)
  from c [unfolded store_command_def] show "\<exists>l log. s' = s\<lparr>ps_redis := l, ps_log := log\<rparr> \<and> (r = Inr (ps_live s token) \<or> (\<exists>e. r = Inl e))"
  proof (cases rule: redis_commandE)
    case answered
    then show ?thesis using out dec by (auto simp: askE_def intro!: exI [of _ "sent (ps_redis s)"] exI [of _ log])
  next
    case (refused e)
    then show ?thesis using out by (auto intro!: exI [of _ "sent (ps_redis s)"] exI [of _ "ps_log s"])
  next
    case (lost e x)
    then have "s1 = ?s" by (simp add: askE_def)
    then show ?thesis using out lost by (auto intro!: exI [of _ "sent (ps_redis s)"] exI [of _ "ps_log s"])
  qed
  show "link_up (ps_redis s) \<Longrightarrow> r = Inr (ps_live s token) \<and> link_up (ps_redis s')"
    using c out dec by (auto simp: store_command_def redis_command_up askE_def)
qed

lemma ps_pop_cases:
  assumes good: "ps_good s" and run: "ps_pop token s = (r, s')"
  shows "\<exists>l log. s' = (without token s)\<lparr>ps_redis := l, ps_log := log\<rparr> \<and> (r = Inr (ps_live s token) \<or> (\<exists>e. r = Inl e)) \<or>
      s' = s\<lparr>ps_redis := l\<rparr> \<and> (\<exists>e. r = Inl e)"
    and "link_up (ps_redis s) \<Longrightarrow> r = Inr (ps_live s token) \<and> link_up (ps_redis s')"
proof -
  let ?s = "(without token s)\<lparr>ps_redis := sent (ps_redis s)\<rparr>" and ?k = "PREVIEW_KEY_PREFIX @ token"
  let ?getdel = "bindE (askE (redis_get ?k)) (\<lambda>value. thenE (delete_entry ?k) (retE value))"
  have getdel: "?getdel (s\<lparr>ps_redis := l\<rparr>) = (Inr (redis_get ?k s), (without token s)\<lparr>ps_redis := l\<rparr>)" for l
    by (simp add: bindE_def thenE_def askE_def retE_def delete_entry_def tellE_def without_def)
  obtain log where dec: "decode_context (redis_get ?k s) ?s = (Inr (ps_live s token), ?s\<lparr>ps_log := log\<rparr>)"
    by (rule ps_live_decode [OF good])
  obtain r1 s1 where c: "store_command ?getdel s = (r1, s1)" by fastforce
  have out: "(r, s') = (case r1 of Inl e \<Rightarrow> (Inl e, s1) | Inr v \<Rightarrow> decode_context v s1)"
    using run c by (simp add: ps_pop_def bindE_def [of "store_command _"] split: sum.split)
  from c [unfolded store_command_def] show "\<exists>l log. s' = (without token s)\<lparr>ps_redis := l, ps_log := log\<rparr> \<and> (r = Inr (ps_live s token) \<or> (\<exists>e. r = Inl e)) \<or>
      s' = s\<lparr>ps_redis := l\<rparr> \<and> (\<exists>e. r = Inl e)"
  proof (cases rule: redis_commandE)
    case answered
    then show ?thesis using out dec by (auto simp: getdel intro!: exI [of _ "sent (ps_redis s)"] exI [of _ log])
  next
    case (refused e)
    then show ?thesis using out by auto
  next
    case (lost e x)
    then have "s1 = ?s" by (simp add: getdel)
    then show ?thesis using out lost by (auto intro!: exI [of _ "sent (ps_redis s)"] exI [of _ "ps_log (without token s)"])
  qed
  show "link_up (ps_redis s) \<Longrightarrow> r = Inr (ps_live s token) \<and> link_up (ps_redis s')"
    using c out dec by (auto simp: store_command_def redis_command_up getdel)
qed

lemma ps_delete_cases:
  assumes "ps_delete token s = (r, s')"
  shows "\<exists>l. s' = (without token s)\<lparr>ps_redis := l\<rparr> \<and> (r = Inr () \<or> (\<exists>e. r = Inl e)) \<or> s' = s\<lparr>ps_redis := l\<rparr> \<and> (\<exists>e. r = Inl e)"
proof -
  have "delete_entry (PREVIEW_KEY_PREFIX @ token) (s\<lparr>ps_redis := l\<rparr>) = (Inr (), (without token s)\<lparr>ps_redis := l\<rparr>)" for l
    by (simp add: delete_entry_def tellE_def without_def)
  with assms [unfolded ps_delete_def store_command_def] show ?thesis by (cases rule: redis_commandE) auto
qed

definition saved :: "int \<Rightarrow> preview_context \<Rightarrow> pstore \<Rightarrow> pstore" where
  "saved ttl c s = s\<lparr>ps_uuid := ps_uuid s + 1,
     ps_entries := (ps_entries s)(PREVIEW_KEY_PREFIX @ uuid_hex (ps_uuid s) :=
       Some (Decoded (JsonText (encode_context c)), ps_now s + of_int ttl))\<rparr>"

lemma ps_save_cases:
  assumes "ps_save ttl c s = (r, s')"
  shows "\<exists>l. s' = (saved ttl c s)\<lparr>ps_redis := l\<rparr> \<and> (r = Inr (uuid_hex (ps_uuid s)) \<or> (\<exists>e. r = Inl e)) \<or>
      s' = s\<lparr>ps_uuid := ps_uuid s + 1, ps_redis := l\<rparr> \<and> (\<exists>e. r = Inl e)"
    and "link_up (ps_redis s) \<Longrightarrow> r = Inr (uuid_hex (ps_uuid s)) \<and> link_up (ps_redis s')"
proof -
  let ?set = "set_entry (PREVIEW_KEY_PREFIX @ uuid_hex (ps_uuid s)) (Decoded (JsonText (encode_context c))) ttl"
  obtain r1 s1 where p: "store_command ?set (s\<lparr>ps_uuid := ps_uuid s + 1\<rparr>) = (r1, s1)" by fastforce
  have run: "r = (case r1 of Inl e \<Rightarrow> Inl e | Inr _ \<Rightarrow> Inr (uuid_hex (ps_uuid s)))" "s' = s1"
    using assms p by (auto simp: ps_save_def bindE_def thenE_def askE_def tellE_def retE_def split: sum.splits)
  have set: "?set (s\<lparr>ps_uuid := Suc (ps_uuid s), ps_redis := l\<rparr>) = (Inr (), (saved ttl c s)\<lparr>ps_redis := l\<rparr>)" for l
    by (simp add: set_entry_def tellE_def saved_def)
  from p [unfolded store_command_def] show "\<exists>l. s' = (saved ttl c s)\<lparr>ps_redis := l\<rparr> \<and> (r = Inr (uuid_hex (ps_uuid s)) \<or> (\<exists>e. r = Inl e)) \<or>
      s' = s\<lparr>ps_uuid := ps_uuid s + 1, ps_redis := l\<rparr> \<and> (\<exists>e. r = Inl e)"
    by (cases rule: redis_commandE) (auto simp: run set)
  show "link_up (ps_redis s) \<Longrightarrow> r = Inr (uuid_hex (ps_uuid s)) \<and> link_up (ps_redis s')"
    using p by (auto simp: run store_command_def redis_command_up set)
qed

lemma redis_get_saved:
  "redis_get (PREVIEW_KEY_PREFIX @ t) ((saved ttl c s)\<lparr>ps_now := now\<rparr>) =
     (if t = uuid_hex (ps_uuid s)
      then (if now < ps_now s + of_int ttl then Some (Decoded (JsonText (encode_context c))) else None)
      else redis_get (PREVIEW_KEY_PREFIX @ t) (s\<lparr>ps_now := now\<rparr>))"
  by (simp add: redis_get_def saved_def split: option.split)

lemma ps_live_saved:
  "ps_live ((saved ttl c s)\<lparr>ps_now := now\<rparr>) t =
     (if t = uuid_hex (ps_uuid s) then (if now < ps_now s + of_int ttl then Some c else None)
      else ps_live (s\<lparr>ps_now := now\<rparr>) t)"
  by (simp add: ps_live_def redis_get_saved json_loads_def)

lemma ps_good_saved: "ps_good s \<Longrightarrow> ps_good ((saved ttl c s)\<lparr>ps_now := now\<rparr>)"
  by (simp add: ps_good_def saved_def)

lemma saved_simps [simp]: "ps_good s \<Longrightarrow> ps_good (saved ttl c s)"
  by (simp add: ps_good_def saved_def)

lemma ps_live_saved_now:
  "ps_live (saved 900 c w) = (ps_live w)(uuid_hex (ps_uuid w) \<mapsto> c)"
  using ps_live_saved [where ttl = 900 and c = c and s = w and now = "ps_now w"] by (intro ext) (simp add: saved_def)

interpretation redis_store: preview_context_store "ps_save 900" ps_get ps_delete ps_pop ps_live ps_good ps_fresh
  "\<lambda>s. link_up (ps_redis s)"
proof unfold_locales
  fix w c r w' assume g: "ps_good w" and f: "ps_fresh w" and run: "ps_save 900 c w = (r, w')"
  have "ps_live w (uuid_hex (ps_uuid w)) = None"
    using f by (simp add: ps_live_def ps_fresh_def redis_get_def)
  then show "ps_good w' \<and> (\<exists>token. ps_live w token = None \<and> (r = Inr token \<and> ps_live w' = (ps_live w)(token \<mapsto> c) \<or>
      (\<exists>e. r = Inl e) \<and> ps_live w' \<in> {ps_live w, (ps_live w)(token \<mapsto> c)}))"
    using ps_save_cases(1) [OF run] g by (auto simp: ps_live_saved_now)
next
  fix w token r w' assume g: "ps_good w"
  show "ps_good w' \<and> ps_live w' = ps_live w \<and> (r = Inr (ps_live w token) \<or> (\<exists>e. r = Inl e))" if "ps_get token w = (r, w')"
    using ps_get_cases(1) [OF g that] g by auto
  show "ps_good w' \<and> (r = Inr (ps_live w token) \<and> ps_live w' = (ps_live w)(token := None) \<or>
      (\<exists>e. r = Inl e) \<and> ps_live w' \<in> {ps_live w, (ps_live w)(token := None)})" if "ps_pop token w = (r, w')"
    using ps_pop_cases(1) [OF g that] g by auto
  show "link_up (ps_redis w') \<and> (\<exists>c. r = Inr c)" if "link_up (ps_redis w)" "ps_pop token w = (r, w')"
    using ps_pop_cases(2) [OF g that(2,1)] by blast
next
  fix w token r w' assume "ps_good w" "ps_delete token w = (r, w')"
  then show "ps_good w' \<and> (r = Inr () \<and> ps_live w' = (ps_live w)(token := None) \<or>
      (\<exists>e. r = Inl e) \<and> ps_live w' \<in> {ps_live w, (ps_live w)(token := None)})"
    using ps_delete_cases by (fastforce)
next
  fix w c r w' assume "link_up (ps_redis w)" "ps_save 900 c w = (r, w')"
  then show "link_up (ps_redis w') \<and> (\<exists>token. r = Inr token)" using ps_save_cases(2) by blast
qed

section \<open>Properties\<close>

lemma ps_get_up:
  assumes "ps_good s" and "link_up (ps_redis s)"
  shows "fst (ps_get token s) = Inr (ps_live s token)" and "ps_good (snd (ps_get token s))"
    and "link_up (ps_redis (snd (ps_get token s)))" and "ps_live (snd (ps_get token s)) = ps_live s"
  using ps_get_cases [OF assms(1) surjective_pairing, of token] assms by auto

text \<open>While Redis answers, a preview's context is read back unchanged until its lifetime is over and not after;
  reading does not consume it, and an entry the previous version wrote (a bare link) reads as
  missing instead of being guessed at.\<close>

theorem preview_context_lifetime:
  assumes "ps_good s" and "link_up (ps_redis s)" and "ps_save ttl c s = (Inr token, s1)"
  shows "fst (ps_get token (s1\<lparr>ps_now := now\<rparr>)) =
           Inr (if now < ps_now s + of_int ttl then Some c else None) \<and>
     fst (ps_get token (snd (ps_get token (s1\<lparr>ps_now := now\<rparr>)))) = fst (ps_get token (s1\<lparr>ps_now := now\<rparr>)) \<and>
     fst (ps_get token (s1\<lparr>ps_entries := (ps_entries s1)(PREVIEW_KEY_PREFIX @ token := Some (Decoded (Text url), now))\<rparr>))
       = Inr None"
proof -
  have tok: "token = uuid_hex (ps_uuid s)" and up: "link_up (ps_redis s1)"
    using ps_save_cases(2) [OF assms(3,2)] by auto
  obtain l where s1: "s1 = (saved ttl c s)\<lparr>ps_redis := l\<rparr>" using ps_save_cases(1) [OF assms(3)] by auto
  let ?s = "s1\<lparr>ps_now := now\<rparr>"
  have aside: "?s = ((saved ttl c s)\<lparr>ps_now := now\<rparr>)\<lparr>ps_redis := l\<rparr>" by (simp add: s1)
  have g: "ps_good ?s" unfolding aside using ps_good_saved [OF assms(1)] by simp
  have live: "ps_live ?s token = (if now < ps_now s + of_int ttl then Some c else None)"
    unfolding aside by (simp add: tok ps_live_saved)
  note get = ps_get_up [OF g, of token]
  let ?b = "s1\<lparr>ps_entries := (ps_entries s1)(PREVIEW_KEY_PREFIX @ token := Some (Decoded (Text url), now))\<rparr>"
  have "ps_good s1" using assms(1) by (simp add: s1)
  then have gb: "ps_good ?b" by (auto simp: ps_good_def)
  have "ps_live ?b token = None" by (simp add: ps_live_def redis_get_def json_loads_def)
  then have "fst (ps_get token ?b) = Inr None" using ps_get_up(1) [OF gb] up by simp
  then show ?thesis using get ps_get_up(1) [of "snd (ps_get token ?s)" token] live up by simp
qed

definition empty_pstore :: pstore where
  "empty_pstore = \<lparr>ps_entries = (\<lambda>_. None), ps_now = 0, ps_uuid = 5, ps_log = [], ps_redis = reliable_link\<rparr>"

theorem preview_context_lifetime_witness:
  "fst (ps_get (uuid_hex 5) ((snd (ps_save 900 \<lparr>context_url = ''u'', context_extractor_key = ''k'',
      context_max_side = Some 720\<rparr> empty_pstore))\<lparr>ps_now := 899\<rparr>))
   = Inr (Some \<lparr>context_url = ''u'', context_extractor_key = ''k'', context_max_side = Some 720\<rparr>)"
proof -
  let ?c = "\<lparr>context_url = ''u'', context_extractor_key = ''k'', context_max_side = Some 720\<rparr>"
  have g: "ps_good empty_pstore" by (simp add: ps_good_def empty_pstore_def)
  have up: "link_up (ps_redis empty_pstore)" by (simp add: empty_pstore_def)
  have "fst (ps_save 900 ?c empty_pstore) = Inr (uuid_hex 5)"
    using ps_save_cases(2) [OF surjective_pairing up, of 900 ?c] by (simp add: empty_pstore_def)
  then have sv: "ps_save 900 ?c empty_pstore = (Inr (uuid_hex 5), snd (ps_save 900 ?c empty_pstore))"
    by (simp add: prod_eq_iff)
  show ?thesis using preview_context_lifetime [OF g up sv, where now = 899] by (simp add: empty_pstore_def)
qed

text \<open>However many taps race for a card's token, at most one claim gets the context, whatever Redis does; while it answers,
  exactly the first one does, every other one is told the preview is stale, and a token can be revoked.\<close>

theorem token_claimed_once:
  assumes "ps_good s" and "ps_fresh s"
  shows "length (claims_of ps_pop n token s) \<le> 1"
    and "link_up (ps_redis s) \<Longrightarrow> \<exists>token s1. ps_save 900 c s = (Inr token, s1) \<and> claims_of ps_pop (Suc n) token s1 = [c]"
  using redis_store.at_most_one_claim [OF assms(1), of n token] redis_store.saved_is_claimed [OF assms, of c n] by auto

theorem token_claimed_once_witness:
  "\<exists>token s1. ps_save 900 (from_preview undefined) empty_pstore = (Inr token, s1) \<and>
     claims_of ps_pop 2 token s1 = [from_preview undefined]"
  using token_claimed_once(2) [of empty_pstore "from_preview undefined" 1]
  by (auto simp: ps_good_def ps_fresh_def empty_pstore_def numeral_2_eq_2)

end
