(* ===== verification/DeliveryFilename.thy ===== *)
theory DeliveryFilename
  imports Values
begin

text \<open>
  \<open>src/domain/value_objects/delivery_filename.py\<close>, on all of Unicode: text is a list of code
  points.  Canonical composition (\<open>unicodedata.normalize("NFC", ...)\<close>) is the argument
  \<open>nfc\<close>; the categories Cc and Cf and the whitespace of \<open>str.split\<close> are the tables of
  Unicode 15, U+13438 to U+1343F included.
\<close>

type_synonym code_points = "nat list"

definition points :: "string \<Rightarrow> code_points" where
  "points s = map of_char s"

section \<open>UTF-8\<close>

definition is_scalar :: "nat \<Rightarrow> bool" where
  "is_scalar c \<longleftrightarrow> c < 0x110000 \<and> \<not> (0xD800 \<le> c \<and> c < 0xE000)"

definition utf8_char :: "nat \<Rightarrow> nat list" where
  "utf8_char c =
     (if c < 0x80 then [c]
      else if c < 0x800 then [0xC0 + c div 64, 0x80 + c mod 64]
      else if c < 0x10000 then [0xE0 + c div 4096, 0x80 + c div 64 mod 64, 0x80 + c mod 64]
      else [0xF0 + c div 262144, 0x80 + c div 4096 mod 64, 0x80 + c div 64 mod 64, 0x80 + c mod 64])"

text \<open>\<open>s.encode("utf-8")\<close>: a lone surrogate cannot be encoded.\<close>

definition utf8_encode :: "code_points \<Rightarrow> exn + nat list" where
  "utf8_encode s =
     (if list_all is_scalar s then Inr (concat (map utf8_char s)) else Inl (ValueError ''UnicodeEncodeError''))"

text \<open>The length of the sequence a byte starts, 0 if it starts none.\<close>

definition sequence_length :: "nat \<Rightarrow> nat" where
  "sequence_length b =
     (if b < 0x80 then 1 else if b < 0xC2 then 0 else if b < 0xE0 then 2
      else if b < 0xF0 then 3 else if b < 0xF5 then 4 else 0)"

definition is_continuation :: "nat \<Rightarrow> bool" where
  "is_continuation b \<longleftrightarrow> 0x80 \<le> b \<and> b < 0xC0"

text \<open>
  \<open>bytes.decode("utf-8", errors="ignore")\<close> of a cut encoding: a byte that starts no complete
  sequence is dropped.  (Only prefixes of encoded text are ever decoded, so the further ranges a
  decoder checks for overlong forms do not matter.)
\<close>

function utf8_decode_ignore :: "nat list \<Rightarrow> code_points" where
  "utf8_decode_ignore [] = []"
| "utf8_decode_ignore (b # bs) =
     (let k = sequence_length b; tail = take (k - 1) bs
      in if k = 0 \<or> length bs < k - 1 \<or> \<not> list_all is_continuation tail then utf8_decode_ignore bs
         else (foldl (\<lambda>v c. v * 64 + (c - 0x80))
                 (if k = 1 then b else if k = 2 then b - 0xC0 else if k = 3 then b - 0xE0 else b - 0xF0) tail)
              # utf8_decode_ignore (drop (k - 1) bs))"
  by pat_completeness auto
termination by (relation "measure length") auto

section \<open>The file name\<close>

definition MAX_FILENAME_BYTES :: int where
  "MAX_FILENAME_BYTES = 180"

definition FORBIDDEN :: "nat list" where
  "FORBIDDEN = [0x2F, 0x5C, 0x3A, 0x2A, 0x3F, 0x22, 0x3C, 0x3E, 0x7C]"

definition in_ranges :: "(nat \<times> nat) list \<Rightarrow> nat \<Rightarrow> bool" where
  "in_ranges rs c = list_ex (\<lambda>(lo, hi). lo \<le> c \<and> c \<le> hi) rs"

definition DROPPED_CATEGORIES :: "(nat \<times> nat) list" where
  "DROPPED_CATEGORIES =
     [(0, 0x1F), (0x7F, 0x9F), (0xAD, 0xAD), (0x600, 0x605), (0x61C, 0x61C), (0x6DD, 0x6DD),
      (0x70F, 0x70F), (0x890, 0x891), (0x8E2, 0x8E2), (0x180E, 0x180E), (0x200B, 0x200F),
      (0x202A, 0x202E), (0x2060, 0x2064), (0x2066, 0x206F), (0xFEFF, 0xFEFF), (0xFFF9, 0xFFFB),
      (0x110BD, 0x110BD), (0x110CD, 0x110CD), (0x13430, 0x1343F), (0x1BCA0, 0x1BCA3),
      (0x1D173, 0x1D17A), (0xE0001, 0xE0001), (0xE0020, 0xE007F)]"

definition WHITESPACE :: "(nat \<times> nat) list" where
  "WHITESPACE =
     [(9, 0xD), (0x1C, 0x20), (0x85, 0x85), (0xA0, 0xA0), (0x1680, 0x1680), (0x2000, 0x200A),
      (0x2028, 0x2029), (0x202F, 0x202F), (0x205F, 0x205F), (0x3000, 0x3000)]"

definition is_trimmed :: "nat \<Rightarrow> bool" where
  "is_trimmed c \<longleftrightarrow> c = 0x20 \<or> c = 0x2E"

definition sanitize :: "(code_points \<Rightarrow> code_points) \<Rightarrow> code_points \<Rightarrow> code_points" where
  "sanitize nfc title =
     (let chars = map (\<lambda>ch. if ch \<in> set FORBIDDEN then 0x20 else ch)
                    (filter (\<lambda>ch. \<not> in_ranges DROPPED_CATEGORIES ch \<or> ch \<in> {9, 10, 13}) (nfc title))
      in strip_by is_trimmed (join [0x20] (split_ws (in_ranges WHITESPACE) chars)))"

definition truncate_utf8 :: "code_points \<Rightarrow> int \<Rightarrow> exn + code_points" where
  "truncate_utf8 s max_bytes =
     (case utf8_encode s of
        Inl e \<Rightarrow> Inl e
      | Inr encoded \<Rightarrow>
          if int (length encoded) \<le> max_bytes then Inr s
          else Inr (utf8_decode_ignore (take (nat (max max_bytes 0)) encoded)))"

definition delivery_filename ::
    "(code_points \<Rightarrow> code_points) \<Rightarrow> code_points option \<Rightarrow> path \<Rightarrow> exn + code_points" where
  "delivery_filename nfc title path =
     (let sfx = points (path_suffix path);
          stem = sanitize nfc (case title of None \<Rightarrow> [] | Some t \<Rightarrow> t)
      in case utf8_encode sfx of
           Inl e \<Rightarrow> Inl e
         | Inr sfx_bytes \<Rightarrow>
             (case truncate_utf8 stem (MAX_FILENAME_BYTES - int (length sfx_bytes)) of
                Inl e \<Rightarrow> Inl e
              | Inr shortened \<Rightarrow>
                  (let stem = strip_by is_trimmed shortened
                   in if stem = [] then Inr (points (path_name path)) else Inr (stem @ sfx))))"

section \<open>Decoding a cut encoding\<close>

lemma is_continuation_mod [simp]: "is_continuation (0x80 + c mod 64)"
  by (simp add: is_continuation_def)

lemma decode_char: "is_scalar c \<Longrightarrow> utf8_decode_ignore (utf8_char c @ bs) = c # utf8_decode_ignore bs"
proof -
  assume c: "is_scalar c"
  consider "c < 0x80" | "0x80 \<le> c" "c < 0x800" | "0x800 \<le> c" "c < 0x10000" | "0x10000 \<le> c" "c < 0x110000"
    using c by (fastforce simp: is_scalar_def)
  then show ?thesis
  proof cases
    case 1
    then show ?thesis by (simp add: utf8_char_def sequence_length_def)
  next
    case 2
    then have "2 \<le> c div 64" "c div 64 < 32" by (auto simp: less_mult_imp_div_less div_le_mono [of 128 c 64, simplified])
    then show ?thesis using 2 by (simp add: utf8_char_def sequence_length_def Let_def)
  next
    case 3
    then have d: "c div 4096 < 16" by (simp add: less_mult_imp_div_less)
    have "c div 4096 * 64 + c div 64 mod 64 = c div 64"
      using div_mult_mod_eq [of "c div 64" 64] by (simp add: div_mult2_eq [symmetric])
    then show ?thesis using 3 d by (simp add: utf8_char_def sequence_length_def Let_def)
  next
    case 4
    then have d: "c div 262144 < 5" by (simp add: less_mult_imp_div_less)
    have "c div 4096 * 64 + c div 64 mod 64 = c div 64"
      using div_mult_mod_eq [of "c div 64" 64] by (simp add: div_mult2_eq [symmetric])
    moreover have "c div 262144 * 64 + c div 4096 mod 64 = c div 4096"
      using div_mult_mod_eq [of "c div 4096" 64] by (simp add: div_mult2_eq [symmetric])
    ultimately show ?thesis using 4 d by (simp add: utf8_char_def sequence_length_def Let_def)
  qed
qed

lemma decode_continuations: "list_all is_continuation bs \<Longrightarrow> utf8_decode_ignore bs = []"
  by (induction bs) (auto simp: is_continuation_def sequence_length_def Let_def)

lemma utf8_char_shape:
  assumes "is_scalar c"
  shows "\<exists>lead conts. utf8_char c = lead # conts \<and> list_all is_continuation conts \<and>
           sequence_length lead = Suc (length conts)"
proof -
  consider "c < 0x80" | "0x80 \<le> c" "c < 0x800" | "0x800 \<le> c" "c < 0x10000" | "0x10000 \<le> c" "c < 0x110000"
    using assms by (fastforce simp: is_scalar_def)
  then show ?thesis
  proof cases
    case 1
    then show ?thesis by (simp add: utf8_char_def sequence_length_def)
  next
    case 2
    then have "2 \<le> c div 64" "c div 64 < 32" by (auto simp: less_mult_imp_div_less div_le_mono [of 128 c 64, simplified])
    then show ?thesis using 2 by (simp add: utf8_char_def sequence_length_def)
  next
    case 3
    then have "c div 4096 < 16" by (simp add: less_mult_imp_div_less)
    then show ?thesis using 3 by (simp add: utf8_char_def sequence_length_def)
  next
    case 4
    then have "c div 262144 < 5" by (simp add: less_mult_imp_div_less)
    then show ?thesis using 4 by (simp add: utf8_char_def sequence_length_def)
  qed
qed

lemma decode_partial:
  assumes "is_scalar c" and "n < length (utf8_char c)"
  shows "utf8_decode_ignore (take n (utf8_char c)) = []"
proof (cases n)
  case (Suc m)
  obtain lead conts where u: "utf8_char c = lead # conts" "list_all is_continuation conts"
      "sequence_length lead = Suc (length conts)"
    using utf8_char_shape [OF assms(1)] by blast
  have "list_all is_continuation (take m conts)"
    using u(2) by (auto simp: list_all_iff dest: in_set_takeD)
  then show ?thesis using decode_continuations assms(2) Suc u by (simp add: Let_def)
qed simp

lemma decode_cut:
  assumes "list_all is_scalar s"
  shows "\<exists>t. utf8_decode_ignore (take n (concat (map utf8_char s))) = t \<and> prefix t s \<and>
           length (concat (map utf8_char t)) \<le> n"
  using assms
proof (induction s arbitrary: n)
  case (Cons c s)
  show ?case
  proof (cases "n < length (utf8_char c)")
    case True
    then show ?thesis using decode_partial [of c n] Cons.prems by simp
  next
    case False
    then obtain m where m: "n = length (utf8_char c) + m" using le_Suc_ex by force
    obtain t where "utf8_decode_ignore (take m (concat (map utf8_char s))) = t" "prefix t s"
        "length (concat (map utf8_char t)) \<le> m"
      using Cons.IH [of m] Cons.prems by auto
    then show ?thesis using decode_char [of c] Cons.prems m by simp
  qed
qed simp


lemma length_utf8_char: "0 < length (utf8_char c) \<and> length (utf8_char c) \<le> 4"
  by (simp add: utf8_char_def)

lemma decode_cut_nonempty:
  assumes "list_all is_scalar s" and "s \<noteq> []" and "4 \<le> n"
  shows "\<exists>t. utf8_decode_ignore (take n (concat (map utf8_char s))) = hd s # t"
proof (cases s)
  case (Cons c cs)
  obtain m where "n = length (utf8_char c) + m"
    using length_utf8_char [of c] assms(3) le_Suc_ex by (metis le_trans le_add_diff_inverse)
  then show ?thesis using decode_char [of c] assms(1) Cons by simp
qed (use assms in simp)

section \<open>What the sanitizing leaves\<close>

lemma split_runs_sound:
  "\<forall>c \<in> set acc. \<not> sp c \<Longrightarrow>
     \<forall>w \<in> set (split_runs sp acc s). (\<forall>c \<in> set w. \<not> sp c) \<and> set w \<subseteq> set acc \<union> set s"
proof (induction s arbitrary: acc)
  case (Cons x xs)
  have nil: "\<forall>w \<in> set (split_runs sp [] xs). (\<forall>c \<in> set w. \<not> sp c) \<and> set w \<subseteq> set xs"
    using Cons.IH [of "[]"] by simp
  show ?case
  proof (cases "sp x")
    case True
    then show ?thesis using nil Cons.prems by (cases "acc = []") (simp_all, blast+)
  next
    case False
    then have "\<forall>c \<in> set (x # acc). \<not> sp c" using Cons.prems by simp
    from Cons.IH [OF this] show ?thesis using False by fastforce
  qed
qed simp

lemma set_join: "set (join sep ws) \<subseteq> set sep \<union> (\<Union>w \<in> set ws. set w)"
  by (induction sep ws rule: join.induct) auto

definition clean_point :: "nat \<Rightarrow> bool" where
  "clean_point c \<longleftrightarrow> c \<notin> set FORBIDDEN \<and> \<not> in_ranges DROPPED_CATEGORIES c \<and>
     (in_ranges WHITESPACE c \<longrightarrow> c = 0x20)"

lemma clean_space: "clean_point 0x20"
  by (simp add: clean_point_def FORBIDDEN_def in_ranges_def DROPPED_CATEGORIES_def)

lemma sanitize_clean: "c \<in> set (sanitize nfc t) \<Longrightarrow> clean_point c"
proof -
  let ?chars = "map (\<lambda>ch. if ch \<in> set FORBIDDEN then 0x20 else ch)
                  (filter (\<lambda>ch. \<not> in_ranges DROPPED_CATEGORIES ch \<or> ch \<in> {9, 10, 13}) (nfc t))"
  let ?words = "split_ws (in_ranges WHITESPACE) ?chars"
  assume "c \<in> set (sanitize nfc t)"
  then have "c \<in> set (strip_by is_trimmed (join [0x20] ?words))" by (simp only: sanitize_def Let_def)
  then have "c \<in> set (join [0x20] ?words)" using set_strip_by by (rule set_mp [rotated])
  then have "c \<in> set [0x20] \<union> (\<Union>w \<in> set ?words. set w)" using set_join by (rule set_mp [rotated])
  then consider "c = 0x20" | w where "w \<in> set ?words" "c \<in> set w" by auto
  then show ?thesis
  proof cases
    case 1
    then show ?thesis by (simp only: clean_space)
  next
    case 2
    then have ws: "\<not> in_ranges WHITESPACE c" and mem: "c \<in> set ?chars"
      using split_runs_sound [where acc = "[]" and sp = "in_ranges WHITESPACE" and s = ?chars] by (auto simp: split_ws_def)
    have "in_ranges WHITESPACE 9" "in_ranges WHITESPACE 10" "in_ranges WHITESPACE 13" "in_ranges WHITESPACE 0x20"
      by (simp_all add: in_ranges_def WHITESPACE_def)
    then show ?thesis using ws mem by (auto simp: clean_point_def split: if_splits)
  qed
qed

lemma strip_by_infix: "\<exists>a b. s = a @ strip_by P s @ b"
proof -
  have "s = takeWhile P s @ lstrip_by P s" by (simp add: lstrip_by_def)
  moreover obtain b where "lstrip_by P s = rstrip_by P (lstrip_by P s) @ b"
    using rstrip_by_prefix [of "lstrip_by P s" P] by blast
  ultimately show ?thesis by (metis strip_by_def)
qed

lemma strip_by_bytes: "length (concat (map utf8_char (strip_by P s))) \<le> length (concat (map utf8_char s))"
proof -
  obtain a b where "s = a @ strip_by P s @ b" using strip_by_infix by blast
  then have "concat (map utf8_char s) =
      concat (map utf8_char a) @ concat (map utf8_char (strip_by P s)) @ concat (map utf8_char b)"
    by (metis concat_append map_append)
  then show ?thesis by simp
qed

lemma truncate_spec:
  assumes "truncate_utf8 s n = Inr t"
  shows "list_all is_scalar s \<and> prefix t s \<and> int (length (concat (map utf8_char t))) \<le> max n 0 \<and>
     (int (length (concat (map utf8_char s))) \<le> n \<longrightarrow> t = s) \<and> (s \<noteq> [] \<and> 4 \<le> n \<longrightarrow> t \<noteq> [] \<and> hd t = hd s)"
proof -
  have sc: "list_all is_scalar s" using assms by (auto simp: truncate_utf8_def utf8_encode_def split: if_splits)
  show ?thesis
  proof (cases "int (length (concat (map utf8_char s))) \<le> n")
    case True
    then show ?thesis using assms sc by (simp add: truncate_utf8_def utf8_encode_def)
  next
    case False
    let ?n = "nat (max n 0)"
    have t: "t = utf8_decode_ignore (take ?n (concat (map utf8_char s)))"
      using assms sc False by (simp add: truncate_utf8_def utf8_encode_def)
    have "prefix t s" "length (concat (map utf8_char t)) \<le> ?n"
      using decode_cut [OF sc, of ?n] t by auto
    moreover have "t \<noteq> [] \<and> hd t = hd s" if ne: "s \<noteq> []" and four: "4 \<le> n"
    proof -
      have "4 \<le> ?n" using four by simp
      then obtain u where "t = hd s # u" using decode_cut_nonempty [OF sc ne] t by blast
      then show ?thesis by simp
    qed
    ultimately show ?thesis using sc False by auto
  qed
qed

section \<open>Properties\<close>

text \<open>C40: a delivered name is the on-disk name or a sanitized title with the file's own
  extension: without a path separator, a character Windows forbids, a control or invisible
  character or odd whitespace, with no dot or blank at either end of the title, and at most 180
  bytes long in UTF-8, however the title was chosen.\<close>

theorem delivery_filename_safe:
  assumes "delivery_filename nfc title path = Inr name"
  shows "name = points (path_name path) \<or>
     (\<exists>stem. name = stem @ points (path_suffix path) \<and> stem \<noteq> [] \<and>
        (\<forall>c \<in> set stem. clean_point c) \<and> \<not> is_trimmed (hd stem) \<and> \<not> is_trimmed (last stem) \<and>
        int (length (concat (map utf8_char name))) \<le> MAX_FILENAME_BYTES)"
proof -
  let ?sfx = "points (path_suffix path)"
  let ?san = "sanitize nfc (case title of None \<Rightarrow> [] | Some t \<Rightarrow> t)"
  let ?budget = "MAX_FILENAME_BYTES - int (length (concat (map utf8_char ?sfx)))"
  obtain t where t: "truncate_utf8 ?san ?budget = Inr t"
      and name: "name = (if strip_by is_trimmed t = [] then points (path_name path)
                         else strip_by is_trimmed t @ ?sfx)"
    using assms by (auto simp: delivery_filename_def Let_def utf8_encode_def split: sum.splits if_splits)
  note spec = truncate_spec [OF t]
  show ?thesis
  proof (cases "strip_by is_trimmed t = []")
    case True
    then show ?thesis using name by simp
  next
    case False
    let ?stem = "strip_by is_trimmed t"
    have "set ?stem \<subseteq> set ?san" using set_strip_by [of is_trimmed t] spec set_mono_prefix by blast
    then have clean: "\<forall>c \<in> set ?stem. clean_point c" using sanitize_clean by blast
    have "0 < length (concat (map utf8_char t))"
    proof -
      have "t \<noteq> []" using False by (auto simp: strip_by_def lstrip_by_def rstrip_by_def)
      then show ?thesis using length_utf8_char [of "hd t"] by (cases t) auto
    qed
    moreover have fits: "int (length (concat (map utf8_char t))) \<le> max ?budget 0" using spec by blast
    ultimately have "int (length (concat (map utf8_char t))) \<le> ?budget" by linarith
    moreover have "name = ?stem @ ?sfx" using name False by simp
    ultimately have "int (length (concat (map utf8_char name))) \<le> MAX_FILENAME_BYTES"
      using strip_by_bytes [of is_trimmed t] by simp
    then show ?thesis
      using name False clean strip_by_nonempty_ends [OF False] by auto
  qed
qed

lemma example_sanitized:
  "sanitize (\<lambda>x. x) [0x61, 0x3A, 0x62, 0x20] = [0x61, 0x20, 0x62]"
  by (simp add: sanitize_def FORBIDDEN_def in_ranges_def DROPPED_CATEGORIES_def WHITESPACE_def split_ws_def
      is_trimmed_def strip_by_def lstrip_by_def rstrip_by_def)

lemma example_suffix: "path_suffix [''d'', ''x.mp4''] = ''.mp4''"
  by code_simp

lemma example_name:
  "delivery_filename (\<lambda>x. x) (Some [0x61, 0x3A, 0x62, 0x20]) [''d'', ''x.mp4'']
     = Inr [0x61, 0x20, 0x62, 0x2E, 0x6D, 0x70, 0x34]"
  by (simp add: delivery_filename_def example_sanitized example_suffix points_def truncate_utf8_def
      utf8_encode_def is_scalar_def utf8_char_def MAX_FILENAME_BYTES_def is_trimmed_def strip_by_def
      lstrip_by_def rstrip_by_def)

theorem delivery_filename_safe_witness:
  "delivery_filename (\<lambda>x. x) (Some [0x61, 0x3A, 0x62, 0x20]) [''d'', ''x.mp4'']
     = Inr [0x61, 0x20, 0x62, 0x2E, 0x6D, 0x70, 0x34] \<and>
   ([0x61, 0x20, 0x62, 0x2E, 0x6D, 0x70, 0x34] = points (path_name [''d'', ''x.mp4'']) \<or>
    int (length (concat (map utf8_char [0x61, 0x20, 0x62, 0x2E, 0x6D, 0x70, 0x34]))) \<le> MAX_FILENAME_BYTES)"
  using delivery_filename_safe [OF example_name] example_name by blast

text \<open>A usable title is always used: whenever sanitizing leaves anything and the extension
  leaves room, the name starts with the sanitized title's first character, and a title that
  fits is kept whole; a cut never splits a character.\<close>

theorem usable_title_is_used:
  assumes "delivery_filename nfc title path = Inr name"
    and "sanitize nfc (case title of None \<Rightarrow> [] | Some t \<Rightarrow> t) = san" and "san \<noteq> []"
    and "length (concat (map utf8_char (points (path_suffix path)))) \<le> 176"
  shows "\<exists>stem. name = stem @ points (path_suffix path) \<and> stem \<noteq> [] \<and> prefix stem san \<and>
     (int (length (concat (map utf8_char (san @ points (path_suffix path))))) \<le> MAX_FILENAME_BYTES
        \<longrightarrow> stem = san)"
proof -
  let ?sfx = "points (path_suffix path)"
  let ?budget = "MAX_FILENAME_BYTES - int (length (concat (map utf8_char ?sfx)))"
  obtain t where t: "truncate_utf8 san ?budget = Inr t"
      and name: "name = (if strip_by is_trimmed t = [] then points (path_name path)
                         else strip_by is_trimmed t @ ?sfx)"
    using assms(1,2) by (auto simp: delivery_filename_def Let_def utf8_encode_def split: sum.splits if_splits)
  note spec = truncate_spec [OF t]
  have san: "strip_by is_trimmed san = san" using assms(2) by (auto simp: sanitize_def Let_def)
  have "4 \<le> ?budget" using assms(4) by (simp add: MAX_FILENAME_BYTES_def)
  then have t_hd: "t \<noteq> []" "hd t = hd san" using spec assms(3) by auto
  have "\<not> is_trimmed (hd t)" using strip_by_nonempty_ends [of is_trimmed san] san assms(3) t_hd by simp
  then have l: "lstrip_by is_trimmed t = t" by (simp add: lstrip_by_id)
  have pre: "prefix (strip_by is_trimmed t) t"
    using rstrip_by_prefix [of t is_trimmed] by (auto simp: strip_by_def l prefix_def)
  have ne: "strip_by is_trimmed t \<noteq> []"
  proof
    assume "strip_by is_trimmed t = []"
    then obtain b where "t = b" "\<forall>x \<in> set b. is_trimmed x"
      using rstrip_by_prefix [of t is_trimmed] by (auto simp: strip_by_def l)
    then show False using \<open>\<not> is_trimmed (hd t)\<close> t_hd(1) by (metis list.set_sel(1))
  qed
  have "prefix (strip_by is_trimmed t) san" using pre spec prefix_order.order_trans by blast
  moreover have "strip_by is_trimmed t = san"
    if "int (length (concat (map utf8_char (san @ ?sfx)))) \<le> MAX_FILENAME_BYTES"
    using spec that san by auto
  ultimately show ?thesis using name ne by auto
qed

theorem usable_title_is_used_witness:
  "\<exists>stem. delivery_filename (\<lambda>x. x) (Some [0x61, 0x3A, 0x62, 0x20]) [''d'', ''x.mp4'']
       = Inr (stem @ points ''.mp4'') \<and> stem \<noteq> [] \<and> prefix stem [0x61, 0x20, 0x62]"
proof -
  have s: "sanitize (\<lambda>x. x) (case Some [0x61, 0x3A, 0x62, 0x20] of None \<Rightarrow> [] | Some t \<Rightarrow> t)
             = [0x61, 0x20, 0x62]"
    by (simp add: example_sanitized)
  have l: "length (concat (map utf8_char (points (path_suffix [''d'', ''x.mp4''])))) \<le> 176"
    by (simp add: example_suffix points_def utf8_char_def)
  obtain stem where "[0x61, 0x20, 0x62, 0x2E, 0x6D, 0x70, 0x34] = stem @ points (path_suffix [''d'', ''x.mp4''])"
      "stem \<noteq> []" "prefix stem [0x61, 0x20, 0x62]"
    using usable_title_is_used [OF example_name s _ l] by blast
  then show ?thesis using example_name by (metis example_suffix)
qed

end
