(* ===== verification/Delivery.thy ===== *)
theory Delivery
  imports DeliveryFilename Downloader
begin

text \<open>
  Delivering a finished download: \<open>DeliverableMedia\<close> (\<open>src/domain/value_objects/deliverable_media.py\<close>),
  \<open>TelegramNotifier\<close> (\<open>src/infrastructure/notifier/telegram_notifier.py\<close>),
  \<open>RedisProgressPublisher\<close> and \<open>FluentErrorLocalizer\<close>.

  Telegram is the record \<open>telegram\<close>: the calls it accepted so far, how many calls were made, and
  what the n-th call answers (\<open>None\<close>: success).  Which exceptions are \<open>TelegramAPIError\<close>s is
  aiogram's to say: \<open>tg_api_error\<close>.  A call that raises counts as not delivered.
\<close>

section \<open>DeliverableMedia\<close>

record deliverable_media =
  dm_path :: path
  dm_kind :: format_kind
  dm_width :: "int option"
  dm_height :: "int option"
  dm_duration :: "int option"
  dm_title :: "string option"
  dm_performer :: "string option"

definition from_result :: "download_result \<Rightarrow> format_kind \<Rightarrow> deliverable_media" where
  "from_result result kind =
     \<lparr>dm_path = result_path result, dm_kind = kind,
      dm_width = (if kind = VIDEO then result_width result else None),
      dm_height = (if kind = VIDEO then result_height result else None),
      dm_duration = result_duration result, dm_title = result_title result,
      dm_performer = result_uploader result\<rparr>"

definition media_filename :: "(code_points \<Rightarrow> code_points) \<Rightarrow> deliverable_media \<Rightarrow> exn + code_points" where
  "media_filename nfc m = delivery_filename nfc (map_option points (dm_title m)) (dm_path m)"

definition is_playable_video :: "deliverable_media \<Rightarrow> bool" where
  "is_playable_video m \<longleftrightarrow>
     dm_kind m = VIDEO \<and> None \<notin> {dm_width m, dm_height m, dm_duration m}"

definition is_playable_audio :: "deliverable_media \<Rightarrow> bool" where
  "is_playable_audio m \<longleftrightarrow> dm_kind m = AUDIO \<and> dm_duration m \<noteq> None"

lemmas media_defs = from_result_def media_filename_def is_playable_video_def is_playable_audio_def

section \<open>Telegram\<close>

text \<open>An \<open>FSInputFile\<close>: the file on disk and the name the recipient sees.\<close>

datatype upload = FSInputFile (upload_path: path) (upload_name: code_points)

datatype tg_call =
    SendVideo int upload "int option" "int option" "int option" bool "string option" int
  | SendAudio int upload "int option" "string option" "string option" "string option" int
  | SendDocument int upload "string option" int
  | SendMessage int string

record telegram =
  tg_accepted :: "tg_call list"
  tg_attempts :: nat
  tg_answer :: "nat \<Rightarrow> exn option"
  tg_api_error :: "exn \<Rightarrow> bool"
  tg_log :: "string list"

type_synonym 'a tgio = "(telegram, exn, 'a) io"

definition bot_call :: "tg_call \<Rightarrow> unit tgio" where
  "bot_call c =
     bindE (askE (\<lambda>t. tg_answer t (tg_attempts t))) (\<lambda>answer.
       thenE (tellE (\<lambda>t. t\<lparr>tg_attempts := tg_attempts t + 1\<rparr>))
         (case answer of
            Some e \<Rightarrow> raiseE e
          | None \<Rightarrow> tellE (\<lambda>t. t\<lparr>tg_accepted := tg_accepted t @ [c]\<rparr>)))"

definition log_tg :: "string \<Rightarrow> unit tgio" where
  "log_tg event = tellE (\<lambda>t. t\<lparr>tg_log := tg_log t @ [event]\<rparr>)"

text \<open>\<open>f"{x:.1f}"\<close> of a non-negative quotient that a float represents exactly.\<close>

definition fixed_1 :: "rat \<Rightarrow> string" where
  "fixed_1 q = (let n = round_half_even (q * 10) in show_int (n div 10) @ ''.'' @ show_int (n mod 10))"

section \<open>TelegramNotifier\<close>

record telegram_notifier =
  tn_max_file_size_bytes :: int
  tn_file_upload_timeout_seconds :: int

text \<open>The call \<open>send_file\<close> makes for a media, chosen by what is known about the file.\<close>

definition media_call ::
    "telegram_notifier \<Rightarrow> int \<Rightarrow> deliverable_media \<Rightarrow> upload \<Rightarrow> string option \<Rightarrow> tg_call" where
  "media_call tn chat m upload safe_caption =
     (if is_playable_video m then
        SendVideo chat upload (dm_width m) (dm_height m) (dm_duration m) True safe_caption
          (tn_file_upload_timeout_seconds tn)
      else if is_playable_audio m then
        SendAudio chat upload (dm_duration m) (dm_title m) (dm_performer m) safe_caption
          (tn_file_upload_timeout_seconds tn)
      else SendDocument chat upload safe_caption (tn_file_upload_timeout_seconds tn))"

definition translate_api_error :: "string \<Rightarrow> 'a tgio \<Rightarrow> 'a tgio" where
  "translate_api_error event m =
     bindE (askE tg_api_error) (\<lambda>api_error.
       try_except m
         (\<lambda>e. if api_error e then Some (thenE (log_tg event) (raiseE (NotifierError (exn_str e))))
              else None))"

text \<open>
  \<open>send_file\<close>.  \<open>stat_size\<close> is \<open>Path.stat().st_size\<close>; the texts of the exception are in English
  where the code's are in Russian.  \<open>caption\<close> is used as a truth value, so an empty one is none.
\<close>

definition send_file ::
    "(code_points \<Rightarrow> code_points) \<Rightarrow> (path \<Rightarrow> exn + int) \<Rightarrow> telegram_notifier \<Rightarrow> int \<Rightarrow>
     deliverable_media \<Rightarrow> string option \<Rightarrow> unit tgio" where
  "send_file nfc stat_size tn chat m caption =
     bindE (liftE (stat_size (dm_path m))) (\<lambda>size_bytes.
       if size_bytes > tn_max_file_size_bytes tn then
         raiseE (NotifierError
           (''file too large for Telegram ('' @ fixed_1 (of_int size_bytes / (1024 * 1024)) @ '' MB, limit '' @
            show_int (tn_max_file_size_bytes tn div (1024 * 1024)) @ '' MB)''))
       else
         bindE (liftE (media_filename nfc m)) (\<lambda>name.
           let upload = FSInputFile (dm_path m) name;
               safe_caption = (case caption of None \<Rightarrow> None
                               | Some t \<Rightarrow> if t = [] then None else Some (html_escape t))
           in thenE
                (translate_api_error ''notifier_send_file_failed''
                   (bot_call (media_call tn chat m upload safe_caption)))
                (log_tg ''notifier_file_sent'')))"

definition send_text :: "int \<Rightarrow> string \<Rightarrow> unit tgio" where
  "send_text chat txt =
     translate_api_error ''notifier_send_text_failed'' (bot_call (SendMessage chat (html_escape txt)))"

section \<open>RedisProgressPublisher\<close>

text \<open>Redis pub/sub: what was published so far, and what the n-th command answers.\<close>

record pubsub =
  pub_messages :: "(string \<times> payload) list"
  pub_commands :: nat
  pub_answer :: "nat \<Rightarrow> exn option"

type_synonym 'a pubio = "(pubsub, exn, 'a) io"

definition CHANNEL_PREFIX :: string where
  "CHANNEL_PREFIX = ''umd:progress:''"

definition redis_publish :: "string \<Rightarrow> payload \<Rightarrow> unit pubio" where
  "redis_publish channel message =
     bindE (askE (\<lambda>p. pub_answer p (pub_commands p))) (\<lambda>answer.
       thenE (tellE (\<lambda>p. p\<lparr>pub_commands := pub_commands p + 1\<rparr>))
         (case answer of
            Some e \<Rightarrow> raiseE e
          | None \<Rightarrow> tellE (\<lambda>p. p\<lparr>pub_messages := pub_messages p @ [(channel, message)]\<rparr>)))"

text \<open>\<open>asdict(progress)\<close> with the routing fields; a phase is a \<open>StrEnum\<close>.\<close>

definition progress_payload :: "int \<Rightarrow> int \<Rightarrow> string option \<Rightarrow> download_progress \<Rightarrow> pyval" where
  "progress_payload chat_id message_id language p =
     PDict [(''percent'', opt_float (progress_percent p)),
            (''downloaded_bytes'', PInt (progress_downloaded p)),
            (''total_bytes'', opt_int (progress_total p)),
            (''speed'', opt_float (progress_speed p)),
            (''eta'', opt_int (progress_eta p)),
            (''phase'', PStr (phase_value (progress_phase_of p))),
            (''chat_id'', PInt chat_id), (''message_id'', PInt message_id),
            (''language'', opt_str language)]"

definition redis_publish_progress ::
    "uuid \<Rightarrow> int \<Rightarrow> int \<Rightarrow> string option \<Rightarrow> download_progress \<Rightarrow> unit pubio" where
  "redis_publish_progress rid chat_id message_id language p =
     bindE (liftE (json_dumps (progress_payload chat_id message_id language p))) (\<lambda>text.
       redis_publish (CHANNEL_PREFIX @ show_nat rid) text)"

section \<open>FluentErrorLocalizer\<close>

text \<open>\<open>core_get\<close> is \<open>FluentRuntimeCore.get\<close> with an explicit locale; it raises for a missing key.\<close>

type_synonym fluent_get = "string \<Rightarrow> string \<Rightarrow> (string \<times> int) list \<Rightarrow> exn + string"

record fluent_localizer =
  fl_core_get :: fluent_get
  fl_default_locale :: string
  fl_supported :: "string list"

definition resolve_locale :: "fluent_localizer \<Rightarrow> string option \<Rightarrow> string" where
  "resolve_locale fl locale =
     (case locale of None \<Rightarrow> fl_default_locale fl
      | Some l \<Rightarrow> if l \<in> set (fl_supported fl) then l else fl_default_locale fl)"

definition fluent_localize ::
    "fluent_localizer \<Rightarrow> string \<Rightarrow> string option \<Rightarrow> (string \<times> int) list \<Rightarrow> exn + string" where
  "fluent_localize fl key locale args = fl_core_get fl key (resolve_locale fl locale) args"

section \<open>What was delivered\<close>

text \<open>The files and the texts among the accepted calls.\<close>

fun call_file :: "tg_call \<Rightarrow> (int \<times> path) option" where
  "call_file (SendVideo chat u _ _ _ _ _ _) = Some (chat, upload_path u)"
| "call_file (SendAudio chat u _ _ _ _ _) = Some (chat, upload_path u)"
| "call_file (SendDocument chat u _ _) = Some (chat, upload_path u)"
| "call_file (SendMessage _ _) = None"

fun call_text :: "tg_call \<Rightarrow> (int \<times> string) option" where
  "call_text (SendMessage chat t) = Some (chat, t)"
| "call_text _ = None"

definition tg_files :: "telegram \<Rightarrow> (int \<times> path) list" where
  "tg_files t = List.map_filter call_file (tg_accepted t)"

definition tg_texts :: "telegram \<Rightarrow> (int \<times> string) list" where
  "tg_texts t = List.map_filter call_text (tg_accepted t)"

lemma tg_views_simps [simp]:
  "tg_files (t\<lparr>tg_attempts := n\<rparr>) = tg_files t" "tg_texts (t\<lparr>tg_attempts := n\<rparr>) = tg_texts t"
  "tg_files (t\<lparr>tg_log := l\<rparr>) = tg_files t" "tg_texts (t\<lparr>tg_log := l\<rparr>) = tg_texts t"
  by (simp_all add: tg_files_def tg_texts_def)

lemma call_file_media [simp]:
  "call_file (media_call tn chat m u c) = Some (chat, upload_path u)" "call_text (media_call tn chat m u c) = None"
  by (simp_all add: media_call_def)

lemma map_filter_snoc: "List.map_filter f (xs @ [x]) = List.map_filter f xs @ (case f x of None \<Rightarrow> [] | Some y \<Rightarrow> [y])"
  by (simp add: map_filter_def split: option.split)

lemma send_file_cases:
  assumes "send_file nfc stat_size tn chat m caption t = (r, t')"
  shows "(r = Inr () \<longrightarrow> tg_files t' = tg_files t @ [(chat, dm_path m)]) \<and>
     (r \<noteq> Inr () \<longrightarrow> tg_files t' = tg_files t) \<and> tg_texts t' = tg_texts t"
  using assms
  by (auto simp: send_file_def translate_api_error_def bot_call_def log_tg_def io_simps Let_def
      tg_files_def tg_texts_def map_filter_snoc split: sum.splits if_splits option.splits)

lemma send_text_cases:
  assumes "send_text chat txt t = (r, t')"
  shows "(r = Inr () \<longrightarrow> tg_texts t' = tg_texts t @ [(chat, html_escape txt)]) \<and>
     (r \<noteq> Inr () \<longrightarrow> tg_texts t' = tg_texts t) \<and> tg_files t' = tg_files t"
  using assms
  by (auto simp: send_text_def translate_api_error_def bot_call_def log_tg_def io_simps Let_def
      tg_files_def tg_texts_def map_filter_snoc split: sum.splits if_splits option.splits)

end
