(* ===== verification/Ports.thy ===== *)
theory Ports
  imports Delivery DownloadRun
begin

text \<open>
  The domain's interfaces (\<open>src/domain/interfaces\<close>), one record of operations per protocol, over
  an arbitrary world.  A use case is given the records it is constructed with; its lemmas need only
  the laws of the locales stated beside it, and the adapters of the program discharge those laws.
\<close>

section \<open>The protocols\<close>

record 'w request_repository =
  rr_get_by_id :: "uuid \<Rightarrow> ('w, exn, download_request option) io"
  rr_create :: "download_request \<Rightarrow> ('w, exn, download_request) io"
  rr_update :: "download_request \<Rightarrow> ('w, exn, unit) io"
  rr_mark_failed_by_id :: "uuid \<Rightarrow> ('w, exn, unit) io"
  rr_claim_for_processing :: "uuid \<Rightarrow> ('w, exn, bool) io"
  rr_fail_stale :: "time \<Rightarrow> nat \<Rightarrow> ('w, exn, stale_request list) io"
  rr_list_by_user :: "uuid \<Rightarrow> nat \<Rightarrow> ('w, exn, download_request list) io"

record 'w user_repository =
  ur_get_by_id :: "uuid \<Rightarrow> ('w, exn, user option) io"
  ur_get_by_telegram_id :: "int \<Rightarrow> ('w, exn, user option) io"
  ur_create :: "user \<Rightarrow> ('w, exn, user) io"
  ur_set_language :: "int \<Rightarrow> string option \<Rightarrow> ('w, exn, user option) io"

record 'w downloader_port =
  dp_get_preview :: "string \<Rightarrow> ('w, exn, media_preview) io"
  dp_download :: "string \<Rightarrow> download_options \<Rightarrow> 'w progress_callback option \<Rightarrow> ('w, exn, download_result) io"

record 'w storage_port =
  sp_temp_dir_for_request :: "uuid \<Rightarrow> ('w, exn, path) io"
  sp_release :: "uuid \<Rightarrow> ('w, exn, unit) io"
  sp_available_bytes :: "('w, exn, int) io"
  sp_cleanup_expired :: "int \<Rightarrow> ('w, exn, nat) io"

record 'w notifier_port =
  np_send_file :: "int \<Rightarrow> deliverable_media \<Rightarrow> string option \<Rightarrow> ('w, exn, unit) io"
  np_send_text :: "int \<Rightarrow> string \<Rightarrow> ('w, exn, unit) io"

text \<open>\<open>ErrorLocalizerPort.localize\<close> is synchronous and has no effects.\<close>

type_synonym error_localizer = "string \<Rightarrow> string option \<Rightarrow> (string \<times> int) list \<Rightarrow> exn + string"

type_synonym 'w progress_publisher =
  "uuid \<Rightarrow> int \<Rightarrow> int \<Rightarrow> string option \<Rightarrow> download_progress \<Rightarrow> ('w, exn, unit) io"

record 'w task_queue =
  tq_enqueue_ping :: "string \<Rightarrow> ('w, exn, string) io"
  tq_enqueue_download :: "uuid \<Rightarrow> int \<Rightarrow> int \<Rightarrow> ('w, exn, string) io"

text \<open>What every use case reaches without a port: the clock and the logger.\<close>

record 'w runtime =
  rt_now :: "'w \<Rightarrow> time"
  rt_log :: "string \<Rightarrow> uuid \<Rightarrow> ('w, exn, unit) io"

section \<open>Quiet operations\<close>

text \<open>
  \<open>quiet ok view m\<close>: in every world of \<open>ok\<close>, \<open>m\<close> stays in \<open>ok\<close> and does not change what \<open>view\<close>
  shows, whether it returns or raises.
\<close>

definition quiet :: "('w \<Rightarrow> bool) \<Rightarrow> ('w \<Rightarrow> 'v) \<Rightarrow> ('w, 'e, 'a) io \<Rightarrow> bool" where
  "quiet ok view m \<longleftrightarrow> (\<forall>w. ok w \<longrightarrow> ok (snd (m w)) \<and> view (snd (m w)) = view w)"

lemma quietI:
  "(\<And>w r w'. ok w \<Longrightarrow> m w = (r, w') \<Longrightarrow> ok w' \<and> view w' = view w) \<Longrightarrow> quiet ok view m"
  unfolding quiet_def by (metis prod.collapse)

lemma quietD: "quiet ok view m \<Longrightarrow> ok w \<Longrightarrow> m w = (r, w') \<Longrightarrow> ok w' \<and> view w' = view w"
  unfolding quiet_def by (metis snd_conv)

lemma quiet_retE [simp, intro]: "quiet ok view (retE x)"
  and quiet_raiseE [simp, intro]: "quiet ok view (raiseE e)"
  and quiet_askE [simp, intro]: "quiet ok view (askE f)"
  and quiet_liftE [simp, intro]: "quiet ok view (liftE r)"
  by (simp_all add: quiet_def io_simps)

lemma bindE_world:
  "snd (bindE m f w) = (case fst (m w) of Inl _ \<Rightarrow> snd (m w) | Inr x \<Rightarrow> snd (f x (snd (m w))))"
  by (simp add: bindE_def split: prod.split sum.split)

lemma try_except_world:
  "snd (try_except m handler w) =
     (case fst (m w) of
        Inl e \<Rightarrow> (case handler e of None \<Rightarrow> snd (m w) | Some h \<Rightarrow> snd (h (snd (m w))))
      | Inr _ \<Rightarrow> snd (m w))"
  by (simp add: try_except_def split: prod.split sum.split option.split)

lemma quiet_bindE [intro]:
  "quiet ok view m \<Longrightarrow> (\<And>x. quiet ok view (f x)) \<Longrightarrow> quiet ok view (bindE m f)"
  by (simp add: quiet_def bindE_world split: sum.split)

lemma quiet_thenE [intro]: "quiet ok view m \<Longrightarrow> quiet ok view n \<Longrightarrow> quiet ok view (thenE m n)"
  unfolding thenE_def by (rule quiet_bindE)

lemma quiet_try_except [intro]:
  "quiet ok view m \<Longrightarrow> (\<And>e h. handler e = Some h \<Longrightarrow> quiet ok view h) \<Longrightarrow>
     quiet ok view (try_except m handler)"
  by (simp add: quiet_def try_except_world split: sum.split option.split)

lemma quiet_finallyE [intro]: "quiet ok view m \<Longrightarrow> quiet ok view f \<Longrightarrow> quiet ok view (finallyE m f)"
  by (simp add: quiet_def finallyE_world)

lemma quiet_forE [intro]: "(\<And>x. quiet ok view (f x)) \<Longrightarrow> quiet ok view (forE f xs)"
  by (induction xs) auto

lemma quiet_tellE: "(\<And>w. ok w \<Longrightarrow> ok (g w) \<and> view (g w) = view w) \<Longrightarrow> quiet ok view (tellE g)"
  by (simp add: quiet_def io_simps)

section \<open>Triples\<close>

text \<open>
  \<open>triple ok view P m Q\<close>: from a world of \<open>ok\<close> that shows \<open>P\<close>, \<open>m\<close> ends in a world of \<open>ok\<close> that
  shows \<open>Q r\<close>, where \<open>r\<close> is the outcome, an exception included.
\<close>

definition triple ::
    "('w \<Rightarrow> bool) \<Rightarrow> ('w \<Rightarrow> 'v) \<Rightarrow> ('v \<Rightarrow> bool) \<Rightarrow> ('w, 'e, 'a) io \<Rightarrow> ('e + 'a \<Rightarrow> 'v \<Rightarrow> bool) \<Rightarrow> bool" where
  "triple ok view P m Q \<longleftrightarrow>
     (\<forall>w. ok w \<and> P (view w) \<longrightarrow> ok (snd (m w)) \<and> Q (fst (m w)) (view (snd (m w))))"

lemma tripleI:
  "(\<And>w r w'. ok w \<Longrightarrow> P (view w) \<Longrightarrow> m w = (r, w') \<Longrightarrow> ok w' \<and> Q r (view w')) \<Longrightarrow> triple ok view P m Q"
  unfolding triple_def by (metis prod.collapse)

lemma tripleD:
  "triple ok view P m Q \<Longrightarrow> ok w \<Longrightarrow> P (view w) \<Longrightarrow> m w = (r, w') \<Longrightarrow> ok w' \<and> Q r (view w')"
  unfolding triple_def by (metis fst_conv snd_conv)

lemma triple_post:
  "triple ok view P m Q \<Longrightarrow> (\<And>r v. Q r v \<Longrightarrow> R r v) \<Longrightarrow> triple ok view P m R"
  unfolding triple_def by blast

lemma triple_pre:
  "triple ok view P m Q \<Longrightarrow> (\<And>v. R v \<Longrightarrow> P v) \<Longrightarrow> triple ok view R m Q"
  unfolding triple_def by blast

lemma triple_retE: "(\<And>v. P v \<Longrightarrow> Q (Inr x) v) \<Longrightarrow> triple ok view P (retE x) Q"
  by (simp add: triple_def io_simps)

lemma triple_quiet:
  "quiet ok view m \<Longrightarrow> (\<And>r v. P v \<Longrightarrow> Q r v) \<Longrightarrow> triple ok view P m Q"
  by (simp add: triple_def quiet_def)

lemma triple_bindE:
  assumes "triple ok view P m Q" and "\<And>e v. Q (Inl e) v \<Longrightarrow> R (Inl e) v"
    and "\<And>x. triple ok view (Q (Inr x)) (f x) R"
  shows "triple ok view P (bindE m f) R"
  using assms unfolding triple_def bindE_world by (fastforce simp: bindE_def split: prod.split sum.split)

lemma triple_thenE:
  assumes "triple ok view P m Q" and "\<And>e v. Q (Inl e) v \<Longrightarrow> R (Inl e) v"
    and "\<And>x. triple ok view (Q (Inr x)) n R"
  shows "triple ok view P (thenE m n) R"
  unfolding thenE_def using assms by (rule triple_bindE)

lemma triple_try_except:
  assumes "triple ok view P m Q" and "\<And>x v. Q (Inr x) v \<Longrightarrow> R (Inr x) v"
    and "\<And>e v. handler e = None \<Longrightarrow> Q (Inl e) v \<Longrightarrow> R (Inl e) v"
    and "\<And>e h. handler e = Some h \<Longrightarrow> triple ok view (Q (Inl e)) h R"
  shows "triple ok view P (try_except m handler) R"
proof (rule tripleI)
  fix w r w'
  assume w: "ok w" "P (view w)" and run: "try_except m handler w = (r, w')"
  obtain r1 w1 where m1: "m w = (r1, w1)" by fastforce
  from tripleD [OF assms(1) w m1] have w1: "ok w1" "Q r1 (view w1)" by simp_all
  show "ok w' \<and> R r (view w')"
  proof (cases r1)
    case (Inl e)
    show ?thesis
    proof (cases "handler e")
      case None
      then show ?thesis using run m1 Inl w1 assms(3) [of e "view w1"] by (auto simp: try_except_def)
    next
      case (Some h)
      then have "h w1 = (r, w')" using run m1 Inl by (simp add: try_except_def)
      then show ?thesis using tripleD [OF assms(4) [OF Some]] w1 Inl by blast
    qed
  next
    case (Inr x)
    then show ?thesis using run m1 w1 assms(2) [of x "view w1"] by (auto simp: try_except_def)
  qed
qed

text \<open>A clause that never raises and is quiet leaves a \<open>finally\<close>'s outcome alone.\<close>

lemma triple_finallyE:
  assumes "triple ok view P m Q" and "quiet ok view f" and "\<And>w. ok w \<Longrightarrow> fst (f w) = Inr ()"
  shows "triple ok view P (finallyE m f) Q"
proof (rule tripleI)
  fix w r w'
  assume w: "ok w" "P (view w)" and run: "finallyE m f w = (r, w')"
  obtain r1 w1 where m1: "m w = (r1, w1)" by fastforce
  from tripleD [OF assms(1) w m1] have w1: "ok w1" "Q r1 (view w1)" by simp_all
  obtain w2 where f: "f w1 = (Inr (), w2)" using assms(3) [OF w1(1)] by (metis prod.collapse)
  with quietD [OF assms(2) w1(1) f] run m1 w1 show "ok w' \<and> Q r (view w')"
    by (simp add: finallyE_def)
qed

section \<open>Running a component inside a larger world\<close>

text \<open>\<open>zoom get put m\<close> runs \<open>m\<close> on the part of the world \<open>get\<close> reads and \<open>put\<close> writes.\<close>

definition zoom :: "('w \<Rightarrow> 's) \<Rightarrow> ('s \<Rightarrow> 'w \<Rightarrow> 'w) \<Rightarrow> ('s, 'e, 'a) io \<Rightarrow> ('w, 'e, 'a) io" where
  "zoom get put m w = (case m (get w) of (r, s) \<Rightarrow> (r, put s w))"

lemma zoom_cases: "zoom get put m w = (r, w') \<longleftrightarrow> (\<exists>s. m (get w) = (r, s) \<and> w' = put s w)"
  by (auto simp: zoom_def split: prod.splits)

lemma fst_zoom [simp]: "fst (zoom get put m w) = fst (m (get w))"
  and snd_zoom [simp]: "snd (zoom get put m w) = put (snd (m (get w))) w"
  by (simp_all add: zoom_def split: prod.splits)

lemma quiet_zoom:
  assumes "\<And>w. ok w \<Longrightarrow> ok (put (snd (m (get w))) w) \<and> view (put (snd (m (get w))) w) = view w"
  shows "quiet ok view (zoom get put m)"
  using assms by (simp add: quiet_def)

end
