(* ===== verification/ProcessDownload.thy ===== *)
theory ProcessDownload
  imports Ports
begin

text \<open>
  \<open>src/application/use_cases/process_download.py\<close>: the worker's job.  The definitions follow the
  methods of \<open>ProcessDownloadUseCase\<close>; the record holds what its constructor is given.  Below
  them, an abstract specification of a job over what the user and the operator can see
  (\<open>outbox\<close>), and the proof that the use case refines it for any adapters that keep the laws of the
  locale \<open>worker\<close>.
\<close>

section \<open>The use case\<close>

record 'w process_download =
  pd_requests :: "'w request_repository"
  pd_users :: "'w user_repository"
  pd_downloader :: "'w downloader_port"
  pd_storage :: "'w storage_port"
  pd_notifier :: "'w notifier_port"
  pd_localizer :: error_localizer
  pd_publisher :: "'w progress_publisher"
  pd_max_deliverable_file_size_bytes :: int
  pd_download_timeout_seconds :: int
  pd_min_free_disk_bytes :: int
  pd_runtime :: "'w runtime"

definition localize_failure ::
    "'w process_download \<Rightarrow> exn \<Rightarrow> string option \<Rightarrow> ('w, exn, string) io" where
  "localize_failure uc e locale =
     (let key = (case error_key e of Some k \<Rightarrow> k | None \<Rightarrow> ''error-extraction-failed'')
      in liftE (case e of
           FileTooLargeError estimated_mb limit_mb \<Rightarrow>
             pd_localizer uc key locale [(''estimated_mb'', estimated_mb), (''limit_mb'', limit_mb)]
         | _ \<Rightarrow> pd_localizer uc key locale []))"

definition publish_phase ::
    "'w process_download \<Rightarrow> uuid \<Rightarrow> int \<Rightarrow> int \<Rightarrow> string option \<Rightarrow> progress_phase \<Rightarrow> ('w, exn, unit) io" where
  "publish_phase uc rid chat_id message_id language ph =
     try_except (pd_publisher uc rid chat_id message_id language (phase_marker ph))
       (\<lambda>e. if is_exception e
            then Some (rt_log (pd_runtime uc) ''process_download_phase_publish_failed'' rid) else None)"

text \<open>\<open>_report_corrupted_record\<close>, given the four values the exception carries.\<close>

definition report_corrupted_record ::
    "'w process_download \<Rightarrow> uuid \<Rightarrow> uuid \<Rightarrow> int \<Rightarrow> int \<Rightarrow> ('w, exn, unit) io" where
  "report_corrupted_record uc rid uid chat_id message_id =
     thenE (rt_log (pd_runtime uc) ''process_download_corrupted_record'' rid)
    (thenE (rr_mark_failed_by_id (pd_requests uc) rid)
    (bindE (ur_get_by_id (pd_users uc) uid) (\<lambda>found.
       case Option.bind found telegram_id of
         None \<Rightarrow> retE ()
       | Some tid \<Rightarrow>
           let language = Option.bind found user_language
           in thenE (publish_phase uc rid chat_id message_id language PhaseFAILED)
             (bindE (liftE (pd_localizer uc ''error-internal'' language []))
               (np_send_text (pd_notifier uc) tid)))))"

definition fail_request ::
    "'w process_download \<Rightarrow> download_request \<Rightarrow> user \<Rightarrow> int \<Rightarrow> int \<Rightarrow> int \<Rightarrow> string \<Rightarrow> ('w, exn, unit) io" where
  "fail_request uc r u tid chat_id message_id txt =
     bindE (askE (rt_now (pd_runtime uc))) (\<lambda>now.
       thenE (rr_update (pd_requests uc) (mark_failed now r))
      (thenE (publish_phase uc (request_id r) chat_id message_id (user_language u) PhaseFAILED)
        (np_send_text (pd_notifier uc) tid txt)))"

text \<open>\<open>_process\<close>, in the order of its three parts: the disk guard, the download, the delivery.\<close>

definition low_disk :: "'w process_download \<Rightarrow> ('w, exn, bool) io" where
  "low_disk uc =
     (if pd_min_free_disk_bytes uc = 0 then retE False
      else bindE (sp_available_bytes (pd_storage uc)) (\<lambda>available.
             retE (available < pd_min_free_disk_bytes uc)))"

definition options_for :: "'w process_download \<Rightarrow> path \<Rightarrow> download_request \<Rightarrow> download_options" where
  "options_for uc output_dir r =
     \<lparr>options_output_dir = output_dir,
      options_max_filesize = Some (pd_max_deliverable_file_size_bytes uc),
      options_timeout = pd_download_timeout_seconds uc, options_spec = request_spec r\<rparr>"

definition on_progress ::
    "'w process_download \<Rightarrow> download_request \<Rightarrow> user \<Rightarrow> int \<Rightarrow> int \<Rightarrow> 'w progress_callback" where
  "on_progress uc r u chat_id message_id p =
     pd_publisher uc (request_id r) chat_id message_id (user_language u) p"

definition download_phase ::
    "'w process_download \<Rightarrow> download_request \<Rightarrow> user \<Rightarrow> int \<Rightarrow> int \<Rightarrow> int \<Rightarrow> path \<Rightarrow>
     ('w, exn, download_result option) io" where
  "download_phase uc r u tid chat_id message_id output_dir =
     try_except
       (bindE (dp_download (pd_downloader uc) (source_url r) (options_for uc output_dir r)
                 (Some (on_progress uc r u chat_id message_id)))
          (\<lambda>result. retE (Some result)))
       (\<lambda>e. if is_extraction_error e \<or> is_unsupported_url_error e then
              Some (thenE (rt_log (pd_runtime uc) ''process_download_failed'' (request_id r))
                   (bindE (localize_failure uc e (user_language u)) (\<lambda>txt.
                      thenE (fail_request uc r u tid chat_id message_id txt) (retE None))))
            else None)"

text \<open>The delivery: the attempt to send the file, and recording that it was sent.\<close>

definition attempt_delivery ::
    "'w process_download \<Rightarrow> download_request \<Rightarrow> user \<Rightarrow> int \<Rightarrow> int \<Rightarrow> int \<Rightarrow> download_result \<Rightarrow>
     ('w, exn, bool) io" where
  "attempt_delivery uc r u tid chat_id message_id result =
     try_except
       (thenE (np_send_file (pd_notifier uc) tid (from_result result (spec_kind (request_spec r))) None)
         (retE True))
       (\<lambda>e. if is_notifier_error e then
              Some (thenE (rt_log (pd_runtime uc) ''process_download_delivery_failed'' (request_id r))
                   (bindE (liftE (pd_localizer uc ''error-delivery-failed'' (user_language u) [])) (\<lambda>txt.
                     thenE (fail_request uc r u tid chat_id message_id txt) (retE False))))
            else None)"

definition record_delivery ::
    "'w process_download \<Rightarrow> download_request \<Rightarrow> user \<Rightarrow> int \<Rightarrow> int \<Rightarrow> ('w, exn, unit) io" where
  "record_delivery uc r u chat_id message_id =
     bindE (askE (rt_now (pd_runtime uc))) (\<lambda>now.
       thenE (rr_update (pd_requests uc) (mark_done now r))
      (thenE (publish_phase uc (request_id r) chat_id message_id (user_language u) PhaseDONE)
        (rt_log (pd_runtime uc) ''process_download_succeeded'' (request_id r))))"

definition delivery_phase ::
    "'w process_download \<Rightarrow> download_request \<Rightarrow> user \<Rightarrow> int \<Rightarrow> int \<Rightarrow> int \<Rightarrow> download_result \<Rightarrow>
     ('w, exn, unit) io" where
  "delivery_phase uc r u tid chat_id message_id result =
     thenE (publish_phase uc (request_id r) chat_id message_id (user_language u) UPLOADING)
    (bindE (attempt_delivery uc r u tid chat_id message_id result) (\<lambda>sent.
       if sent then record_delivery uc r u chat_id message_id else retE ()))"

definition process_request ::
    "'w process_download \<Rightarrow> download_request \<Rightarrow> user \<Rightarrow> int \<Rightarrow> int \<Rightarrow> int \<Rightarrow> ('w, exn, unit) io" where
  "process_request uc r u tid chat_id message_id =
     bindE (low_disk uc) (\<lambda>low.
       if low then
         thenE (rt_log (pd_runtime uc) ''process_download_rejected_low_disk'' (request_id r))
        (bindE (localize_failure uc InsufficientStorageError (user_language u))
          (fail_request uc r u tid chat_id message_id))
       else
         bindE (sp_temp_dir_for_request (pd_storage uc) (request_id r)) (\<lambda>output_dir.
         bindE (download_phase uc r u tid chat_id message_id output_dir) (\<lambda>downloaded.
           case downloaded of
             None \<Rightarrow> retE ()
           | Some result \<Rightarrow> delivery_phase uc r u tid chat_id message_id result)))"

text \<open>\<open>execute\<close>.  The loading step answers \<open>None\<close> when the record was corrupt and reported.\<close>

definition load_request ::
    "'w process_download \<Rightarrow> uuid \<Rightarrow> int \<Rightarrow> int \<Rightarrow> ('w, exn, download_request option option) io" where
  "load_request uc rid chat_id message_id =
     try_except
       (bindE (rr_get_by_id (pd_requests uc) rid) (\<lambda>found. retE (Some found)))
       (\<lambda>e. case e of
          CorruptedRecordError _ _ exc_rid exc_uid \<Rightarrow>
            Some (thenE (report_corrupted_record uc exc_rid exc_uid chat_id message_id) (retE None))
        | _ \<Rightarrow> None)"

definition run_claimed ::
    "'w process_download \<Rightarrow> download_request \<Rightarrow> user \<Rightarrow> int \<Rightarrow> int \<Rightarrow> int \<Rightarrow> ('w, exn, unit) io" where
  "run_claimed uc r u tid chat_id message_id =
     bindE (rr_claim_for_processing (pd_requests uc) (request_id r)) (\<lambda>claimed.
       if \<not> claimed then rt_log (pd_runtime uc) ''process_download_skipped_inactive'' (request_id r)
       else finallyE (process_request uc (mark_processing r) u tid chat_id message_id)
              (sp_release (pd_storage uc) (request_id r)))"

definition execute_download ::
    "'w process_download \<Rightarrow> uuid \<Rightarrow> int \<Rightarrow> int \<Rightarrow> ('w, exn, unit) io" where
  "execute_download uc rid chat_id message_id =
     bindE (load_request uc rid chat_id message_id) (\<lambda>loaded.
       case loaded of
         None \<Rightarrow> retE ()
       | Some None \<Rightarrow> rt_log (pd_runtime uc) ''process_download_request_not_found'' rid
       | Some (Some r) \<Rightarrow>
           bindE (ur_get_by_id (pd_users uc) (request_user_id r)) (\<lambda>found.
             case found of
               None \<Rightarrow> rt_log (pd_runtime uc) ''process_download_user_not_found'' rid
             | Some u \<Rightarrow>
                 (case telegram_id u of
                    None \<Rightarrow> rt_log (pd_runtime uc) ''process_download_user_not_found'' rid
                  | Some tid \<Rightarrow> run_claimed uc r u tid chat_id message_id)))"

lemmas process_defs = localize_failure_def publish_phase_def report_corrupted_record_def
  fail_request_def low_disk_def options_for_def on_progress_def download_phase_def
  attempt_delivery_def record_delivery_def delivery_phase_def
  process_request_def load_request_def run_claimed_def execute_download_def

section \<open>What a job may do\<close>

text \<open>
  The outbox: what the outside sees.  The stored status of each request, whether its row can be
  read, whose it is and where that user is reached; the files and the texts delivered so far.
\<close>

record outbox =
  ob_status :: "uuid \<Rightarrow> string option"
  ob_readable :: "uuid \<Rightarrow> bool"
  ob_owner :: "uuid \<Rightarrow> uuid option"
  ob_chat :: "uuid \<Rightarrow> int option"
  ob_files :: "(int \<times> path) list"
  ob_texts :: "(int \<times> string) list"

definition ob_active :: "outbox \<Rightarrow> uuid \<Rightarrow> bool" where
  "ob_active o1 rid \<longleftrightarrow> ob_status o1 rid = Some ''pending'' \<or> ob_status o1 rid = Some ''processing''"

definition ob_target :: "outbox \<Rightarrow> uuid \<Rightarrow> int option" where
  "ob_target o1 rid = Option.bind (ob_owner o1 rid) (ob_chat o1)"

definition set_status :: "uuid \<Rightarrow> string \<Rightarrow> outbox \<Rightarrow> outbox" where
  "set_status rid s o1 = o1\<lparr>ob_status := (ob_status o1)(rid := Some s)\<rparr>"

definition add_file :: "int \<times> path \<Rightarrow> outbox \<Rightarrow> outbox" where
  "add_file f o1 = o1\<lparr>ob_files := ob_files o1 @ [f]\<rparr>"

definition add_text :: "int \<times> string \<Rightarrow> outbox \<Rightarrow> outbox" where
  "add_text t o1 = o1\<lparr>ob_texts := ob_texts o1 @ [t]\<rparr>"

lemmas outbox_defs = ob_active_def ob_target_def set_status_def add_file_def add_text_def

lemma set_status_twice [simp]: "set_status rid s (set_status rid t o1) = set_status rid s o1"
  by (simp add: set_status_def)

lemma outbox_commute [simp]:
  "set_status rid s (add_file f o1) = add_file f (set_status rid s o1)"
  "set_status rid s (add_text t o1) = add_text t (set_status rid s o1)"
  by (simp_all add: outbox_defs)

lemma outbox_simps [simp]:
  "ob_readable (set_status rid s o1) = ob_readable o1" "ob_owner (set_status rid s o1) = ob_owner o1"
  "ob_chat (set_status rid s o1) = ob_chat o1" "ob_files (set_status rid s o1) = ob_files o1"
  "ob_texts (set_status rid s o1) = ob_texts o1"
  "ob_status (set_status rid s o1) = (ob_status o1)(rid := Some s)"
  "ob_readable (add_file f o1) = ob_readable o1" "ob_owner (add_file f o1) = ob_owner o1"
  "ob_chat (add_file f o1) = ob_chat o1" "ob_files (add_file f o1) = ob_files o1 @ [f]"
  "ob_texts (add_file f o1) = ob_texts o1" "ob_status (add_file f o1) = ob_status o1"
  by (simp_all add: outbox_defs)

lemma add_text_simps [simp]:
  "ob_readable (add_text t o1) = ob_readable o1" "ob_owner (add_text t o1) = ob_owner o1"
  "ob_chat (add_text t o1) = ob_chat o1" "ob_files (add_text t o1) = ob_files o1"
  "ob_texts (add_text t o1) = ob_texts o1 @ [t]" "ob_status (add_text t o1) = ob_status o1"
  by (simp_all add: outbox_defs)

text \<open>
  \<open>job rid o r o'\<close>: a job for \<open>rid\<close> that starts at \<open>o\<close> may end with the outcome \<open>r\<close> at \<open>o'\<close>.  A job
  that returns has skipped a request that is not active or has nobody to tell, delivered one
  file and recorded it, or recorded the failure and told it; one that raises may also
  stop at any point in between.  Everything goes to the request's owner.
\<close>

inductive job :: "uuid \<Rightarrow> outbox \<Rightarrow> exn + unit \<Rightarrow> outbox \<Rightarrow> bool" for rid where
  skipped: "\<not> ob_active o1 rid \<or> ob_target o1 rid = None \<Longrightarrow> job rid o1 (Inr ()) o1"
| failed_early: "job rid o1 (Inl e) o1"
| unreadable: "\<not> ob_readable o1 rid \<Longrightarrow> ob_target o1 rid = None \<or> r \<noteq> Inr () \<Longrightarrow>
    job rid o1 r ((set_status rid ''failed'' o1)\<lparr>ob_readable := (ob_readable o1)(rid := b)\<rparr>)"
| unreadable_told: "\<not> ob_readable o1 rid \<Longrightarrow> ob_target o1 rid = Some t \<Longrightarrow>
    job rid o1 r (add_text (t, txt) ((set_status rid ''failed'' o1)\<lparr>ob_readable := (ob_readable o1)(rid := b)\<rparr>))"
| delivered: "ob_active o1 rid \<Longrightarrow> ob_target o1 rid = Some t \<Longrightarrow>
    job rid o1 r (add_file (t, f) (set_status rid ''done'' o1))"
| told: "ob_active o1 rid \<Longrightarrow> ob_target o1 rid = Some t \<Longrightarrow>
    job rid o1 (Inr ()) (add_text (t, txt) (set_status rid ''failed'' o1))"
| untold: "ob_active o1 rid \<Longrightarrow> job rid o1 (Inl e) (set_status rid ''failed'' o1)"
| stranded: "ob_active o1 rid \<Longrightarrow> job rid o1 (Inl e) (set_status rid ''processing'' o1)"
| unrecorded: "ob_active o1 rid \<Longrightarrow> ob_target o1 rid = Some t \<Longrightarrow>
    job rid o1 (Inl e) (add_file (t, f) (set_status rid ''processing'' o1))"

inductive_cases jobE: "job rid o1 r o2"
inductive_cases job_returnsE: "job rid o1 (Inr x) o2"

text \<open>What follows from the specification alone.\<close>

lemma job_frame:
  "job rid o1 r o2 \<Longrightarrow>
     ob_owner o2 = ob_owner o1 \<and> ob_chat o2 = ob_chat o1 \<and>
     (\<forall>k. k \<noteq> rid \<longrightarrow> ob_status o2 k = ob_status o1 k \<and> ob_readable o2 k = ob_readable o1 k) \<and>
     (\<exists>fs ts. ob_files o2 = ob_files o1 @ fs \<and> ob_texts o2 = ob_texts o1 @ ts \<and>
        length fs + length ts \<le> 1 \<and> (\<forall>x \<in> fst ` set fs \<union> fst ` set ts. ob_target o1 rid = Some x) \<and>
        (fs \<noteq> [] \<longrightarrow> ob_active o1 rid) \<and>
        (ob_status o2 rid = Some ''done'' \<and> ob_status o1 rid \<noteq> Some ''done'' \<longrightarrow> fs \<noteq> []))"
  by (erule jobE) auto

section \<open>The contract\<close>

locale worker =
  fixes uc :: "'w process_download"
    and ok :: "'w \<Rightarrow> bool"
    and view :: "'w \<Rightarrow> outbox"
  assumes get_law: "triple ok view (\<lambda>v. v = o1) (rr_get_by_id (pd_requests uc) rid)
      (\<lambda>res v. v = o1 \<and>
         (case res of
            Inr None \<Rightarrow> ob_status v rid = None
          | Inr (Some r) \<Rightarrow> request_id r = rid \<and> ob_owner v rid = Some (request_user_id r) \<and> ob_readable v rid
          | Inl (CorruptedRecordError _ _ i u) \<Rightarrow> i = rid \<and> ob_owner v rid = Some u \<and> \<not> ob_readable v rid
          | Inl _ \<Rightarrow> True))"
    and user_law: "triple ok view (\<lambda>v. v = o1) (ur_get_by_id (pd_users uc) uid)
      (\<lambda>res v. v = o1 \<and> (\<forall>u. res = Inr u \<longrightarrow> Option.bind u telegram_id = ob_chat v uid))"
    and claim_law: "triple ok view (\<lambda>v. v = o1) (rr_claim_for_processing (pd_requests uc) rid)
      (\<lambda>res v. (res = Inr True \<longrightarrow> ob_active o1 rid \<and> v = set_status rid ''processing'' o1) \<and>
               (res = Inr False \<longrightarrow> \<not> ob_active o1 rid) \<and> (res \<noteq> Inr True \<longrightarrow> v = o1))"
    and update_law: "ob_status o1 (request_id r) = Some ''processing'' \<Longrightarrow>
      triple ok view (\<lambda>v. v = o1) (rr_update (pd_requests uc) r)
      (\<lambda>res v. v = (if res = Inr () then set_status (request_id r) (status_value (request_status r)) o1 else o1))"
    and mark_failed_law: "triple ok view (\<lambda>v. v = o1 \<and> \<not> ob_readable v rid)
      (rr_mark_failed_by_id (pd_requests uc) rid)
      (\<lambda>res v. if res = Inr () then \<exists>b. v = (set_status rid ''failed'' o1)\<lparr>ob_readable := (ob_readable o1)(rid := b)\<rparr> else v = o1)"
    and send_file_law: "triple ok view (\<lambda>v. v = o1) (np_send_file (pd_notifier uc) tid m c)
      (\<lambda>res v. v = (if res = Inr () then add_file (tid, dm_path m) o1 else o1))"
    and send_text_law: "triple ok view (\<lambda>v. v = o1) (np_send_text (pd_notifier uc) tid t)
      (\<lambda>res v. if res = Inr () then \<exists>t'. v = add_text (tid, t') o1 else v = o1)"
    and publish_law: "quiet ok view (pd_publisher uc rid chat mid lang p)"
    and download_law: "(\<And>p. quiet ok view (cb p)) \<Longrightarrow>
      quiet ok view (dp_download (pd_downloader uc) url opts (Some cb))"
    and temp_dir_law: "quiet ok view (sp_temp_dir_for_request (pd_storage uc) rid)"
    and available_law: "quiet ok view (sp_available_bytes (pd_storage uc))"
    and release_law: "quiet ok view (sp_release (pd_storage uc) rid)"
    and release_returns: "ok w \<Longrightarrow> fst (sp_release (pd_storage uc) rid w) = Inr ()"
    and log_law: "quiet ok view (rt_log (pd_runtime uc) event rid)"
    and log_returns: "ok w \<Longrightarrow> fst (rt_log (pd_runtime uc) event rid w) = Inr ()"
begin

lemma quiet_publish_phase: "quiet ok view (publish_phase uc rid chat mid lang ph)"
  unfolding publish_phase_def
  by (intro quiet_try_except publish_law) (auto intro: log_law split: if_splits)

lemma quiet_localize: "quiet ok view (localize_failure uc e lang)"
  by (simp add: localize_failure_def Let_def)

lemma quiet_low_disk: "quiet ok view (low_disk uc)"
  unfolding low_disk_def by (auto intro!: quiet_bindE available_law)

lemma log_triple: "triple ok view P (rt_log (pd_runtime uc) event rid) (\<lambda>res v. res = Inr () \<and> P v)"
  using log_law [of event rid] log_returns [of _ event rid] by (simp add: triple_def quiet_def)

text \<open>The steps after the claim: \<open>o1\<close> is what the job started from.\<close>

lemma fail_triple:
  assumes "request_id r = rid"
  shows "triple ok view (\<lambda>v. v = set_status rid ''processing'' o1) (fail_request uc r u tid chat mid txt)
     (\<lambda>res v. if res = Inr () then \<exists>t'. v = add_text (tid, t') (set_status rid ''failed'' o1)
              else v = set_status rid ''processing'' o1 \<or> v = set_status rid ''failed'' o1)"
    (is "triple ok view (\<lambda>v. v = ?p) _ ?Q")
  unfolding fail_request_def
proof (rule triple_bindE [where Q = "\<lambda>_ v. v = ?p"])
  show "triple ok view (\<lambda>v. v = ?p) (askE (rt_now (pd_runtime uc))) (\<lambda>_ v. v = ?p)"
    by (rule triple_quiet) auto
next
  fix now
  let ?f = "set_status rid ''failed'' o1"
  show "triple ok view (\<lambda>v. v = ?p)
     (thenE (rr_update (pd_requests uc) (mark_failed now r))
       (thenE (publish_phase uc (request_id r) chat mid (user_language u) PhaseFAILED)
         (np_send_text (pd_notifier uc) tid txt))) ?Q"
  proof (rule triple_thenE)
    show "triple ok view (\<lambda>v. v = ?p) (rr_update (pd_requests uc) (mark_failed now r))
       (\<lambda>res v. v = (if res = Inr () then ?f else ?p))"
      by (rule triple_post [OF update_law]) (auto simp: mark_failed_def assms split: if_splits)
    show "triple ok view (\<lambda>v. v = (if Inr x = Inr () then ?f else ?p))
       (thenE (publish_phase uc (request_id r) chat mid (user_language u) PhaseFAILED)
         (np_send_text (pd_notifier uc) tid txt)) ?Q" for x :: unit
    proof (rule triple_thenE [where Q = "\<lambda>_ v. v = ?f"])
      show "triple ok view (\<lambda>v. v = (if Inr x = Inr () then ?f else ?p))
          (publish_phase uc (request_id r) chat mid (user_language u) PhaseFAILED) (\<lambda>_ v. v = ?f)"
        by (rule triple_quiet [OF quiet_publish_phase]) simp
      show "triple ok view (\<lambda>v. v = ?f) (np_send_text (pd_notifier uc) tid txt) ?Q"
        by (rule triple_post [OF send_text_law]) (auto split: if_splits)
    qed auto
  qed auto
qed auto

lemma fail_job:
  assumes "request_id r = rid" and "ob_active o1 rid" and "ob_target o1 rid = Some tid"
  shows "triple ok view (\<lambda>v. v = set_status rid ''processing'' o1) (fail_request uc r u tid chat mid message)
     (job rid o1)"
proof (rule triple_post [OF fail_triple [OF assms(1)]], goal_cases)
  case (1 res v)
  then show ?case
    using assms(2,3) by (cases res) (auto intro: job.intros split: if_splits)
qed

lemma localized_fail_triple:
  assumes "request_id r = rid" and "quiet ok view loc"
  shows "triple ok view (\<lambda>v. v = set_status rid ''processing'' o1)
     (thenE (rt_log (pd_runtime uc) event rid)
       (bindE loc (\<lambda>txt. thenE (fail_request uc r u tid chat mid txt) (retE x))))
     (\<lambda>res v. (\<exists>y. res = Inr y) \<and> res = Inr x \<and> (\<exists>t'. v = add_text (tid, t') (set_status rid ''failed'' o1)) \<or>
        (\<exists>e. res = Inl e) \<and> (v = set_status rid ''processing'' o1 \<or> v = set_status rid ''failed'' o1))"
    (is "triple ok view (\<lambda>v. v = ?p) _ ?Q")
proof (rule triple_thenE [where Q = "\<lambda>_ v. v = ?p"])
  show "triple ok view (\<lambda>v. v = ?p) (rt_log (pd_runtime uc) event rid) (\<lambda>_ v. v = ?p)"
    by (rule triple_quiet [OF log_law])
  show "triple ok view (\<lambda>v. v = ?p)
     (bindE loc (\<lambda>txt. thenE (fail_request uc r u tid chat mid txt) (retE x))) ?Q"
  proof (rule triple_bindE [where Q = "\<lambda>_ v. v = ?p"])
    show "triple ok view (\<lambda>v. v = ?p) loc (\<lambda>_ v. v = ?p)" by (rule triple_quiet [OF assms(2)])
    show "triple ok view (\<lambda>v. v = ?p) (thenE (fail_request uc r u tid chat mid message) (retE x)) ?Q" for message
      by (rule triple_thenE [OF fail_triple [OF assms(1), of o1 u tid chat mid message]])
        (auto intro!: triple_retE)
  qed auto
qed auto

lemma attempt_triple:
  assumes r: "request_id r = rid"
  shows "triple ok view (\<lambda>v. v = set_status rid ''processing'' o1)
     (attempt_delivery uc r u tid chat mid result)
     (\<lambda>res v. case res of
        Inr True \<Rightarrow> \<exists>f. v = add_file (tid, f) (set_status rid ''processing'' o1)
      | Inr False \<Rightarrow> \<exists>t'. v = add_text (tid, t') (set_status rid ''failed'' o1)
      | Inl _ \<Rightarrow> v = set_status rid ''processing'' o1 \<or> v = set_status rid ''failed'' o1)"
    (is "triple ok view (\<lambda>v. v = ?p) _ ?sent")
proof -
  let ?file = "dm_path (from_result result (spec_kind (request_spec r)))"
  let ?Q = "\<lambda>res v. v = (if res = Inr True then add_file (tid, ?file) ?p else ?p) \<and> res \<noteq> Inr False"
  show ?thesis
    unfolding attempt_delivery_def
  proof (rule triple_try_except [where Q = ?Q], goal_cases send returned uncaught caught)
    case send
    show ?case by (rule triple_thenE [OF send_file_law]) (auto intro!: triple_retE)
  next
    case (caught e h)
    then have h: "h = thenE (rt_log (pd_runtime uc) ''process_download_delivery_failed'' (request_id r))
         (bindE (liftE (pd_localizer uc ''error-delivery-failed'' (user_language u) [])) (\<lambda>txt.
            thenE (fail_request uc r u tid chat mid txt) (retE False)))"
      by (simp split: if_splits)
    show ?case
      unfolding h r
      by (rule triple_pre, rule triple_post, rule localized_fail_triple [OF r quiet_liftE]) auto
  qed (auto split: bool.split)
qed

lemma record_triple:
  assumes r: "request_id r = rid" and act: "ob_active o1 rid" and tgt: "ob_target o1 rid = Some tid"
  shows "triple ok view (\<lambda>v. v = add_file (tid, f) (set_status rid ''processing'' o1))
     (record_delivery uc r u chat mid) (job rid o1)"
  unfolding record_delivery_def
proof (rule triple_bindE [where Q = "\<lambda>_ v. v = add_file (tid, f) (set_status rid ''processing'' o1)"])
  let ?p = "add_file (tid, f) (set_status rid ''processing'' o1)"
  let ?d = "add_file (tid, f) (set_status rid ''done'' o1)"
  fix now
  show "triple ok view (\<lambda>v. v = ?p) (thenE (rr_update (pd_requests uc) (mark_done now r))
      (thenE (publish_phase uc (request_id r) chat mid (user_language u) PhaseDONE)
        (rt_log (pd_runtime uc) ''process_download_succeeded'' (request_id r)))) (job rid o1)"
  proof (rule triple_thenE)
    show "triple ok view (\<lambda>v. v = ?p) (rr_update (pd_requests uc) (mark_done now r))
        (\<lambda>res v. v = (if res = Inr () then ?d else ?p))"
      by (rule triple_post [OF update_law]) (auto simp: mark_done_def r split: if_splits)
    show "triple ok view (\<lambda>v. v = (if Inr x = Inr () then ?d else ?p))
        (thenE (publish_phase uc (request_id r) chat mid (user_language u) PhaseDONE)
          (rt_log (pd_runtime uc) ''process_download_succeeded'' (request_id r))) (job rid o1)" for x :: unit
      by (rule triple_quiet) (auto intro: quiet_publish_phase log_law delivered [OF act tgt])
  qed (auto intro: unrecorded [OF act tgt])
qed (auto intro!: triple_quiet unrecorded [OF act tgt])

lemma delivery_triple:
  assumes r: "request_id r = rid" and act: "ob_active o1 rid" and tgt: "ob_target o1 rid = Some tid"
  shows "triple ok view (\<lambda>v. v = set_status rid ''processing'' o1)
     (delivery_phase uc r u tid chat mid result) (job rid o1)"
    (is "triple ok view (\<lambda>v. v = ?p) _ _")
  unfolding delivery_phase_def
proof (rule triple_thenE [where Q = "\<lambda>_ v. v = ?p"], goal_cases publish raised rest)
  case publish
  show ?case by (rule triple_quiet [OF quiet_publish_phase])
next
  case raised
  then show ?case using act by (auto intro: stranded)
next
  case rest
  show ?case
  proof (rule triple_bindE [OF attempt_triple [OF r]], goal_cases raised sent)
    case raised
    then show ?case using act by (auto intro: stranded untold)
  next
    case (sent x)
    show ?case
    proof (cases x)
      case True
      have "triple ok view (\<lambda>v. v = add_file (tid, f) ?p) (record_delivery uc r u chat mid) (job rid o1)" for f
        by (rule record_triple [OF r act tgt])
      then show ?thesis using True by (auto simp: triple_def)
    next
      case False
      then show ?thesis by (auto intro!: triple_retE told [OF act tgt])
    qed
  qed
qed

text \<open>The whole of \<open>_process\<close>.\<close>

lemma quiet_download: "quiet ok view (dp_download (pd_downloader uc) url opts (Some (on_progress uc r u chat mid)))"
  by (rule download_law) (simp add: on_progress_def publish_law)

lemma download_triple:
  assumes r: "request_id r = rid"
  shows "triple ok view (\<lambda>v. v = set_status rid ''processing'' o1)
     (download_phase uc r u tid chat mid dir)
     (\<lambda>res v. case res of
        Inr (Some _) \<Rightarrow> v = set_status rid ''processing'' o1
      | Inr None \<Rightarrow> \<exists>t'. v = add_text (tid, t') (set_status rid ''failed'' o1)
      | Inl _ \<Rightarrow> v = set_status rid ''processing'' o1 \<or> v = set_status rid ''failed'' o1)"
    (is "triple ok view (\<lambda>v. v = ?p) _ _")
  unfolding download_phase_def
proof (rule triple_try_except [where Q = "\<lambda>res v. v = ?p \<and> res \<noteq> Inr None"], goal_cases fetch returned uncaught caught)
  case fetch
  show ?case by (rule triple_bindE [where Q = "\<lambda>_ v. v = ?p"])
    (auto intro!: triple_retE triple_quiet [OF quiet_download])
next
  case (caught e h)
  then have h: "h = thenE (rt_log (pd_runtime uc) ''process_download_failed'' (request_id r))
      (bindE (localize_failure uc e (user_language u)) (\<lambda>txt.
         thenE (fail_request uc r u tid chat mid txt) (retE None)))"
    by (simp split: if_splits)
  show ?case
    unfolding h r
    by (rule triple_pre, rule triple_post, rule localized_fail_triple [OF r quiet_localize]) auto
qed (auto split: option.split)

lemma process_triple:
  assumes r: "request_id r = rid" and act: "ob_active o1 rid" and tgt: "ob_target o1 rid = Some tid"
  shows "triple ok view (\<lambda>v. v = set_status rid ''processing'' o1)
     (process_request uc r u tid chat mid) (job rid o1)"
    (is "triple ok view (\<lambda>v. v = ?p) _ _")
  unfolding process_request_def
proof (rule triple_bindE [where Q = "\<lambda>_ v. v = ?p"], goal_cases disk raised rest)
  case disk
  show ?case by (rule triple_quiet [OF quiet_low_disk])
next
  case raised
  then show ?case by (auto intro: stranded [OF act])
next
  case (rest low)
  have refuse: "triple ok view (\<lambda>v. v = ?p)
      (thenE (rt_log (pd_runtime uc) ''process_download_rejected_low_disk'' (request_id r))
        (bindE (localize_failure uc InsufficientStorageError (user_language u))
          (fail_request uc r u tid chat mid))) (job rid o1)"
  proof (rule triple_thenE [where Q = "\<lambda>_ v. v = ?p"], goal_cases log raised rest)
    case rest
    show ?case
      by (rule triple_bindE [OF triple_quiet [OF quiet_localize, where Q = "\<lambda>_ v. v = ?p"]])
        (auto intro!: stranded [OF act] fail_job [OF r act tgt])
  qed (auto intro: stranded [OF act] triple_quiet [OF log_law])
  have fetch: "triple ok view (\<lambda>v. v = ?p)
      (bindE (sp_temp_dir_for_request (pd_storage uc) (request_id r)) (\<lambda>dir.
         bindE (download_phase uc r u tid chat mid dir) (\<lambda>downloaded.
           case downloaded of None \<Rightarrow> retE () | Some result \<Rightarrow> delivery_phase uc r u tid chat mid result)))
      (job rid o1)"
  proof (rule triple_bindE [where Q = "\<lambda>_ v. v = ?p"], goal_cases dir raised rest)
    case (rest dir)
    show ?case
      by (rule triple_bindE [OF download_triple [OF r]])
        (auto intro!: stranded [OF act] untold [OF act] told [OF act tgt] triple_retE
          delivery_triple [OF r act tgt] split: option.split)
  qed (auto intro: stranded [OF act] triple_quiet [OF temp_dir_law])
  show ?case using refuse fetch by simp
qed

text \<open>Loading, and the whole job.\<close>

lemma report_triple:
  assumes unread: "\<not> ob_readable o1 rid" and owner: "ob_owner o1 rid = Some uid"
  shows "triple ok view (\<lambda>v. v = o1) (report_corrupted_record uc rid uid chat mid) (job rid o1)"
  unfolding report_corrupted_record_def
proof (rule triple_thenE [where Q = "\<lambda>_ v. v = o1"], goal_cases log raised rest)
  case rest
  let ?f = "\<lambda>b. (set_status rid ''failed'' o1)\<lparr>ob_readable := (ob_readable o1)(rid := b)\<rparr>"
  show ?case
  proof (rule triple_thenE [where Q = "\<lambda>res v. if res = Inr () then \<exists>b. v = ?f b else v = o1"], goal_cases mark raised rest)
    case mark
    show ?case by (rule triple_pre [OF mark_failed_law]) (use unread in auto)
  next
    case rest
    show ?case
    proof (rule triple_bindE [where Q = "\<lambda>res v. (\<exists>b. v = ?f b) \<and>
        (\<forall>u. res = Inr u \<longrightarrow> Option.bind u telegram_id = ob_target o1 rid)"], goal_cases user raised rest)
      case user
      have "triple ok view (\<lambda>v. v = ?f b) (ur_get_by_id (pd_users uc) uid)
         (\<lambda>res v. (\<exists>b. v = ?f b) \<and> (\<forall>u. res = Inr u \<longrightarrow> Option.bind u telegram_id = ob_target o1 rid))" for b
        by (rule triple_post [OF user_law]) (auto simp: ob_target_def owner)
      then show ?case by (auto simp: triple_def)
    next
      case (rest found)
      show ?case
      proof (cases "Option.bind found telegram_id")
        case None
        then show ?thesis using unread by (auto intro!: triple_retE unreadable)
      next
        case (Some tid)
        let ?P = "\<lambda>v. (\<exists>b. v = ?f b) \<and> ob_target o1 rid = Some tid"
        have "triple ok view ?P
            (thenE (publish_phase uc rid chat mid (Option.bind found user_language) PhaseFAILED)
              (bindE (liftE (pd_localizer uc ''error-internal'' (Option.bind found user_language) []))
                (np_send_text (pd_notifier uc) tid))) (job rid o1)"
        proof (rule triple_thenE [where Q = "\<lambda>_. ?P"], goal_cases publish raised rest)
          case rest
          show ?case
          proof (rule triple_bindE [where Q = "\<lambda>_. ?P"], goal_cases localize raised send)
            case (send message)
            have "triple ok view (\<lambda>v. v = ?f b \<and> ob_target o1 rid = Some tid)
                (np_send_text (pd_notifier uc) tid message) (job rid o1)" for b
            proof (cases "ob_target o1 rid = Some tid")
              case True
              have "triple ok view (\<lambda>v. v = ?f b) (np_send_text (pd_notifier uc) tid message) (job rid o1)"
                by (rule triple_post [OF send_text_law])
                  (use True in \<open>auto split: if_splits intro: unreadable [OF unread] unreadable_told [OF unread]\<close>)
              then show ?thesis by (rule triple_pre) simp
            qed (simp add: triple_def)
            then show ?case by (auto simp: triple_def)
          qed (auto intro!: triple_quiet [OF quiet_liftE] unreadable [OF unread])
        qed (auto intro!: triple_quiet [OF quiet_publish_phase] unreadable [OF unread])
        then show ?thesis unfolding Some Let_def by (simp, elim triple_pre) (auto simp: Some)
      qed
    qed (use unread in \<open>auto intro!: unreadable\<close>)
  qed (auto intro: failed_early)
qed (auto intro: failed_early triple_quiet [OF log_law])

lemma load_triple:
  "triple ok view (\<lambda>v. v = o1) (load_request uc rid chat mid)
     (\<lambda>res v. case res of
        Inr (Some None) \<Rightarrow> v = o1 \<and> ob_status o1 rid = None
      | Inr (Some (Some r)) \<Rightarrow> v = o1 \<and> request_id r = rid \<and> ob_owner o1 rid = Some (request_user_id r)
      | Inr None \<Rightarrow> job rid o1 (Inr ()) v
      | Inl e \<Rightarrow> job rid o1 (Inl e) v)"
  unfolding load_request_def
proof (rule triple_try_except [where Q = "\<lambda>res v. v = o1 \<and>
    (case res of
       Inr None \<Rightarrow> False
     | Inr (Some None) \<Rightarrow> ob_status v rid = None
     | Inr (Some (Some r)) \<Rightarrow> request_id r = rid \<and> ob_owner v rid = Some (request_user_id r)
     | Inl (CorruptedRecordError _ _ i u) \<Rightarrow> i = rid \<and> ob_owner v rid = Some u \<and> \<not> ob_readable v rid
     | Inl _ \<Rightarrow> True)"], goal_cases read returned uncaught caught)
  case read
  show ?case by (rule triple_bindE [OF get_law]) (auto intro!: triple_retE split: option.splits)
next
  case (caught e h)
  then obtain c x i u where e: "e = CorruptedRecordError c x i u"
      and h: "h = thenE (report_corrupted_record uc i u chat mid) (retE None)"
    by (auto split: exn.splits)
  show ?case
  proof (cases "i = rid \<and> ob_owner o1 rid = Some u \<and> \<not> ob_readable o1 rid")
    case True
    then have "triple ok view (\<lambda>v. v = o1) (report_corrupted_record uc i u chat mid) (job rid o1)"
      using report_triple by blast
    then have "triple ok view (\<lambda>v. v = o1) h (\<lambda>res v. case res of
        Inr (Some None) \<Rightarrow> v = o1 \<and> ob_status o1 rid = None
      | Inr (Some (Some r)) \<Rightarrow> v = o1 \<and> request_id r = rid \<and> ob_owner o1 rid = Some (request_user_id r)
      | Inr None \<Rightarrow> job rid o1 (Inr ()) v
      | Inl e \<Rightarrow> job rid o1 (Inl e) v)"
      unfolding h by (rule triple_thenE) (auto intro!: triple_retE)
    then show ?thesis by (rule triple_pre) simp
  next
    case False
    then show ?thesis unfolding e by (auto simp: triple_def)
  qed
qed (auto split: option.splits intro: failed_early)

lemma claimed_triple:
  assumes r: "request_id r = rid" and tgt: "ob_target o1 rid = Some tid"
  shows "triple ok view (\<lambda>v. v = o1) (run_claimed uc r u tid chat mid) (job rid o1)"
  unfolding run_claimed_def r
proof (rule triple_bindE [OF claim_law], goal_cases raised rest)
  case (rest claimed)
  show ?case
  proof (cases claimed)
    case True
    have "triple ok view (\<lambda>v. v = set_status rid ''processing'' o1)
        (finallyE (process_request uc (mark_processing r) u tid chat mid) (sp_release (pd_storage uc) rid))
        (job rid o1)" if "ob_active o1 rid"
      by (rule triple_finallyE [OF process_triple release_law release_returns])
        (use that r tgt in \<open>auto simp: mark_processing_def\<close>)
    then show ?thesis using True by (auto simp: triple_def)
  next
    case False
    then show ?thesis
      by (auto intro!: triple_post [OF log_triple] intro: skipped)
  qed
qed (auto intro: failed_early)

lemma execute_triple: "triple ok view (\<lambda>v. v = o1) (execute_download uc rid chat mid) (job rid o1)"
  unfolding execute_download_def
proof (rule triple_bindE [OF load_triple], goal_cases raised rest)
  case (rest loaded)
  show ?case
  proof (cases loaded)
    case None
    then show ?thesis by (auto intro!: triple_retE)
  next
    case loaded: (Some found)
    show ?thesis
    proof (cases found)
      case None
      have "triple ok view (\<lambda>v. v = o1 \<and> ob_status o1 rid = None)
          (rt_log (pd_runtime uc) ''process_download_request_not_found'' rid) (job rid o1)"
        by (rule triple_post [OF log_triple]) (auto simp: ob_active_def intro!: skipped)
      then show ?thesis using loaded None by simp
    next
      case (Some r)
      have "triple ok view (\<lambda>v. v = o1 \<and> request_id r = rid \<and> ob_owner o1 rid = Some (request_user_id r))
          (bindE (ur_get_by_id (pd_users uc) (request_user_id r)) (\<lambda>found.
             case found of
               None \<Rightarrow> rt_log (pd_runtime uc) ''process_download_user_not_found'' rid
             | Some u \<Rightarrow>
                 (case telegram_id u of
                    None \<Rightarrow> rt_log (pd_runtime uc) ''process_download_user_not_found'' rid
                  | Some tid \<Rightarrow> run_claimed uc r u tid chat mid))) (job rid o1)"
      proof (rule triple_bindE [where Q = "\<lambda>res v. v = o1 \<and> request_id r = rid \<and>
          (\<forall>u. res = Inr u \<longrightarrow> Option.bind u telegram_id = ob_target o1 rid)"], goal_cases user raised rest)
        case user
        show ?case
        proof (cases "request_id r = rid \<and> ob_owner o1 rid = Some (request_user_id r)")
          case True
          have "triple ok view (\<lambda>v. v = o1) (ur_get_by_id (pd_users uc) (request_user_id r))
              (\<lambda>res v. v = o1 \<and> request_id r = rid \<and>
                 (\<forall>u. res = Inr u \<longrightarrow> Option.bind u telegram_id = ob_target o1 rid))"
            by (rule triple_post [OF user_law]) (use True in \<open>auto simp: ob_target_def\<close>)
          then show ?thesis by (rule triple_pre) simp
        qed (auto simp: triple_def)
      next
        case (rest u)
        let ?P = "\<lambda>v. v = o1 \<and> request_id r = rid \<and>
          Option.bind u telegram_id = ob_target o1 rid"
        have nobody: "triple ok view ?P (rt_log (pd_runtime uc) ''process_download_user_not_found'' rid) (job rid o1)"
          if "Option.bind u telegram_id = None"
          by (rule triple_post [OF log_triple]) (use that in \<open>auto intro: skipped\<close>)
        have found: "triple ok view ?P (run_claimed uc r user tid chat mid) (job rid o1)"
          if "Option.bind u telegram_id = Some tid" for user tid
        proof (cases "request_id r = rid \<and> ob_target o1 rid = Some tid")
          case True
          then have "triple ok view (\<lambda>v. v = o1) (run_claimed uc r user tid chat mid) (job rid o1)"
            by (simp add: claimed_triple)
          then show ?thesis by (rule triple_pre) simp
        next
          case False
          then show ?thesis using that by (auto simp: triple_def)
        qed
        have "triple ok view ?P
            (case u of None \<Rightarrow> rt_log (pd_runtime uc) ''process_download_user_not_found'' rid
             | Some user \<Rightarrow>
                 (case telegram_id user of
                    None \<Rightarrow> rt_log (pd_runtime uc) ''process_download_user_not_found'' rid
                  | Some tid \<Rightarrow> run_claimed uc r user tid chat mid)) (job rid o1)"
          using nobody found by (simp split: option.split)
        then show ?case by (rule triple_pre) simp
      qed (auto intro: failed_early)
      then show ?thesis using loaded Some by simp
    qed
  qed
qed (auto intro: failed_early)

end

end
