(* ===== verification/World.thy ===== *)
theory World
  imports ProcessDownload DatabaseFacts Storage
begin

text \<open>
  The running system: one world with the database, the shared download directory, Telegram, Redis
  pub/sub and the job queue, and the program's adapters as ports on it, wired as
  \<open>src/infrastructure/queue/worker_settings.py\<close> and \<open>src/composition.py\<close> wire them.

  What belongs to the machine and not to the repository is the record \<open>machine\<close>: Unicode
  normalization, the sizes of files, \<open>ipaddress\<close>' check of a bracketed host, the child process for a download, the files it leaves in
  its directory, what other transactions and jobs do between two statements.
\<close>

section \<open>The job queue\<close>

datatype job_args = PingArgs string | DownloadArgs uuid int int

datatype enqueue_answer = Enqueued string | Duplicate | EnqueueRaises exn

record job_queue =
  q_jobs :: "job_args list"
  q_attempts :: nat
  q_answer :: "nat \<Rightarrow> enqueue_answer"

type_synonym 'a qio = "(job_queue, exn, 'a) io"

text \<open>\<open>ArqRedis.enqueue_job\<close>: the job's id, \<open>None\<close> for a duplicate, or Redis' exception.\<close>

definition enqueue_job :: "job_args \<Rightarrow> string option qio" where
  "enqueue_job args =
     bindE (askE (\<lambda>q. q_answer q (q_attempts q))) (\<lambda>answer.
       thenE (tellE (\<lambda>q. q\<lparr>q_attempts := q_attempts q + 1\<rparr>))
         (case answer of
            EnqueueRaises e \<Rightarrow> raiseE e
          | Duplicate \<Rightarrow> retE None
          | Enqueued jid \<Rightarrow>
              thenE (tellE (\<lambda>q. q\<lparr>q_jobs := q_jobs q @ [args]\<rparr>)) (retE (Some jid))))"

text \<open>\<open>src/infrastructure/queue/arq_task_queue.py\<close>\<close>

definition arq_enqueue_ping :: "string \<Rightarrow> string qio" where
  "arq_enqueue_ping message =
     bindE (enqueue_job (PingArgs message)) (\<lambda>j. case j of
       None \<Rightarrow> raiseE (RuntimeError ''Failed to enqueue ping job (duplicate job_id?)'')
     | Some jid \<Rightarrow> retE jid)"

definition arq_enqueue_download :: "uuid \<Rightarrow> int \<Rightarrow> int \<Rightarrow> string qio" where
  "arq_enqueue_download rid chat_id message_id =
     bindE (enqueue_job (DownloadArgs rid chat_id message_id)) (\<lambda>j. case j of
       None \<Rightarrow> raiseE (RuntimeError ''Failed to enqueue download job (duplicate job_id?)'')
     | Some jid \<Rightarrow> retE jid)"

section \<open>The world\<close>

record world =
  w_db :: db
  w_fs :: storage
  w_tg :: telegram
  w_pub :: pubsub
  w_queue :: job_queue
  w_uuid :: uuid
  w_log :: "(string \<times> uuid) list"

text \<open>\<open>uuid4()\<close> answers the next id of the supply \<open>w_uuid\<close>.\<close>

definition new_uuid :: "(world, exn, uuid) io" where
  "new_uuid = bindE (askE w_uuid) (\<lambda>i. thenE (tellE (\<lambda>w. w\<lparr>w_uuid := i + 1\<rparr>)) (retE i))"

record machine =
  mc_nfc :: "code_points \<Rightarrow> code_points"
  mc_stat :: "path \<Rightarrow> exn + int"
  mc_bracketed_ok :: "string \<Rightarrow> bool"
  mc_spawn :: spawn_download
  mc_spawn_preview :: "string \<Rightarrow> child"
  mc_leaves :: "string \<Rightarrow> (string \<times> node) list"
  mc_db_between :: "db \<Rightarrow> db"
  mc_fs_between :: "storage \<Rightarrow> storage"

text \<open>The settings the worker's \<open>startup\<close> puts into \<open>ctx\<close>.\<close>

record worker_ctx =
  cx_storage_dir :: path
  cx_notifier :: telegram_notifier
  cx_localizer :: fluent_localizer
  cx_max_deliverable_file_size_bytes :: int
  cx_download_timeout_seconds :: int
  cx_preview_timeout_seconds :: int
  cx_download_min_free_disk_bytes :: int
  cx_stale_request_after :: int

section \<open>The adapters as ports\<close>

definition on_db :: "'a dbio \<Rightarrow> (world, exn, 'a) io" where
  "on_db m = zoom w_db (\<lambda>d w. w\<lparr>w_db := d\<rparr>) m"

definition on_fs :: "'a stio \<Rightarrow> (world, exn, 'a) io" where
  "on_fs m = zoom w_fs (\<lambda>s w. w\<lparr>w_fs := s\<rparr>) m"

definition on_tg :: "'a tgio \<Rightarrow> (world, exn, 'a) io" where
  "on_tg m = zoom w_tg (\<lambda>t w. w\<lparr>w_tg := t\<rparr>) m"

definition on_pub :: "'a pubio \<Rightarrow> (world, exn, 'a) io" where
  "on_pub m = zoom w_pub (\<lambda>p w. w\<lparr>w_pub := p\<rparr>) m"

definition on_queue :: "'a qio \<Rightarrow> (world, exn, 'a) io" where
  "on_queue m = zoom w_queue (\<lambda>q w. w\<lparr>w_queue := q\<rparr>) m"

lemmas on_defs = on_db_def on_fs_def on_tg_def on_pub_def on_queue_def

definition world_requests :: "machine \<Rightarrow> world request_repository" where
  "world_requests mc =
     \<lparr>rr_get_by_id = \<lambda>rid. on_db (tx_get_by_id rid), rr_create = \<lambda>r. on_db (tx_create r),
      rr_update = \<lambda>r. on_db (tx_update r), rr_mark_failed_by_id = \<lambda>rid. on_db (tx_mark_failed_by_id rid),
      rr_claim_for_processing = \<lambda>rid. on_db (tx_claim_for_processing rid),
      rr_fail_stale = \<lambda>t n. on_db (tx_fail_stale (mc_db_between mc) t n),
      rr_list_by_user = \<lambda>uid n. on_db (tx_list_by_user uid n)\<rparr>"

definition world_users :: "world user_repository" where
  "world_users =
     \<lparr>ur_get_by_id = \<lambda>uid. on_db (tx_user_get_by_id uid),
      ur_get_by_telegram_id = \<lambda>tid. on_db (tx_user_get_by_telegram_id tid),
      ur_create = \<lambda>u. on_db (tx_user_create u),
      ur_set_language = \<lambda>tid l. on_db (tx_user_set_language tid l)\<rparr>"

text \<open>
  \<open>output_dir.mkdir(parents=True, exist_ok=True)\<close> for a directory below the storage directory, and
  what the child then leaves in it, however it ends.
\<close>

definition make_dir :: "string \<Rightarrow> unit stio" where
  "make_dir name =
     bindE (askE (\<lambda>s. map_of (sto_entries s) name)) (\<lambda>entry.
       case entry of
         Some (DirNode _ _) \<Rightarrow> retE ()
       | Some _ \<Rightarrow> raiseE (OSError ''FileExistsError'')
       | None \<Rightarrow> tellE (\<lambda>s. s\<lparr>sto_entries := sto_entries s @ [(name, DirNode (sto_now s) [])]\<rparr>))"

definition leave_files :: "(string \<Rightarrow> (string \<times> node) list) \<Rightarrow> string \<Rightarrow> unit stio" where
  "leave_files leaves name =
     tellE (\<lambda>s. s\<lparr>sto_entries := map (\<lambda>(n, nd). if n = name then (n, DirNode (sto_now s) (leaves n)) else (n, nd))
                                  (sto_entries s)\<rparr>)"

definition world_downloader :: "machine \<Rightarrow> worker_ctx \<Rightarrow> world downloader_port" where
  "world_downloader mc cx =
     \<lparr>dp_get_preview = \<lambda>url. liftE (get_preview (mc_spawn_preview mc) (cx_preview_timeout_seconds cx) url),
      dp_download = ytdlp_download
        (\<lambda>dir. on_fs (thenE (make_dir (path_name dir)) (leave_files (mc_leaves mc) (path_name dir)))) (mc_spawn mc)\<rparr>"

definition world_storage :: "machine \<Rightarrow> worker_ctx \<Rightarrow> world storage_port" where
  "world_storage mc cx =
     \<lparr>sp_temp_dir_for_request = \<lambda>rid. on_fs (temp_dir_for_request (cx_storage_dir cx) rid),
      sp_release = \<lambda>rid. on_fs (release rid), sp_available_bytes = on_fs available_bytes,
      sp_cleanup_expired = \<lambda>age. on_fs (cleanup_expired (mc_fs_between mc) age)\<rparr>"

definition world_notifier :: "machine \<Rightarrow> worker_ctx \<Rightarrow> world notifier_port" where
  "world_notifier mc cx =
     \<lparr>np_send_file = \<lambda>tid m c. on_tg (send_file (mc_nfc mc) (mc_stat mc) (cx_notifier cx) tid m c),
      np_send_text = \<lambda>tid t. on_tg (send_text tid t)\<rparr>"

definition world_publisher :: "world progress_publisher" where
  "world_publisher rid chat_id message_id language p =
     on_pub (redis_publish_progress rid chat_id message_id language p)"

definition world_task_queue :: "world task_queue" where
  "world_task_queue =
     \<lparr>tq_enqueue_ping = \<lambda>m. on_queue (arq_enqueue_ping m),
      tq_enqueue_download = \<lambda>rid c m. on_queue (arq_enqueue_download rid c m)\<rparr>"

definition world_runtime :: "world runtime" where
  "world_runtime =
     \<lparr>rt_now = \<lambda>w. db_clock (w_db w),
      rt_log = \<lambda>event rid. tellE (\<lambda>w. w\<lparr>w_log := w_log w @ [(event, rid)]\<rparr>)\<rparr>"

lemmas world_ports = world_requests_def world_users_def world_downloader_def world_storage_def
  world_notifier_def world_publisher_def world_task_queue_def world_runtime_def

section \<open>What the outside sees of a world\<close>

definition outbox_of :: "world \<Rightarrow> outbox" where
  "outbox_of w =
     \<lparr>ob_status = \<lambda>rid. map_option row_status (find_request rid (w_db w)),
      ob_readable = \<lambda>rid. (case find_request rid (w_db w) of None \<Rightarrow> True | Some m \<Rightarrow> row_readable m),
      ob_owner = \<lambda>rid. map_option row_user_id (find_request rid (w_db w)),
      ob_chat = \<lambda>uid. Option.bind (find_user uid (w_db w)) urow_telegram_id,
      ob_files = tg_files (w_tg w), ob_texts = tg_texts (w_tg w)\<rparr>"

definition distinct_ids :: "world \<Rightarrow> bool" where
  "distinct_ids w \<longleftrightarrow> distinct (map row_id (db_requests (w_db w)))"

text \<open>The outbox depends only on the two tables and on what Telegram accepted.\<close>

lemma outbox_of_cong:
  "db_requests (w_db w) = db_requests (w_db w') \<Longrightarrow> db_users (w_db w) = db_users (w_db w') \<Longrightarrow>
   tg_files (w_tg w) = tg_files (w_tg w') \<Longrightarrow> tg_texts (w_tg w) = tg_texts (w_tg w') \<Longrightarrow>
     outbox_of w = outbox_of w'"
  by (simp add: outbox_of_def find_request_def find_user_def cong: option.case_cong)

lemma outbox_of_other [simp]:
  "outbox_of (w\<lparr>w_fs := s\<rparr>) = outbox_of w" "outbox_of (w\<lparr>w_pub := p\<rparr>) = outbox_of w"
  "outbox_of (w\<lparr>w_queue := q\<rparr>) = outbox_of w" "outbox_of (w\<lparr>w_uuid := u\<rparr>) = outbox_of w"
  "outbox_of (w\<lparr>w_log := l\<rparr>) = outbox_of w"
  by (simp_all add: outbox_of_def)

lemma distinct_ids_other [simp]:
  "distinct_ids (w\<lparr>w_fs := s\<rparr>) = distinct_ids w" "distinct_ids (w\<lparr>w_pub := p\<rparr>) = distinct_ids w"
  "distinct_ids (w\<lparr>w_queue := q\<rparr>) = distinct_ids w" "distinct_ids (w\<lparr>w_log := l\<rparr>) = distinct_ids w"
  "distinct_ids (w\<lparr>w_tg := t\<rparr>) = distinct_ids w"
  by (simp_all add: distinct_ids_def)

lemma quiet_on [simp, intro]:
  "quiet distinct_ids outbox_of (on_fs m1)" "quiet distinct_ids outbox_of (on_pub m2)"
  "quiet distinct_ids outbox_of (on_queue m3)"
  by (simp_all add: quiet_def on_defs)

lemma quiet_log: "quiet distinct_ids outbox_of (rt_log world_runtime event rid)"
  by (simp add: quiet_def world_runtime_def tellE_def)

lemma quiet_publisher: "quiet distinct_ids outbox_of (world_publisher rid chat mid lang p)"
  by (simp add: world_publisher_def)

text \<open>Updates of one request's status, as the outbox sees them.\<close>

lemma outbox_update:
  assumes f: "\<And>m. row_id (f m) = row_id m" "\<And>m. row_user_id (f m) = row_user_id m"
  shows "outbox_of (w\<lparr>w_db := update_requests P f (w_db w)\<rparr>) =
     (outbox_of w)\<lparr>ob_status := \<lambda>k. map_option (\<lambda>m. row_status (if P m then f m else m)) (find_request k (w_db w)),
                   ob_readable := \<lambda>k. (case find_request k (w_db w) of None \<Rightarrow> True
                                        | Some m \<Rightarrow> row_readable (if P m then f m else m))\<rparr>"
proof -
  have "find_user uid (update_requests P f d) = find_user uid d" for uid d
    by (simp add: find_user_def)
  moreover have "map_option row_user_id (map_option (\<lambda>m. if P m then f m else m) x) = map_option row_user_id x" for x
    using f(2) by (cases x) simp_all
  ultimately show ?thesis
    by (simp add: outbox_of_def find_request_update [OF f(1)] option.map_comp comp_def fun_eq_iff
        split: option.split)
qed

end
