(* ===== verification/Worker.thy ===== *)
theory Worker
  imports World
begin

text \<open>
  \<open>download_job\<close> of \<open>src/infrastructure/queue/jobs.py\<close>: the use case of \<open>ProcessDownload\<close> on the
  program's own adapters.  The adapters keep the contract \<open>worker\<close>, so the job on the real world
  refines the specification \<open>job\<close>.
\<close>

definition download_use_case :: "machine \<Rightarrow> worker_ctx \<Rightarrow> world process_download" where
  "download_use_case mc cx =
     \<lparr>pd_requests = world_requests mc, pd_users = world_users, pd_downloader = world_downloader mc cx,
      pd_storage = world_storage mc cx, pd_notifier = world_notifier mc cx,
      pd_localizer = fluent_localize (cx_localizer cx), pd_publisher = world_publisher,
      pd_max_deliverable_file_size_bytes = cx_max_deliverable_file_size_bytes cx,
      pd_download_timeout_seconds = cx_download_timeout_seconds cx,
      pd_min_free_disk_bytes = cx_download_min_free_disk_bytes cx, pd_runtime = world_runtime\<rparr>"

definition download_job :: "machine \<Rightarrow> worker_ctx \<Rightarrow> uuid \<Rightarrow> int \<Rightarrow> int \<Rightarrow> (world, exn, unit) io" where
  "download_job mc cx rid chat_id message_id =
     execute_download (download_use_case mc cx) rid chat_id message_id"

lemma use_case_simps [simp]:
  "pd_requests (download_use_case mc cx) = world_requests mc"
  "pd_users (download_use_case mc cx) = world_users"
  "pd_downloader (download_use_case mc cx) = world_downloader mc cx"
  "pd_storage (download_use_case mc cx) = world_storage mc cx"
  "pd_notifier (download_use_case mc cx) = world_notifier mc cx"
  "pd_localizer (download_use_case mc cx) = fluent_localize (cx_localizer cx)"
  "pd_publisher (download_use_case mc cx) = world_publisher"
  "pd_max_deliverable_file_size_bytes (download_use_case mc cx) = cx_max_deliverable_file_size_bytes cx"
  "pd_download_timeout_seconds (download_use_case mc cx) = cx_download_timeout_seconds cx"
  "pd_min_free_disk_bytes (download_use_case mc cx) = cx_download_min_free_disk_bytes cx"
  "pd_runtime (download_use_case mc cx) = world_runtime"
  by (simp_all add: download_use_case_def)

section \<open>The adapters keep the contract\<close>

lemma get_by_id_law:
  "triple distinct_ids outbox_of (\<lambda>v. v = o1) (rr_get_by_id (world_requests mc) rid)
      (\<lambda>res v. v = o1 \<and>
         (case res of
            Inr None \<Rightarrow> ob_status v rid = None
          | Inr (Some r) \<Rightarrow> request_id r = rid \<and> ob_owner v rid = Some (request_user_id r) \<and> ob_readable v rid
          | Inl (CorruptedRecordError _ _ i u) \<Rightarrow> i = rid \<and> ob_owner v rid = Some u \<and> \<not> ob_readable v rid
          | Inl _ \<Rightarrow> True))"
proof (rule tripleI)
  fix w r w'
  assume ids: "distinct_ids w" and o1: "outbox_of w = o1"
    and run: "rr_get_by_id (world_requests mc) rid w = (r, w')"
  let ?d = "w_db w"
  have w': "w' = w\<lparr>w_db := snd (tx_get_by_id rid ?d)\<rparr>" and r: "r = fst (tx_get_by_id rid ?d)"
    using run by (auto simp: world_requests_def on_db_def zoom_def split: prod.splits)
  have same: "outbox_of w' = o1"
    unfolding o1 [symmetric] w' by (rule outbox_of_cong) (simp_all add: get_by_id_tables)
  have ids': "distinct_ids w'" using ids w' by (simp add: distinct_ids_def get_by_id_tables)
  have "case r of
            Inr None \<Rightarrow> ob_status o1 rid = None
          | Inr (Some r) \<Rightarrow> request_id r = rid \<and> ob_owner o1 rid = Some (request_user_id r) \<and> ob_readable o1 rid
          | Inl (CorruptedRecordError _ _ i u) \<Rightarrow> i = rid \<and> ob_owner o1 rid = Some u \<and> \<not> ob_readable o1 rid
          | Inl _ \<Rightarrow> True"
  proof (cases "find_request rid ?d")
    case None
    then show ?thesis unfolding r get_by_id_fst o1 [symmetric] by (simp add: outbox_of_def)
  next
    case (Some m)
    then have m: "row_id m = rid" using find_request_Some by blast
    show ?thesis
    proof (cases "row_readable m")
      case True
      then show ?thesis using Some m unfolding r get_by_id_fst o1 [symmetric]
        by (simp add: outbox_of_def row_entity_def)
    next
      case False
      then obtain c x where "row_corruption m = CorruptedRecordError c x rid (row_user_id m)"
        using row_corruption_cases m by blast
      then show ?thesis using Some False unfolding r get_by_id_fst o1 [symmetric]
        by (simp add: outbox_of_def)
    qed
  qed
  then show "distinct_ids w' \<and> outbox_of w' = o1 \<and>
         (case r of
            Inr None \<Rightarrow> ob_status (outbox_of w') rid = None
          | Inr (Some r) \<Rightarrow> request_id r = rid \<and> ob_owner (outbox_of w') rid = Some (request_user_id r) \<and>
              ob_readable (outbox_of w') rid
          | Inl (CorruptedRecordError _ _ i u) \<Rightarrow> i = rid \<and> ob_owner (outbox_of w') rid = Some u \<and>
              \<not> ob_readable (outbox_of w') rid
          | Inl _ \<Rightarrow> True)"
    using ids' unfolding same by (intro conjI refl)
qed

lemma user_get_eq: "tx_user_get_by_id uid d = (Inr (map_option to_user (find_user uid d)), d)"
  by (simp add: tx_user_get_by_id_def sql_user_get_by_id_def session_scope_def io_simps)

lemma user_get_law:
  "triple distinct_ids outbox_of (\<lambda>v. v = o1) (ur_get_by_id world_users uid)
      (\<lambda>res v. v = o1 \<and> (\<forall>u. res = Inr u \<longrightarrow> Option.bind u telegram_id = ob_chat v uid))"
  by (rule tripleI)
    (auto simp: world_users_def on_db_def zoom_def user_get_eq outbox_of_def to_user_def
      split: option.split bind_split)

text \<open>A row that is active stays as readable as it was when its status changes.\<close>

lemma row_readable_transition:
  assumes "is_active m" and "row_status m' = status_value s" and "row_format_kind m' = row_format_kind m"
    and "row_video_tier m' = row_video_tier m"
  shows "row_readable m' = row_readable m"
proof -
  have "\<exists>t. parse_status m = Inr t" using active_status_of [OF assms(1)] by (auto simp: parse_status_def)
  moreover have "\<exists>t. parse_status m' = Inr t" by (simp add: parse_status_def assms(2))
  moreover have "(\<exists>sp. parse_spec m' = Inr sp) = (\<exists>sp. parse_spec m = Inr sp)"
    by (simp add: parse_spec_def assms(3,4) split: sum.split)
  ultimately show ?thesis by (simp add: row_readable_def)
qed

lemma claimed_row:
  assumes "distinct_ids w"
  shows "(\<exists>r \<in> set (db_requests (w_db w)). row_id r = rid \<and> is_active r) \<longleftrightarrow> ob_active (outbox_of w) rid"
proof -
  have "(\<exists>r \<in> set (db_requests (w_db w)). row_id r = rid \<and> is_active r) \<longleftrightarrow>
      (\<exists>r. find_request rid (w_db w) = Some r \<and> is_active r)"
    using assms find_request_mem find_request_Some unfolding distinct_ids_def by metis
  then show ?thesis by (auto simp: ob_active_def outbox_of_def is_active_cases)
qed

lemma ids_update: "(\<And>m. row_id (f m) = row_id m) \<Longrightarrow>
    distinct_ids (w\<lparr>w_db := update_requests P f (w_db w)\<rparr>) = distinct_ids w"
  by (simp add: distinct_ids_def update_requests_ids)

text \<open>Moving one active row, seen from outside.\<close>

lemma outbox_move:
  assumes f: "\<And>m. row_id (f m) = row_id m" "\<And>m. row_user_id (f m) = row_user_id m"
      "\<And>m. row_status (f m) = status_value s" "\<And>m. row_format_kind (f m) = row_format_kind m"
      "\<And>m. row_video_tier (f m) = row_video_tier m"
    and P: "\<And>m. P m \<longleftrightarrow> row_id m = rid \<and> Q m" and m: "find_request rid (w_db w) = Some m" "is_active m" "Q m"
  shows "outbox_of (w\<lparr>w_db := update_requests P f (w_db w)\<rparr>) = set_status rid (status_value s) (outbox_of w)"
proof -
  have id: "row_id r = k" if "find_request k (w_db w) = Some r" for k r using that find_request_Some by blast
  have readable: "row_readable (f m) = row_readable m" using row_readable_transition [OF m(2) f(3-5)] .
  have a: "map_option (\<lambda>r. row_status (if P r then f r else r)) (find_request k (w_db w)) =
      ((ob_status (outbox_of w))(rid := Some (status_value s))) k" for k
    using m id [of k] P f(3) by (cases "find_request k (w_db w)") (auto simp: outbox_of_def)
  have b: "(case find_request k (w_db w) of None \<Rightarrow> True | Some r \<Rightarrow> row_readable (if P r then f r else r)) =
      ob_readable (outbox_of w) k" for k
    using m id [of k] P readable by (cases "find_request k (w_db w)") (auto simp: outbox_of_def)
  show ?thesis
    unfolding outbox_update [OF f(1,2)] a b by (simp add: set_status_def fun_upd_def)
qed

lemma claim_law:
  "triple distinct_ids outbox_of (\<lambda>v. v = o1) (rr_claim_for_processing (world_requests mc) rid)
      (\<lambda>res v. (res = Inr True \<longrightarrow> ob_active o1 rid \<and> v = set_status rid ''processing'' o1) \<and>
               (res = Inr False \<longrightarrow> \<not> ob_active o1 rid) \<and> (res \<noteq> Inr True \<longrightarrow> v = o1))"
proof (rule tripleI, goal_cases)
  case (1 w r w')
  let ?f = "\<lambda>m. m\<lparr>row_status := ''processing'', row_updated_at := db_clock (w_db w)\<rparr>"
  let ?P = "\<lambda>m. row_id m = rid \<and> is_active m"
  have run: "r = Inr (ob_active (outbox_of w) rid)" "w' = w\<lparr>w_db := update_requests ?P ?f (w_db w)\<rparr>"
    using 1 by (simp_all add: world_requests_def on_db_def zoom_def claim_eq claimed_row [OF 1(1)])
  have ids: "distinct_ids w'" unfolding run(2) by (subst ids_update) (use 1 in simp_all)
  show ?case
  proof (cases "ob_active (outbox_of w) rid")
    case True
    then obtain m where m: "find_request rid (w_db w) = Some m" "is_active m"
      by (auto simp: ob_active_def outbox_of_def is_active_cases)
    have "outbox_of w' = set_status rid (status_value PROCESSING) (outbox_of w)"
      unfolding run(2) by (rule outbox_move [where Q = is_active, OF _ _ _ _ _ _ m m(2)]) simp_all
    then show ?thesis using True run(1) ids 1(2) by simp
  next
    case False
    have "outbox_of w' = outbox_of w"
    proof (rule outbox_of_cong)
      have "\<not> ?P m" if "m \<in> set (db_requests (w_db w))" for m
        using False claimed_row [OF 1(1), of rid] that by blast
      then show "db_requests (w_db w') = db_requests (w_db w)"
        by (auto simp: run(2) update_requests_def intro!: map_idI)
    qed (simp_all add: run(2))
    then show ?thesis using False run(1) ids 1(2) by simp
  qed
qed

lemma update_law:
  assumes "ob_status o1 (request_id r) = Some ''processing''"
  shows "triple distinct_ids outbox_of (\<lambda>v. v = o1) (rr_update (world_requests mc) r)
      (\<lambda>res v. v = (if res = Inr () then set_status (request_id r) (status_value (request_status r)) o1 else o1))"
proof (rule tripleI, goal_cases)
  case (1 w res w')
  let ?f = "\<lambda>m. m\<lparr>row_status := status_value (request_status r),
                      row_completed_at := request_completed_at r, row_updated_at := db_clock (w_db w)\<rparr>"
  obtain m where m: "find_request (request_id r) (w_db w) = Some m" "is_active m"
    using assms 1(2) by (auto simp: outbox_of_def is_active_cases)
  have run: "res = Inr ()" "w' = w\<lparr>w_db := update_requests (\<lambda>m. row_id m = request_id r) ?f (w_db w)\<rparr>"
    using 1(3) m(1) by (simp_all add: world_requests_def on_db_def zoom_def update_eq)
  have "outbox_of w' = set_status (request_id r) (status_value (request_status r)) (outbox_of w)"
    unfolding run(2) by (rule outbox_move [where Q = "\<lambda>_. True", OF _ _ _ _ _ _ m]) simp_all
  moreover have "distinct_ids w'" unfolding run(2) by (subst ids_update) (use 1 in simp_all)
  ultimately show ?case using run(1) 1(2) by simp
qed

lemma mark_failed_law:
  "triple distinct_ids outbox_of (\<lambda>v. v = o1 \<and> \<not> ob_readable v rid) (rr_mark_failed_by_id (world_requests mc) rid)
      (\<lambda>res v. if res = Inr () then \<exists>b. v = (set_status rid ''failed'' o1)\<lparr>ob_readable := (ob_readable o1)(rid := b)\<rparr> else v = o1)"
proof (rule tripleI, goal_cases)
  case (1 w res w')
  let ?f = "\<lambda>m. m\<lparr>row_status := ''failed'', row_completed_at := Some (db_clock (w_db w)),
                      row_updated_at := db_clock (w_db w)\<rparr>"
  obtain m where m: "find_request rid (w_db w) = Some m"
    using 1(2) by (auto simp: outbox_of_def split: option.splits)
  have run: "res = Inr ()" "w' = w\<lparr>w_db := update_requests (\<lambda>m. row_id m = rid) ?f (w_db w)\<rparr>"
    using 1(3) m by (simp_all add: world_requests_def on_db_def zoom_def mark_failed_eq)
  have ids: "distinct_ids w'" unfolding run(2) by (subst ids_update) (use 1 in simp_all)
  have id: "row_id r = k" if "find_request k (w_db w) = Some r" for k r using that find_request_Some by blast
  have a: "(\<lambda>k. map_option (\<lambda>r. row_status (if row_id r = rid then ?f r else r)) (find_request k (w_db w))) =
      (ob_status (outbox_of w))(rid := Some ''failed'')"
  proof
    fix k
    show "map_option (\<lambda>r. row_status (if row_id r = rid then ?f r else r)) (find_request k (w_db w)) =
      ((ob_status (outbox_of w))(rid := Some ''failed'')) k"
      using m id [of k] by (cases "find_request k (w_db w)") (auto simp: outbox_of_def)
  qed
  have c: "(\<lambda>k. (case find_request k (w_db w) of None \<Rightarrow> True | Some r \<Rightarrow> row_readable (if row_id r = rid then ?f r else r))) =
      (ob_readable (outbox_of w))(rid := row_readable (?f m))"
  proof
    fix k
    show "(case find_request k (w_db w) of None \<Rightarrow> True | Some r \<Rightarrow> row_readable (if row_id r = rid then ?f r else r)) =
      ((ob_readable (outbox_of w))(rid := row_readable (?f m))) k"
      using m id [of k] by (cases "find_request k (w_db w)") (auto simp: outbox_of_def)
  qed
  have "outbox_of w' = (set_status rid ''failed'' (outbox_of w))\<lparr>ob_readable := (ob_readable (outbox_of w))(rid := row_readable (?f m))\<rparr>"
    unfolding run(2) by (subst outbox_update) (simp_all add: a c set_status_def)
  then have "\<exists>b. outbox_of w' = (set_status rid ''failed'' o1)\<lparr>ob_readable := (ob_readable o1)(rid := b)\<rparr>"
    unfolding 1(2) [THEN conjunct1] by blast
  then show ?case using run(1) ids by simp
qed

lemma send_file_law:
  "triple distinct_ids outbox_of (\<lambda>v. v = o1) (np_send_file (world_notifier mc cx) tid m c)
      (\<lambda>res v. v = (if res = Inr () then add_file (tid, dm_path m) o1 else o1))"
proof (rule tripleI, goal_cases)
  case (1 w res w')
  then obtain t where t: "send_file (mc_nfc mc) (mc_stat mc) (cx_notifier cx) tid m c (w_tg w) = (res, t)"
      "w' = w\<lparr>w_tg := t\<rparr>"
    by (auto simp: world_notifier_def on_tg_def zoom_cases)
  show ?case
    using send_file_cases [OF t(1)] 1(1,2) by (auto simp: t(2) outbox_of_def add_file_def)
qed

lemma send_text_law:
  "triple distinct_ids outbox_of (\<lambda>v. v = o1) (np_send_text (world_notifier mc cx) tid message)
      (\<lambda>res v. if res = Inr () then \<exists>t'. v = add_text (tid, t') o1 else v = o1)"
proof (rule tripleI, goal_cases)
  case (1 w res w')
  then obtain t where t: "send_text tid message (w_tg w) = (res, t)" "w' = w\<lparr>w_tg := t\<rparr>"
    by (auto simp: world_notifier_def on_tg_def zoom_cases)
  show ?case
    using send_text_cases [OF t(1)] 1(1,2) by (auto simp: t(2) outbox_of_def add_text_def)
qed

text \<open>A download is quiet when its callback is.\<close>

lemma quiet_drain_bridge:
  assumes "\<And>p. quiet ok view (cb p)"
  shows "quiet ok view (drain_bridge items cb)"
  using assms by (induction items cb rule: drain_bridge.induct) (auto intro!: quiet_bindE quiet_thenE)

lemma quiet_ytdlp_download:
  assumes "\<And>dir. quiet ok view (mkdir dir)" and "\<And>p. quiet ok view (cb p)"
  shows "quiet ok view (ytdlp_download mkdir spawn url opts (Some cb))"
  unfolding ytdlp_download_def Let_def
  by (intro quiet_thenE assms) (auto intro!: quiet_finallyE quiet_drain_bridge assms split: prod.split sum.split)

lemma release_returns: "fst (sp_release (world_storage mc cx) rid w) = Inr ()"
  by (simp add: world_storage_def on_fs_def release_eq)

lemma log_returns: "fst (rt_log world_runtime event rid w) = Inr ()"
  by (simp add: world_runtime_def tellE_def)

lemma quiet_storage:
  "quiet distinct_ids outbox_of (sp_temp_dir_for_request (world_storage mc cx) rid)"
  "quiet distinct_ids outbox_of (sp_available_bytes (world_storage mc cx))"
  "quiet distinct_ids outbox_of (sp_release (world_storage mc cx) rid)"
  by (simp_all add: world_storage_def)

interpretation program: worker "download_use_case mc cx" distinct_ids outbox_of
proof (unfold_locales, goal_cases)
  case (9 cb url opts)
  then show ?case by (auto simp: world_downloader_def intro!: quiet_ytdlp_download)
qed (auto simp: get_by_id_law user_get_law claim_law update_law mark_failed_law send_file_law send_text_law
    quiet_publisher quiet_storage quiet_log release_returns log_returns)

end
