(* ===== verification/WorkerFacts.thy ===== *)
theory WorkerFacts
  imports Worker DownloadFacts
begin

text \<open>
  What the worker's job guarantees on the real adapters: it refines the specification of
  \<open>ProcessDownload\<close>, a job that returns has delivered or told, a finished request is never touched,
  the request's files are gone afterwards, and the child is asked for the stored spec.
\<close>

section \<open>Refinement\<close>

lemma job_on_world:
  "distinct_ids w \<Longrightarrow> download_job mc cx rid chat_id message_id w = (r, w') \<Longrightarrow>
     distinct_ids w' \<and> job rid (outbox_of w) r (outbox_of w')"
  using tripleD [OF program.execute_triple, where w = w] unfolding download_job_def by blast

text \<open>C1: the worker's job refines its specification, whatever yt-dlp, Telegram, Redis and the disk
  do: every run, whether it returns or raises, is one of the transitions of \<open>job\<close>.\<close>

theorem download_job_refines:
  assumes "distinct_ids w" and "download_job mc cx rid chat_id message_id w = (r, w')"
  shows "job rid (outbox_of w) r (outbox_of w')"
  using job_on_world [OF assms] by blast


text \<open>Whatever happens in a job, an exception or a cancellation included, at most one message
  leaves, a file is sent only for an active request and only to its owner, a request ends as
  done only when its file was sent, and no other request is touched.\<close>

theorem job_sends_at_most_one:
  assumes "distinct_ids w" and "download_job mc cx rid chat_id message_id w = (r, w')"
  shows "\<exists>fs ts. ob_files (outbox_of w') = ob_files (outbox_of w) @ fs \<and>
     ob_texts (outbox_of w') = ob_texts (outbox_of w) @ ts \<and> length fs + length ts \<le> 1 \<and>
     (fs \<noteq> [] \<longrightarrow> ob_active (outbox_of w) rid) \<and>
     (\<forall>x \<in> fst ` set fs \<union> fst ` set ts. ob_target (outbox_of w) rid = Some x) \<and>
     (ob_status (outbox_of w') rid = Some ''done'' \<and> ob_status (outbox_of w) rid \<noteq> Some ''done'' \<longrightarrow> fs \<noteq> []) \<and>
     (\<forall>k. k \<noteq> rid \<longrightarrow> ob_status (outbox_of w') k = ob_status (outbox_of w) k)"
  using job_frame [OF job_on_world [OF assms, THEN conjunct2]] by fast

section \<open>The job step by step\<close>

text \<open>The row of a readable request whose owner can be reached, and what the job reads of it.\<close>

definition reachable :: "world \<Rightarrow> uuid \<Rightarrow> request_row \<Rightarrow> user_row \<Rightarrow> int \<Rightarrow> bool" where
  "reachable w rid m u tid \<longleftrightarrow>
     find_request rid (w_db w) = Some m \<and> row_readable m \<and>
     find_user (row_user_id m) (w_db w) = Some u \<and> urow_telegram_id u = Some tid"

lemma load_reachable:
  assumes "reachable w rid m u tid"
  obtains d where "d = snd (tx_get_by_id rid (w_db w))" "db_requests d = db_requests (w_db w)"
    "db_users d = db_users (w_db w)"
    "execute_download (download_use_case mc cx) rid chat_id message_id w =
     run_claimed (download_use_case mc cx) (row_entity m) (to_user u) tid chat_id message_id (w\<lparr>w_db := d\<rparr>)"
proof -
  obtain d where g: "tx_get_by_id rid (w_db w) = (Inr (Some (row_entity m)), d)"
    using get_by_id_fst [of rid "w_db w"] assms by (auto simp: reachable_def prod_eq_iff)
  have d: "db_requests d = db_requests (w_db w)" "db_users d = db_users (w_db w)"
    using get_by_id_tables [of rid "w_db w"] g by simp_all
  have "find_user (row_user_id m) d = Some u"
    using assms d by (simp add: reachable_def find_user_def)
  then have "rr_get_by_id (world_requests mc) rid w = (Inr (Some (row_entity m)), w\<lparr>w_db := d\<rparr>)"
    and "ur_get_by_id world_users (row_user_id m) (w\<lparr>w_db := d\<rparr>) = (Inr (Some (to_user u)), w\<lparr>w_db := d\<rparr>)"
    using g by (simp_all add: world_requests_def world_users_def on_db_def zoom_def user_get_eq)
  then have "execute_download (download_use_case mc cx) rid chat_id message_id w =
     run_claimed (download_use_case mc cx) (row_entity m) (to_user u) tid chat_id message_id (w\<lparr>w_db := d\<rparr>)"
    using assms
    by (simp add: execute_download_def load_request_def bindE_def try_except_def retE_def row_entity_def
        reachable_def to_user_def)
  then show ?thesis using that g d by simp
qed

text \<open>A job for a request that is no longer active, such as one the reaper failed or a duplicate
  of a finished one, does nothing but log: no download, no message, no progress event, no file, and
  the stored request stays as it is.\<close>

theorem inactive_request_is_skipped:
  assumes "reachable w rid m u tid" and "\<not> is_active m" and "distinct_ids w"
    and "download_job mc cx rid chat_id message_id w = (r, w')"
  shows "r = Inr () \<and> w_tg w' = w_tg w \<and> w_pub w' = w_pub w \<and> w_fs w' = w_fs w \<and>
     w_queue w' = w_queue w \<and> db_requests (w_db w') = db_requests (w_db w) \<and> db_users (w_db w') = db_users (w_db w)"
proof -
  obtain d where d: "db_requests d = db_requests (w_db w)" "db_users d = db_users (w_db w)"
    and run: "execute_download (download_use_case mc cx) rid chat_id message_id w =
      run_claimed (download_use_case mc cx) (row_entity m) (to_user u) tid chat_id message_id (w\<lparr>w_db := d\<rparr>)"
    using load_reachable [OF assms(1)] .
  have m: "row_id m = rid" "find_request rid (w_db w) = Some m"
    using assms(1) find_request_Some by (auto simp: reachable_def)
  have inact: "\<not> (row_id r = rid \<and> is_active r)" if "r \<in> set (db_requests d)" for r
    using that find_request_mem [of "w_db w" r] m assms(2,3) d unfolding distinct_ids_def by (metis option.inject)
  have same: "update_requests (\<lambda>r. row_id r = rid \<and> is_active r) f d = d" for f
  proof -
    have "map (\<lambda>r. if row_id r = rid \<and> is_active r then f r else r) (db_requests d) = db_requests d"
      by (rule map_idI) (use inact in auto)
    then show ?thesis by (simp add: update_requests_def)
  qed
  have none: "(\<exists>r \<in> set (db_requests d). row_id r = rid \<and> is_active r) = False" using inact by blast
  have "tx_claim_for_processing rid d = (Inr False, d)" unfolding claim_eq none same ..
  then have "rr_claim_for_processing (world_requests mc) (request_id (row_entity m)) (w\<lparr>w_db := d\<rparr>)
      = (Inr False, w\<lparr>w_db := d\<rparr>)"
    by (simp add: world_requests_def on_db_def zoom_def row_entity_def m(1))
  then show ?thesis
    using assms(4) d unfolding download_job_def run
    by (auto simp: run_claimed_def bindE_def world_runtime_def tellE_def)
qed

text \<open>An active request: the claim succeeds and the job runs to its \<open>finally\<close>.\<close>

lemma run_active:
  assumes "reachable w rid m u tid" and "is_active m"
  obtains w1 where "distinct_ids w \<Longrightarrow> distinct_ids w1" "distinct_ids w \<Longrightarrow> outbox_of w1 = set_status rid ''processing'' (outbox_of w)"
    "w_tg w1 = w_tg w" "w_pub w1 = w_pub w" "w_fs w1 = w_fs w"
    "download_job mc cx rid chat_id message_id w =
       finallyE (process_request (download_use_case mc cx) (mark_processing (row_entity m)) (to_user u) tid chat_id message_id)
         (on_fs (release rid)) w1"
proof -
  obtain d where d: "db_requests d = db_requests (w_db w)" "db_users d = db_users (w_db w)"
    and run: "execute_download (download_use_case mc cx) rid chat_id message_id w =
      run_claimed (download_use_case mc cx) (row_entity m) (to_user u) tid chat_id message_id (w\<lparr>w_db := d\<rparr>)"
    using load_reachable [OF assms(1)] .
  let ?w = "w\<lparr>w_db := d\<rparr>"
  have m: "row_id m = rid" "m \<in> set (db_requests d)"
    using assms(1) find_request_Some d(1) by (auto simp: reachable_def)
  obtain w1 where claim: "rr_claim_for_processing (world_requests mc) rid ?w = (Inr True, w1)"
    and rest: "w_tg w1 = w_tg w" "w_pub w1 = w_pub w" "w_fs w1 = w_fs w"
    using m assms(2) by (auto simp: world_requests_def on_db_def zoom_def claim_eq)
  have "distinct_ids ?w = distinct_ids w" "outbox_of ?w = outbox_of w"
    using d by (auto simp: distinct_ids_def intro: outbox_of_cong)
  moreover have "download_job mc cx rid chat_id message_id w =
       finallyE (process_request (download_use_case mc cx) (mark_processing (row_entity m)) (to_user u) tid chat_id message_id)
         (on_fs (release rid)) w1"
    using claim m(1) unfolding download_job_def run
    by (simp add: run_claimed_def bindE_def row_entity_def world_storage_def)
  ultimately show ?thesis
    using that [of w1] rest tripleD [OF claim_law _ refl claim] by simp
qed

text \<open>C18: once a job has claimed its request, the request's directory is gone afterwards, with whatever
  yt-dlp left in it, however the job ends; a directory
  the process may not remove is the only exception.\<close>

theorem job_releases_its_files:
  assumes "reachable w rid m u tid" and "is_active m"
    and "download_job mc cx rid chat_id message_id w = (r, w')"
    and "request_dir rid \<notin> set (sto_stuck (w_fs w'))"
  shows "\<not> lexists (request_dir rid) (w_fs w')"
proof -
  obtain w1 where run: "download_job mc cx rid chat_id message_id w =
       finallyE (process_request (download_use_case mc cx) (mark_processing (row_entity m)) (to_user u) tid chat_id message_id)
         (on_fs (release rid)) w1"
    using run_active [OF assms(1,2)] by metis
  let ?body = "process_request (download_use_case mc cx) (mark_processing (row_entity m)) (to_user u) tid chat_id message_id"
  have "snd (finallyE ?body (on_fs (release rid)) w1) = w'" using assms(3) run by simp
  then have "w_fs w' = snd (release rid (w_fs (snd (?body w1))))"
    unfolding finallyE_world by (auto simp: on_fs_def)
  then show ?thesis using assms(4) by (auto simp: release_eq lexists_def split: if_splits)
qed

section \<open>What the downloader is asked for\<close>

lemma stored_spec_arguments:
  assumes "row_readable m"
  shows "format_kind_value (spec_kind (request_spec (row_entity m))) = row_format_kind m \<and>
     video_tier_value (request_spec (row_entity m)) = row_video_tier m"
proof -
  obtain sp where "parse_spec m = Inr sp" using assms by (auto simp: row_readable_def)
  moreover from this have "spec_from_parts (row_format_kind m) (row_video_tier m) = Inr sp"
    by (auto simp: parse_spec_def split: sum.splits)
  moreover from this have "row_format_kind m = format_kind_value (spec_kind sp) \<and> row_video_tier m = spec_tier_value sp"
    by (cases sp) (auto simp: spec_from_parts_def spec_tier_value_def dest!: format_kind_of_Inr tier_of_Inr
        split: sum.splits format_kind.splits option.splits)
  ultimately show ?thesis
    by (cases sp) (auto simp: row_entity_def spec_tier_value_def video_tier_value_def)
qed

lemma ytdlp_download_cong:
  assumes "s1 url (path_str (options_output_dir opts)) (options_max_filesize opts)
       (format_kind_value (spec_kind (options_spec opts))) (video_tier_value (options_spec opts)) =
     s2 url (path_str (options_output_dir opts)) (options_max_filesize opts)
       (format_kind_value (spec_kind (options_spec opts))) (video_tier_value (options_spec opts))"
  shows "ytdlp_download mkdir s1 url opts cb = ytdlp_download mkdir s2 url opts cb"
  by (rule ext) (simp add: ytdlp_download_def assms)

text \<open>C19: what a job does depends on the downloader only through the child it starts for the stored
  link, format and tier and the configured size limit: the user's choice, and nothing else, reaches
  yt-dlp.\<close>

theorem job_downloads_the_stored_spec:
  assumes "reachable w rid m u tid" and "is_active m"
    and "\<And>dir. s1 (row_source_url m) dir (Some (cx_max_deliverable_file_size_bytes cx)) (row_format_kind m) (row_video_tier m)
          = s2 (row_source_url m) dir (Some (cx_max_deliverable_file_size_bytes cx)) (row_format_kind m) (row_video_tier m)"
  shows "download_job (mc\<lparr>mc_spawn := s1\<rparr>) cx rid chat_id message_id w
           = download_job (mc\<lparr>mc_spawn := s2\<rparr>) cx rid chat_id message_id w"
proof -
  let ?r = "mark_processing (row_entity m)"
  have args: "format_kind_value (spec_kind (request_spec ?r)) = row_format_kind m"
    "video_tier_value (request_spec ?r) = row_video_tier m" "source_url ?r = row_source_url m"
    using stored_spec_arguments [of m] assms(1) by (simp_all add: reachable_def mark_processing_def row_entity_def)
  let ?uc = "\<lambda>s. download_use_case (mc\<lparr>mc_spawn := s\<rparr>) cx"
  have ports: "world_requests (mc\<lparr>mc_spawn := s\<rparr>) = world_requests mc"
    "world_storage (mc\<lparr>mc_spawn := s\<rparr>) cx = world_storage mc cx"
    "world_notifier (mc\<lparr>mc_spawn := s\<rparr>) cx = world_notifier mc cx" for s
    by (simp_all add: world_requests_def world_storage_def world_notifier_def)
  note same = process_defs ports use_case_simps
  have dl: "dp_download (world_downloader (mc\<lparr>mc_spawn := s1\<rparr>) cx) (source_url ?r) (options_for (?uc s1) dir ?r) cb
      = dp_download (world_downloader (mc\<lparr>mc_spawn := s2\<rparr>) cx) (source_url ?r) (options_for (?uc s2) dir ?r) cb" for dir cb
    using ytdlp_download_cong [of s1 "source_url ?r" "options_for (?uc s1) dir ?r" s2] assms(3) args
    by (simp add: world_downloader_def options_for_def)
  have fail: "fail_request (?uc s1) = fail_request (?uc s2)" and cb: "on_progress (?uc s1) = on_progress (?uc s2)"
    and deliver: "delivery_phase (?uc s1) = delivery_phase (?uc s2)" and loc: "localize_failure (?uc s1) = localize_failure (?uc s2)"
    and low: "low_disk (?uc s1) = low_disk (?uc s2)"
    unfolding same by (rule refl)+
  have phase: "download_phase (?uc s1) ?r = download_phase (?uc s2) ?r"
    by (intro ext, unfold download_phase_def dl fail cb loc use_case_simps, rule refl)
  have process: "process_request (?uc s1) ?r = process_request (?uc s2) ?r"
    by (intro ext, unfold process_request_def phase fail deliver loc low ports use_case_simps, rule refl)
  have claimed: "run_claimed (?uc s1) (row_entity m) = run_claimed (?uc s2) (row_entity m)"
    by (intro ext, unfold run_claimed_def process ports use_case_simps, rule refl)
  have "execute_download (?uc s) rid chat_id message_id w =
      run_claimed (?uc s) (row_entity m) (to_user u) tid chat_id message_id (w\<lparr>w_db := snd (tx_get_by_id rid (w_db w))\<rparr>)" for s
    by (rule load_reachable [OF assms(1), of "mc\<lparr>mc_spawn := s\<rparr>" cx chat_id message_id]) simp
  note run = this
  show ?thesis unfolding download_job_def run claimed by (rule refl)
qed

section \<open>A failing progress channel\<close>

lemma publish_fails:
  assumes "pub_answer (w_pub w) (pub_commands (w_pub w)) = Some e"
  shows "world_publisher rid chat mid lang p w =
     (Inl e, w\<lparr>w_pub := (w_pub w)\<lparr>pub_commands := pub_commands (w_pub w) + 1\<rparr>\<rparr>)"
proof -
  have "serializable (progress_payload chat mid lang p)"
    by (simp add: progress_payload_def opt_float_def opt_int_def opt_str_def split: option.split)
  then show ?thesis
    using assms by (simp add: world_publisher_def on_pub_def zoom_def redis_publish_progress_def json_dumps_def
        redis_publish_def io_simps)
qed

text \<open>The download of an active request whose first progress event cannot be published.\<close>

lemma download_raises:
  assumes "make_dir name s = (Inr (), s)"
    and run: "run_download_in_process (mc_spawn mc url (path_str (options_output_dir opts))
           (options_max_filesize opts) (format_kind_value (spec_kind (options_spec opts)))
           (video_tier_value (options_spec opts))) (options_timeout opts) = (Inr result, Some raw # sunk, t)"
    and "build_download_progress raw = Inr p" and "path_name (options_output_dir opts) = name" and "w_fs w = s"
    and pub: "\<And>n. pub_answer (w_pub w) n = Some e"
  shows "\<exists>w'. dp_download (world_downloader mc cx) url opts (Some (\<lambda>p. world_publisher rid chat mid lang p)) w
           = (Inl e, w')"
proof -
  let ?mk = "\<lambda>dir. on_fs (thenE (make_dir (path_name dir)) (leave_files (mc_leaves mc) (path_name dir)))"
  obtain w1 where mk: "?mk (options_output_dir opts) w = (Inr (), w1)" and same: "w_pub w1 = w_pub w"
    using assms(1,4,5) by (simp add: on_fs_def zoom_def thenE_def bindE_def leave_files_def tellE_def)
  have "ytdlp_download ?mk (mc_spawn mc) url opts (Some (\<lambda>p. world_publisher rid chat mid lang p)) w =
      (Inl e, w1\<lparr>w_pub := (w_pub w1)\<lparr>pub_commands := pub_commands (w_pub w1) + 1\<rparr>\<rparr>)"
    using ytdlp_download_eq [of ?mk opts w w1 "mc_spawn mc" url, OF mk run] assms(3) pub same
    by (simp add: bindE_def liftE_def thenE_def publish_fails)
  then show ?thesis by (simp add: world_downloader_def)
qed

text \<open>C30: a progress event that cannot be published aborts the job although the file was downloaded: the
  request stays PROCESSING, nothing is sent, nobody is told, and the exception is the publisher's.
  The phase events are guarded and the comments say the card is cosmetic; the progress callback
  is not guarded.\<close>

theorem progress_failure_strands_request:
  assumes "reachable w rid m u tid" and "is_active m" and "distinct_ids w"
    and "cx_download_min_free_disk_bytes cx \<le> sto_free (w_fs w)"
    and "map_of (sto_entries (w_fs w)) (request_dir rid) = None"
    and run: "run_download_in_process (mc_spawn mc (row_source_url m)
           (path_str (cx_storage_dir cx @ [request_dir rid]))
           (Some (cx_max_deliverable_file_size_bytes cx)) (row_format_kind m) (row_video_tier m))
           (cx_download_timeout_seconds cx) = (Inr result, Some raw # sunk, t)"
    and "build_download_progress raw = Inr p"
    and pub: "\<And>n. pub_answer (w_pub w) n = Some e" and "\<not> is_extraction_error e" and "\<not> is_unsupported_url_error e"
    and "download_job mc cx rid chat_id message_id w = (r, w')"
  shows "r = Inl e \<and> ob_status (outbox_of w') rid = Some ''processing'' \<and>
     ob_files (outbox_of w') = ob_files (outbox_of w) \<and> ob_texts (outbox_of w') = ob_texts (outbox_of w)"
proof -
  let ?r = "mark_processing (row_entity m)" and ?uc = "download_use_case mc cx"
  let ?name = "request_dir rid"
  obtain w1 where w1: "distinct_ids w1" "outbox_of w1 = set_status rid ''processing'' (outbox_of w)"
      "w_pub w1 = w_pub w" "w_fs w1 = w_fs w"
    and job: "download_job mc cx rid chat_id message_id w =
       finallyE (process_request ?uc ?r (to_user u) tid chat_id message_id) (on_fs (release rid)) w1"
    using run_active [OF assms(1,2)] assms(3) by metis
  define s where "s = (w_fs w)\<lparr>sto_entries := sto_entries (w_fs w) @ [(?name, DirNode (sto_now (w_fs w)) [])]\<rparr>"
  have id: "request_id ?r = rid" using assms(1) find_request_Some
    by (auto simp: reachable_def mark_processing_def row_entity_def)
  have low: "low_disk ?uc w1 = (Inr False, w1)"
    using assms(4) w1(4) by (simp add: low_disk_def world_storage_def on_fs_def zoom_def bindE_def retE_def
        available_bytes_def askE_def)
  have dir: "sp_temp_dir_for_request (world_storage mc cx) rid w1 = (Inr (cx_storage_dir cx @ [?name]), w1\<lparr>w_fs := s\<rparr>)"
    using assms(5) w1(4) by (simp add: world_storage_def on_fs_def zoom_def temp_dir_for_request_def io_simps s_def)
  let ?w2 = "w1\<lparr>w_fs := s\<rparr>" and ?opts = "options_for ?uc (cx_storage_dir cx @ [?name]) ?r"
  have args: "format_kind_value (spec_kind (request_spec ?r)) = row_format_kind m"
    "video_tier_value (request_spec ?r) = row_video_tier m" "source_url ?r = row_source_url m"
    using stored_spec_arguments [of m] assms(1) by (simp_all add: reachable_def mark_processing_def row_entity_def)
  have mk: "make_dir ?name s = (Inr (), s)"
    using assms(5) by (simp add: make_dir_def io_simps s_def map_add_def)
  have "\<exists>w3. dp_download (world_downloader mc cx) (source_url ?r) ?opts
      (Some (on_progress ?uc ?r (to_user u) chat_id message_id)) ?w2 = (Inl e, w3)"
    unfolding on_progress_def use_case_simps id
    by (rule download_raises [OF mk _ assms(7), where result = result and sunk = sunk and t = t])
      (use run w1(3) pub args in \<open>simp_all add: options_for_def path_name_def\<close>)
  then obtain w3 where dl: "dp_download (world_downloader mc cx) (source_url ?r) ?opts
      (Some (on_progress ?uc ?r (to_user u) chat_id message_id)) ?w2 = (Inl e, w3)" by blast
  have "quiet distinct_ids outbox_of (dp_download (world_downloader mc cx) (source_url ?r) ?opts
      (Some (on_progress ?uc ?r (to_user u) chat_id message_id)))"
    using program.quiet_download [of mc cx] by simp
  from quietD [OF this _ dl] w1 have w3: "outbox_of w3 = set_status rid ''processing'' (outbox_of w)" by simp
  have "process_request ?uc ?r (to_user u) tid chat_id message_id w1 = (Inl e, w3)"
    using low dir dl assms(9,10)
    by (simp add: process_request_def bindE_def id download_phase_def try_except_def)
  then have "download_job mc cx rid chat_id message_id w = (Inl e, w3\<lparr>w_fs := snd (release rid (w_fs w3))\<rparr>)"
    unfolding job by (simp add: finallyE_def on_fs_def zoom_def release_eq)
  then show ?thesis using w3 assms(11) by (auto simp: outbox_defs)
qed

section \<open>Witnesses\<close>

text \<open>A small system: the database of \<open>DatabaseFacts\<close>, an empty download directory, services that answer.\<close>

definition example_world :: "exn option \<Rightarrow> world" where
  "example_world redis_error =
     \<lparr>w_db = example_db,
      w_fs = \<lparr>sto_entries = [], sto_stuck = [], sto_now = 0, sto_free = 1000, sto_log = []\<rparr>,
      w_tg = \<lparr>tg_accepted = [], tg_attempts = 0, tg_answer = (\<lambda>_. None), tg_api_error = (\<lambda>_. False), tg_log = []\<rparr>,
      w_pub = \<lparr>pub_messages = [], pub_commands = 0, pub_answer = (\<lambda>_. redis_error)\<rparr>,
      w_queue = \<lparr>q_jobs = [], q_attempts = 0, q_answer = (\<lambda>_. Enqueued ''j'')\<rparr>, w_uuid = 50, w_log = []\<rparr>"

definition example_machine :: "spawn_download \<Rightarrow> machine" where
  "example_machine spawn =
     \<lparr>mc_nfc = (\<lambda>x. x), mc_stat = (\<lambda>_. Inr 7), mc_bracketed_ok = (\<lambda>_. False), mc_spawn = spawn, mc_spawn_preview = (\<lambda>_. example_child),
      mc_leaves = (\<lambda>_. [(''a.part'', FileNode 0 3)]), mc_db_between = (\<lambda>d. d), mc_fs_between = (\<lambda>s. s)\<rparr>"

text \<open>A child that dies at once, without a result.\<close>

definition dying_child :: spawn_download where
  "dying_child url dir limit kind tier =
     \<lparr>ch_exit = Some 0, ch_exit_code = 1, ch_progress = [], ch_result = None, ch_result_fits = True,
      ch_sigterm = None\<rparr>"

definition example_ctx :: worker_ctx where
  "example_ctx =
     \<lparr>cx_storage_dir = [''d''],
      cx_notifier = \<lparr>tn_max_file_size_bytes = 100, tn_file_upload_timeout_seconds = 60\<rparr>,
      cx_localizer = \<lparr>fl_core_get = (\<lambda>key locale args. Inr key), fl_default_locale = ''ru'',
                      fl_supported = [''ru'', ''en'']\<rparr>,
      cx_max_deliverable_file_size_bytes = 100000000, cx_download_timeout_seconds = 30,
      cx_preview_timeout_seconds = 30, cx_download_min_free_disk_bytes = 10,
      cx_stale_request_after = 2400\<rparr>"

lemmas example_world_defs = example_world_def example_machine_def example_ctx_def example_db_defs

lemma example_reachable: "reachable (example_world e) 11 (example_request 11 ''pending'' 3) example_user 100"
  and example_done: "reachable (example_world e) 12 (example_request 12 ''done'' 1) example_user 100"
  by (simp_all add: reachable_def example_world_def example_db_defs find_request_def find_user_def row_readable_def
      parse_status_def parse_spec_def status_of_def spec_from_parts_def format_kind_of_def tier_of_def)

lemma example_active: "is_active (example_request 11 ''pending'' 3)" "\<not> is_active (example_request 12 ''done'' 1)"
  by (simp_all add: is_active_cases example_request_def)

lemma example_ids: "distinct_ids (example_world e)"
  by (simp add: distinct_ids_def example_world_def example_db_defs)

lemma example_outbox:
  "ob_active (outbox_of (example_world e)) 11" "ob_readable (outbox_of (example_world e)) 11"
  "ob_target (outbox_of (example_world e)) 11 = Some 100" "ob_files (outbox_of (example_world e)) = []"
  "ob_texts (outbox_of (example_world e)) = []"
  using example_reachable [of e]
  by (simp_all add: outbox_of_def ob_active_def ob_target_def reachable_def example_request_def)
    (simp_all add: example_world_def tg_files_def tg_texts_def map_filter_def)

lemma example_run: "fst (download_job (example_machine dying_child) example_ctx 11 5 6 (example_world None)) = Inr ()"
  by code_simp

lemma example_run': "download_job (example_machine dying_child) example_ctx 11 5 6 (example_world None) =
    (Inr (), snd (download_job (example_machine dying_child) example_ctx 11 5 6 (example_world None)))"
  by (rule prod_eqI) (simp_all add: example_run)

theorem download_job_refines_witness:
  "job 11 (outbox_of (example_world None)) (Inr ())
     (outbox_of (snd (download_job (example_machine dying_child) example_ctx 11 5 6 (example_world None))))"
  by (rule download_job_refines [OF example_ids example_run'])


theorem job_sends_at_most_one_witness:
  "\<exists>fs ts. ob_files (outbox_of (snd (download_job (example_machine dying_child) example_ctx 11 5 6 (example_world None)))) = fs \<and>
     ob_texts (outbox_of (snd (download_job (example_machine dying_child) example_ctx 11 5 6 (example_world None)))) = ts \<and>
     length fs + length ts \<le> 1"
  using job_sends_at_most_one [OF example_ids example_run'] example_outbox(4,5) by auto

theorem inactive_request_is_skipped_witness:
  "fst (download_job (example_machine dying_child) example_ctx 12 5 6 (example_world None)) = Inr () \<and>
   w_tg (snd (download_job (example_machine dying_child) example_ctx 12 5 6 (example_world None))) = w_tg (example_world None)"
  using inactive_request_is_skipped [OF example_done example_active(2) example_ids surjective_pairing] by blast

theorem job_releases_its_files_witness:
  "\<not> lexists (request_dir 11) (w_fs (snd (download_job (example_machine dying_child) example_ctx 11 5 6 (example_world None))))"
proof -
  have "sto_stuck (w_fs (snd (download_job (example_machine dying_child) example_ctx 11 5 6 (example_world None)))) = []"
    by code_simp
  then show ?thesis
    by (intro job_releases_its_files [OF example_reachable example_active(1) surjective_pairing]) simp
qed

theorem job_downloads_the_stored_spec_witness:
  "download_job ((example_machine dying_child)\<lparr>mc_spawn := dying_child\<rparr>) example_ctx 11 5 6 (example_world None) =
   download_job ((example_machine dying_child)\<lparr>mc_spawn := (\<lambda>url dir limit kind tier.
       if kind = ''audio'' then example_child else dying_child url dir limit kind tier)\<rparr>)
     example_ctx 11 5 6 (example_world None)"
  by (rule job_downloads_the_stored_spec [OF example_reachable example_active(1)]) (simp add: example_request_def)

theorem progress_failure_strands_request_witness:
  "fst (download_job (example_machine (spawn_download_child example_ytdl example_timing)) example_ctx 11 5 6
      (example_world (Some (LibraryError ''ConnectionError'' [])))) = Inl (LibraryError ''ConnectionError'' [])"
proof -
  let ?e = "LibraryError ''ConnectionError'' []"
  let ?run = "run_download_in_process (mc_spawn (example_machine (spawn_download_child example_ytdl example_timing))
      (row_source_url (example_request 11 ''pending'' 3)) (path_str (cx_storage_dir example_ctx @ [request_dir 11]))
      (Some (cx_max_deliverable_file_size_bytes example_ctx)) (row_format_kind (example_request 11 ''pending'' 3))
      (row_video_tier (example_request 11 ''pending'' 3))) (cx_download_timeout_seconds example_ctx)"
  let ?raw = "[(''downloaded_bytes'', PInt 5), (''total_bytes'', PInt 10), (''speed'', PNone), (''eta'', PNone)]"
  have res: "(case fst ?run of Inr _ \<Rightarrow> True | Inl _ \<Rightarrow> False)" by code_simp
  have sunk: "fst (snd ?run) = [Some ?raw, None]" by code_simp
  obtain result where run: "?run = (Inr result, Some ?raw # [None], snd (snd ?run))"
    using res sunk by (cases "fst ?run") (auto simp: prod_eq_iff)
  have raw: "build_download_progress ?raw = Inr \<lparr>progress_percent = Some 50, progress_downloaded = 5,
        progress_total = Some 10, progress_speed = None, progress_eta = None, progress_phase_of = DOWNLOADING\<rparr>"
    by code_simp
  have pub: "pub_answer (w_pub (example_world (Some ?e))) n = Some ?e" for n by (simp add: example_world_def)
  show ?thesis
    using progress_failure_strands_request
      [OF example_reachable example_active(1) example_ids _ _ run raw pub _ _ surjective_pairing, of 5 6]
    by (simp add: example_world_def example_ctx_def)
qed

end
