(* ===== verification/UseCases.thy ===== *)
theory UseCases
  imports World UrlValidation Policy
begin

text \<open>
  The use cases of the bot process (\<open>src/application/use_cases\<close>): registering a user, setting the
  language, previewing, requesting a download, the ping; and the provider of \<open>src/composition.py\<close>
  that builds them: one session for the user use cases, one transaction per repository call for a
  download request.  Binding log context has no effect the model shows.
\<close>

section \<open>Users\<close>

text \<open>\<open>fresh\<close> draws a \<open>uuid4\<close>; \<open>now\<close> reads the clock.\<close>

definition register_user ::
    "'w user_repository \<Rightarrow> ('w, exn, uuid) io \<Rightarrow> ('w \<Rightarrow> time) \<Rightarrow> int \<Rightarrow> string option \<Rightarrow> ('w, exn, user) io" where
  "register_user users fresh now tid language =
     bindE (ur_get_by_telegram_id users tid) (\<lambda>existing.
       case existing of
         Some u \<Rightarrow> retE u
       | None \<Rightarrow>
           bindE fresh (\<lambda>new_id. bindE (askE now) (\<lambda>t.
             ur_create users (create_from_telegram new_id t tid language))))"

definition set_user_language ::
    "'w user_repository \<Rightarrow> int \<Rightarrow> string option \<Rightarrow> ('w, exn, user option) io" where
  "set_user_language users tid language = ur_set_language users tid language"

section \<open>Preview and ping\<close>

definition preview_download ::
    "(string \<Rightarrow> bool) \<Rightarrow> 'w downloader_port \<Rightarrow> string \<Rightarrow> ('w, exn, media_preview) io" where
  "preview_download bracketed_ok downloader url =
     bindE (liftE (validate_url bracketed_ok url)) (dp_get_preview downloader)"

definition trigger_ping :: "'w task_queue \<Rightarrow> string \<Rightarrow> ('w, exn, string) io" where
  "trigger_ping queue message = tq_enqueue_ping queue message"

section \<open>Requesting a download\<close>

record 'w request_download =
  rd_users :: "'w user_repository"
  rd_requests :: "'w request_repository"
  rd_queue :: "'w task_queue"
  rd_policy :: format_policy
  rd_bracketed_ok :: "string \<Rightarrow> bool"
  rd_fresh :: "('w, exn, uuid) io"
  rd_runtime :: "'w runtime"

definition ensure_user :: "'w request_download \<Rightarrow> int \<Rightarrow> ('w, exn, user) io" where
  "ensure_user uc tid =
     bindE (ur_get_by_telegram_id (rd_users uc) tid) (\<lambda>found.
       case found of
         Some u \<Rightarrow> retE u
       | None \<Rightarrow>
           bindE (rd_fresh uc) (\<lambda>new_id. bindE (askE (rt_now (rd_runtime uc))) (\<lambda>t.
             ur_create (rd_users uc) (create_from_telegram new_id t tid None))))"

text \<open>The enqueue with its \<open>except Exception\<close>: the row is marked failed by id before the domain error.\<close>

definition enqueue_request ::
    "'w request_download \<Rightarrow> uuid \<Rightarrow> int \<Rightarrow> int \<Rightarrow> ('w, exn, unit) io" where
  "enqueue_request uc rid chat_id message_id =
     try_except
       (bindE (tq_enqueue_download (rd_queue uc) rid chat_id message_id) (\<lambda>_. retE ()))
       (\<lambda>e. if is_exception e then
              Some (thenE (rt_log (rd_runtime uc) ''request_download_enqueue_failed'' rid)
                   (thenE (rr_mark_failed_by_id (rd_requests uc) rid)
                     (raiseE DownloadEnqueueError)))
            else None)"

text \<open>\<open>execute\<close>: what is checked and committed before the job exists, and then the enqueue.\<close>

definition store_request ::
    "'w request_download \<Rightarrow> int \<Rightarrow> string \<Rightarrow> download_spec \<Rightarrow> string \<Rightarrow> ('w, exn, download_request) io" where
  "store_request uc tid url sp extractor_key =
     bindE (liftE (validate_url (rd_bracketed_ok uc) url)) (\<lambda>validated_url.
       if \<not> is_allowed (rd_policy uc) extractor_key sp then raiseE FormatNotAllowedError
       else
         bindE (ensure_user uc tid) (\<lambda>u.
         bindE (rd_fresh uc) (\<lambda>new_id.
         bindE (askE (rt_now (rd_runtime uc))) (\<lambda>t.
           let r = create_request new_id t (user_id u) validated_url sp
           in thenE (rr_create (rd_requests uc) r) (retE r)))))"

definition execute_request ::
    "'w request_download \<Rightarrow> int \<Rightarrow> string \<Rightarrow> download_spec \<Rightarrow> string \<Rightarrow> int \<Rightarrow> int \<Rightarrow>
     ('w, exn, download_request) io" where
  "execute_request uc tid url sp extractor_key chat_id message_id =
     bindE (store_request uc tid url sp extractor_key) (\<lambda>r.
       thenE (enqueue_request uc (request_id r) chat_id message_id) (retE r))"

section \<open>The provider\<close>

text \<open>The repositories on an open session.\<close>

definition session_users :: "db user_repository" where
  "session_users =
     \<lparr>ur_get_by_id = sql_user_get_by_id, ur_get_by_telegram_id = sql_user_get_by_telegram_id,
      ur_create = sql_user_create, ur_set_language = sql_user_set_language\<rparr>"

text \<open>Inside the session the next \<open>uuid4\<close> is drawn beforehand: \<open>new_id\<close>.\<close>

definition provide_register_user :: "int \<Rightarrow> string option \<Rightarrow> (world, exn, user) io" where
  "provide_register_user tid language =
     bindE new_uuid (\<lambda>new_id.
       on_db (session_scope (register_user session_users (retE new_id) db_clock tid language)))"

definition provide_set_user_language :: "int \<Rightarrow> string option \<Rightarrow> (world, exn, user option) io" where
  "provide_set_user_language tid language =
     on_db (session_scope (set_user_language session_users tid language))"

definition request_use_case :: "machine \<Rightarrow> format_policy \<Rightarrow> world request_download" where
  "request_use_case mc p =
     \<lparr>rd_users = world_users, rd_requests = world_requests mc, rd_queue = world_task_queue,
      rd_policy = p, rd_bracketed_ok = mc_bracketed_ok mc, rd_fresh = new_uuid, rd_runtime = world_runtime\<rparr>"

definition provide_request_download ::
    "machine \<Rightarrow> format_policy \<Rightarrow> int \<Rightarrow> string \<Rightarrow> download_spec \<Rightarrow> string \<Rightarrow> int \<Rightarrow> int \<Rightarrow>
     (world, exn, download_request) io" where
  "provide_request_download mc p = execute_request (request_use_case mc p)"

definition provide_preview_download :: "machine \<Rightarrow> worker_ctx \<Rightarrow> string \<Rightarrow> (world, exn, media_preview) io" where
  "provide_preview_download mc cx = preview_download (mc_bracketed_ok mc) (world_downloader mc cx)"

definition provide_trigger_ping :: "string \<Rightarrow> (world, exn, string) io" where
  "provide_trigger_ping = trigger_ping world_task_queue"

lemma request_use_case_simps [simp]:
  "rd_users (request_use_case mc p) = world_users" "rd_requests (request_use_case mc p) = world_requests mc"
  "rd_queue (request_use_case mc p) = world_task_queue" "rd_policy (request_use_case mc p) = p"
  "rd_bracketed_ok (request_use_case mc p) = mc_bracketed_ok mc" "rd_fresh (request_use_case mc p) = new_uuid"
  "rd_runtime (request_use_case mc p) = world_runtime"
  by (simp_all add: request_use_case_def)

end
