(* ===== verification/UseCasesFacts.thy ===== *)
theory UseCasesFacts
  imports UseCases WorkerFacts
begin

text \<open>
  What the bot's use cases guarantee: registering is idempotent, a download request is all or
  nothing, and its row is committed and ready for the worker before its job can start.
\<close>

section \<open>The repository calls of the bot\<close>

lemma user_get_by_tid_eq:
  "tx_user_get_by_telegram_id tid d =
     (case one_or_none (users_by_telegram_id tid d) of
        Inl e \<Rightarrow> (Inl e, d) | Inr m \<Rightarrow> (Inr (map_option to_user m), d))"
  by (simp add: tx_user_get_by_telegram_id_def sql_user_get_by_telegram_id_def session_scope_def io_simps
      split: sum.split)

lemma one_or_none_Some: "one_or_none xs = Inr (Some x) \<Longrightarrow> xs = [x]"
  by (auto simp: one_or_none_def split: list.splits)

lemma one_or_none_None: "one_or_none xs = Inr None \<Longrightarrow> xs = []"
  by (auto simp: one_or_none_def split: list.splits)

lemma users_by_telegram_id_append [simp]:
  "users_by_telegram_id tid (d\<lparr>db_users := us @ [u]\<rparr>) =
     users_by_telegram_id tid (d\<lparr>db_users := us\<rparr>) @ (if urow_telegram_id u = Some tid then [u] else [])"
  by (simp add: users_by_telegram_id_def)

lemma insert_user_cases:
  "insert_user u d = (r, d') \<Longrightarrow>
     (r = Inr () \<and> d' = d\<lparr>db_users := db_users d @ [u]\<rparr> \<and> find_user (urow_id u) d = None) \<or>
     (\<exists>e. r = Inl e \<and> d' = d)"
  by (auto simp: insert_user_def io_simps split: if_splits)

lemma user_create_cases:
  "tx_user_create u d = (r, d') \<Longrightarrow>
     (r = Inr u \<and> d' = d\<lparr>db_users := db_users d @ [user_row_of (db_clock d) u]\<rparr> \<and> find_user (user_id u) d = None) \<or>
     (\<exists>e. r = Inl e \<and> d' = d)"
  by (auto simp: tx_user_create_def sql_user_create_def session_scope_def bindE_def thenE_def askE_def retE_def
      user_row_of_def split: prod.splits sum.splits dest!: insert_user_cases)

lemma insert_request_cases:
  "insert_request m d = (r, d') \<Longrightarrow>
     (r = Inr () \<and> d' = d\<lparr>db_requests := db_requests d @ [m]\<rparr> \<and> find_request (row_id m) d = None) \<or>
     (\<exists>e. r = Inl e \<and> d' = d)"
  by (auto simp: insert_request_def io_simps split: if_splits)

lemma create_cases:
  "tx_create q d = (r, d') \<Longrightarrow>
     (r = Inr q \<and> d' = d\<lparr>db_requests := db_requests d @ [request_row_of (db_clock d) q]\<rparr> \<and>
        find_request (request_id q) d = None) \<or>
     (\<exists>e. r = Inl e \<and> d' = d)"
  by (auto simp: tx_create_def sql_create_def session_scope_def bindE_def thenE_def askE_def retE_def
      request_row_of_def split: prod.splits sum.splits dest!: insert_request_cases)

lemma enqueue_cases:
  "arq_enqueue_download rid chat_id message_id q = (r, q') \<Longrightarrow>
     (\<exists>jid. r = Inr jid \<and> q_jobs q' = q_jobs q @ [DownloadArgs rid chat_id message_id]) \<or>
     (\<exists>e. r = Inl e \<and> q_jobs q' = q_jobs q)"
  by (auto simp: arq_enqueue_download_def enqueue_job_def io_simps split: enqueue_answer.splits option.splits)

text \<open>The user of a request: found or registered on the fly.\<close>

definition user_row_at :: "int \<Rightarrow> uuid \<Rightarrow> db \<Rightarrow> bool" where
  "user_row_at tid uid d \<longleftrightarrow> (\<exists>u \<in> set (db_users d). urow_id u = uid \<and> urow_telegram_id u = Some tid)"

lemma ensure_user_cases:
  assumes "ensure_user uc tid w = (r, w')" and "rd_users uc = world_users" and "rd_fresh uc = new_uuid"
  shows "w_queue w' = w_queue w \<and> db_requests (w_db w') = db_requests (w_db w) \<and>
    (\<forall>u. r = Inr u \<longrightarrow> user_row_at tid (user_id u) (w_db w')) \<and> (db_ok (w_db w) \<longrightarrow> db_ok (w_db w'))"
proof (cases "one_or_none (users_by_telegram_id tid (w_db w))")
  case (Inl e)
  then show ?thesis using assms
    by (auto simp: ensure_user_def bindE_def world_users_def on_db_def zoom_def user_get_by_tid_eq)
next
  case (Inr found)
  show ?thesis
  proof (cases found)
    case (Some m)
    then have "m \<in> set (users_by_telegram_id tid (w_db w))" using one_or_none_Some Inr by fastforce
    then show ?thesis using assms Inr Some
      by (auto simp: ensure_user_def bindE_def retE_def world_users_def on_db_def zoom_def user_get_by_tid_eq
          users_by_telegram_id_def user_row_at_def to_user_def)
  next
    case None
    obtain t where now: "askE (rt_now (rd_runtime uc)) (w\<lparr>w_uuid := w_uuid w + 1\<rparr>) = (Inr t, w\<lparr>w_uuid := w_uuid w + 1\<rparr>)"
      by (simp add: askE_def)
    let ?u = "create_from_telegram (w_uuid w) t tid None"
    obtain r1 d1 where c: "tx_user_create ?u (w_db w) = (r1, d1)" by fastforce
    have ok: "db_ok (w_db w) \<longrightarrow> db_ok d1"
      using keepsD [of db_ok "tx_user_create ?u"] c unfolding tx_user_create_def
      by (metis keeps_sql_user_create session_scope_ok snd_conv)
    have "r = r1 \<and> w' = w\<lparr>w_uuid := w_uuid w + 1, w_db := d1\<rparr>"
      using assms Inr None now c
      by (simp add: ensure_user_def bindE_def world_users_def on_db_def zoom_def user_get_by_tid_eq new_uuid_def
          askE_def thenE_def tellE_def retE_def)
    then show ?thesis using user_create_cases [OF c] ok
      by (auto simp: user_row_at_def user_row_of_def create_from_telegram_def)
  qed
qed

section \<open>A download request\<close>

text \<open>The row a stored request has, and the world it is stored in.\<close>

definition stored_request :: "world \<Rightarrow> int \<Rightarrow> download_spec \<Rightarrow> string \<Rightarrow> download_request \<Rightarrow> request_row \<Rightarrow> world \<Rightarrow> bool" where
  "stored_request w tid sp url q row w1 \<longleftrightarrow>
     w_queue w1 = w_queue w \<and> db_requests (w_db w1) = db_requests (w_db w) @ [row] \<and>
     find_request (row_id row) (w_db w) = None \<and> row_id row = request_id q \<and>
     row_source_url row = url \<and> row_format_kind row = format_kind_value (spec_kind sp) \<and>
     row_video_tier row = spec_tier_value sp \<and> row_status row = ''pending'' \<and> row_readable row \<and>
     user_row_at tid (row_user_id row) (w_db w1) \<and> (db_ok (w_db w) \<longrightarrow> db_ok (w_db w1))"

lemma store_request_cases:
  assumes run: "store_request (request_use_case mc p) tid url sp ek w = (r, w1)"
  shows "(\<exists>q url' row. r = Inr q \<and> validate_url (mc_bracketed_ok mc) url = Inr url' \<and> is_allowed p ek sp \<and>
       stored_request w tid sp url' q row w1) \<or>
    (\<exists>e. r = Inl e \<and> w_queue w1 = w_queue w \<and> db_requests (w_db w1) = db_requests (w_db w))"
proof (cases "validate_url (mc_bracketed_ok mc) url")
  case (Inl e)
  then show ?thesis using run by (auto simp: store_request_def bindE_def liftE_def)
next
  case (Inr url')
  let ?uc = "request_use_case mc p"
  show ?thesis
  proof (cases "is_allowed p ek sp")
    case False
    then show ?thesis using run Inr by (auto simp: store_request_def bindE_def liftE_def raiseE_def)
  next
    case True
    obtain r0 w0 where u: "ensure_user ?uc tid w = (r0, w0)" by fastforce
    note w0 = ensure_user_cases [OF u request_use_case_simps(1) request_use_case_simps(6)]
    show ?thesis
    proof (cases r0)
      case (Inl e)
      then show ?thesis using run Inr True u w0 by (auto simp: store_request_def bindE_def liftE_def)
    next
      case (Inr u0)
      let ?q = "create_request (w_uuid w0) (db_clock (w_db w0)) (user_id u0) url' sp"
      obtain r2 d2 where c: "tx_create ?q (w_db w0) = (r2, d2)" by fastforce
      have ok: "db_ok (w_db w0) \<longrightarrow> db_ok d2"
        using keepsD [of db_ok "tx_create ?q"] c unfolding tx_create_def
        by (metis keeps_sql_create session_scope_ok snd_conv)
      have eq: "(r, w1) = (case r2 of Inl e \<Rightarrow> Inl e | Inr _ \<Rightarrow> Inr ?q, w0\<lparr>w_uuid := w_uuid w0 + 1, w_db := d2\<rparr>)"
        using run \<open>validate_url _ _ = _\<close> True u Inr c
        by (auto simp: store_request_def bindE_def liftE_def new_uuid_def askE_def thenE_def tellE_def retE_def
            world_runtime_def world_requests_def on_db_def zoom_def Let_def split: sum.splits)
      from create_cases [OF c] show ?thesis
      proof (elim disjE exE conjE)
        fix e assume "r2 = Inl e" "d2 = w_db w0"
        then show ?thesis using eq w0 by simp
      next
        assume r2: "r2 = Inr ?q" and d2: "d2 = w_db w0\<lparr>db_requests := db_requests (w_db w0) @ [request_row_of (db_clock (w_db w0)) ?q]\<rparr>"
          and new: "find_request (request_id ?q) (w_db w0) = None"
        let ?row = "request_row_of (db_clock (w_db w0)) ?q"
        have "row_readable ?row"
          using row_of_readable [of "db_clock (w_db w0)" ?q] by (simp add: row_readable_def)
        moreover have "user_row_at tid (user_id u0) d2"
          using w0 Inr d2 by (auto simp: user_row_at_def)
        moreover have "find_request (w_uuid w0) (w_db w) = None"
          using new w0 find_request_cong [of "w_db w0" "w_db w"] by (simp add: create_request_def)
        ultimately have "stored_request w tid sp url' ?q ?row w1"
          using eq w0 ok d2
          by (simp add: stored_request_def request_row_of_def create_request_def)
        then show ?thesis using eq r2 True \<open>validate_url _ _ = _\<close> by auto
      qed
    qed
  qed
qed

text \<open>The failed row of a request that could not be enqueued.\<close>

lemma mark_failed_appended:
  assumes "db_requests d = old @ [row]" and "row_id row \<notin> row_id ` set old"
  shows "\<exists>row'. db_requests (snd (tx_mark_failed_by_id (row_id row) d)) = old @ [row'] \<and> row_status row' = ''failed''"
proof -
  obtain m where some: "find_request (row_id row) d = Some m"
    using assms(1) find_request_None [of "row_id row" d] by (cases "find_request (row_id row) d") auto
  have "map (\<lambda>m. if row_id m = row_id row then f m else m) old = old" for f :: "request_row \<Rightarrow> request_row"
    by (rule map_idI) (use assms(2) in \<open>force simp: image_iff\<close>)
  with some assms(1) show ?thesis by (simp add: mark_failed_eq update_requests_def)
qed

lemma enqueue_request_cases:
  assumes run: "enqueue_request (request_use_case mc p) (row_id row) chat_id message_id w = (r, w')"
    and row: "db_requests (w_db w) = old @ [row]" "row_id row \<notin> row_id ` set old"
  shows "(r = Inr () \<and> w_db w' = w_db w \<and>
       q_jobs (w_queue w') = q_jobs (w_queue w) @ [DownloadArgs (row_id row) chat_id message_id]) \<or>
    (\<exists>e row'. r = Inl e \<and> q_jobs (w_queue w') = q_jobs (w_queue w) \<and> db_requests (w_db w') = old @ [row'] \<and>
       (if is_exception e then e = DownloadEnqueueError \<and> row_status row' = ''failed'' else row' = row))"
proof -
  obtain r1 q1 where e: "arq_enqueue_download (row_id row) chat_id message_id (w_queue w) = (r1, q1)" by fastforce
  let ?q = "on_queue (arq_enqueue_download (row_id row) chat_id message_id)"
  have q: "?q w = (r1, w\<lparr>w_queue := q1\<rparr>)" using e by (simp add: on_queue_def zoom_def)
  show ?thesis
  proof (cases r1)
    case (Inr jid)
    then have "r = Inr () \<and> w' = w\<lparr>w_queue := q1\<rparr>"
      using run q by (simp add: enqueue_request_def world_task_queue_def try_except_def bindE_def retE_def)
    then show ?thesis using enqueue_cases [OF e] Inr by auto
  next
    case (Inl e1)
    note jobs = enqueue_cases [OF e, unfolded Inl]
    show ?thesis
    proof (cases "is_exception e1")
      case True
      have "r = Inl DownloadEnqueueError \<and> w_queue w' = q1 \<and> w_db w' = snd (tx_mark_failed_by_id (row_id row) (w_db w))"
        using run q Inl True
        by (auto simp: enqueue_request_def world_task_queue_def try_except_def bindE_def retE_def world_runtime_def
            thenE_def tellE_def raiseE_def world_requests_def on_db_def zoom_def mark_failed_eq split: prod.splits)
      then show ?thesis using mark_failed_appended [OF row] jobs by auto
    next
      case False
      then have "r = Inl e1 \<and> w' = w\<lparr>w_queue := q1\<rparr>"
        using run q Inl by (simp add: enqueue_request_def world_task_queue_def try_except_def bindE_def)
      then show ?thesis using jobs False row by auto
    qed
  qed
qed

lemma stored_ids:
  assumes "stored_request w tid sp url q row w1"
  shows "row_id row \<notin> row_id ` set (db_requests (w_db w))"
  using assms by (auto simp: stored_request_def find_request_None)

lemma execute_request_stored:
  assumes "store_request uc tid url sp ek w = (Inr q, w1)"
    and "enqueue_request uc (request_id q) chat_id message_id w1 = (r, w')"
  shows "execute_request uc tid url sp ek chat_id message_id w = (case r of Inl e \<Rightarrow> Inl e | Inr _ \<Rightarrow> Inr q, w')"
  using assms by (simp add: execute_request_def bindE_def thenE_def retE_def split: sum.split)

lemma provide_request_cases:
  assumes "provide_request_download mc p tid url sp ek chat_id message_id w = (r, w')"
  shows "case r of
     Inr q \<Rightarrow> \<exists>url' row. validate_url (mc_bracketed_ok mc) url = Inr url' \<and> is_allowed p ek sp \<and>
       db_requests (w_db w') = db_requests (w_db w) @ [row] \<and> row_id row = request_id q \<and>
       row_status row = ''pending'' \<and> row_source_url row = url' \<and>
       row_format_kind row = format_kind_value (spec_kind sp) \<and> row_video_tier row = spec_tier_value sp \<and>
       user_row_at tid (row_user_id row) (w_db w') \<and>
       q_jobs (w_queue w') = q_jobs (w_queue w) @ [DownloadArgs (request_id q) chat_id message_id]
   | Inl e \<Rightarrow> q_jobs (w_queue w') = q_jobs (w_queue w) \<and>
       (db_requests (w_db w') = db_requests (w_db w) \<or>
        (\<exists>row. db_requests (w_db w') = db_requests (w_db w) @ [row] \<and>
           row_status row = (if is_exception e then ''failed'' else ''pending'') \<and>
           (is_exception e \<longrightarrow> e = DownloadEnqueueError)))"
proof -
  let ?uc = "request_use_case mc p"
  obtain r1 w1 where store: "store_request ?uc tid url sp ek w = (r1, w1)" by fastforce
  from store_request_cases [OF store] show ?thesis
  proof (elim disjE exE conjE)
    fix e assume "r1 = Inl e" "w_queue w1 = w_queue w" "db_requests (w_db w1) = db_requests (w_db w)"
    then show ?thesis using assms store by (auto simp: provide_request_download_def execute_request_def bindE_def)
  next
    fix q url' row
    assume r1: "r1 = Inr q" and url: "validate_url (mc_bracketed_ok mc) url = Inr url'" and allowed: "is_allowed p ek sp"
      and st: "stored_request w tid sp url' q row w1"
    then have row: "row_id row = request_id q" "db_requests (w_db w1) = db_requests (w_db w) @ [row]"
      by (simp_all add: stored_request_def)
    obtain r2 w2 where enq: "enqueue_request ?uc (row_id row) chat_id message_id w1 = (r2, w2)" by fastforce
    have run: "r = (case r2 of Inl e \<Rightarrow> Inl e | Inr _ \<Rightarrow> Inr q)" "w' = w2"
      using execute_request_stored [OF store [unfolded r1] enq [unfolded row(1)]] assms
      by (auto simp: provide_request_download_def)
    from enqueue_request_cases [OF enq row(2) stored_ids [OF st]] show ?thesis
    proof (elim disjE exE conjE)
      assume "r2 = Inr ()" "w_db w2 = w_db w1"
        "q_jobs (w_queue w2) = q_jobs (w_queue w1) @ [DownloadArgs (row_id row) chat_id message_id]"
      then show ?thesis using run st url allowed by (auto simp: stored_request_def)
    next
      fix e row' assume "r2 = Inl e" "q_jobs (w_queue w2) = q_jobs (w_queue w1)"
        "db_requests (w_db w2) = db_requests (w_db w) @ [row']"
        "if is_exception e then e = DownloadEnqueueError \<and> row_status row' = ''failed'' else row' = row"
      then show ?thesis using run st by (auto simp: stored_request_def split: if_splits)
    qed
  qed
qed


section \<open>Committed before enqueued\<close>

text \<open>
  A worker may start a job the instant it is enqueued.  \<open>ready_for tid\<close> is what it then needs to
  find: an active, readable row whose owner is reached under \<open>tid\<close>; \<open>checked_queue\<close> is a queue
  that refuses a job for which the database does not have it yet.
\<close>

definition ready_for :: "int \<Rightarrow> uuid \<Rightarrow> world \<Rightarrow> bool" where
  "ready_for tid rid w \<longleftrightarrow> (\<exists>m u. reachable w rid m u tid \<and> is_active m)"

definition checked_queue :: "int \<Rightarrow> world task_queue \<Rightarrow> world task_queue" where
  "checked_queue tid q =
     q\<lparr>tq_enqueue_download := \<lambda>rid c m w.
         if ready_for tid rid w then tq_enqueue_download q rid c m w
         else (Inl (RuntimeError ''process_download_request_not_found''), w)\<rparr>"

lemma db_okD:
  "db_ok d \<Longrightarrow> distinct (map urow_id (db_users d))" "db_ok d \<Longrightarrow> distinct (map row_id (db_requests d))"
  by (simp_all add: db_ok_def)

lemma stored_is_ready:
  assumes st: "stored_request w tid sp url q row w1" and ok: "db_ok (w_db w)"
  shows "ready_for tid (request_id q) w1"
proof -
  have ok1: "distinct (map urow_id (db_users (w_db w1)))" "distinct (map row_id (db_requests (w_db w1)))"
    using st ok unfolding stored_request_def by (blast dest: db_okD)+
  obtain u where u: "u \<in> set (db_users (w_db w1))" "urow_id u = row_user_id row" "urow_telegram_id u = Some tid"
    using st by (auto simp: stored_request_def user_row_at_def)
  have "find_user (row_user_id row) (w_db w1) = Some u"
  proof (cases "find_user (row_user_id row) (w_db w1)")
    case None
    then show ?thesis using u find_user_None [of "row_user_id row" "w_db w1"] by (metis image_eqI)
  next
    case (Some v)
    then have "v \<in> set (db_users (w_db w1))" "urow_id v = urow_id u"
      using u(2) by (auto simp: find_user_def find_Some_iff)
    then show ?thesis using Some u(1) ok1(1) by (metis distinct_map inj_onD)
  qed
  moreover have "find_request (request_id q) (w_db w1) = Some row"
    using find_request_mem [OF ok1(2), of row] st by (simp add: stored_request_def)
  moreover have "is_active row" "row_readable row" using st by (simp_all add: stored_request_def is_active_cases)
  ultimately show "ready_for tid (request_id q) w1"
    using u(3) unfolding ready_for_def reachable_def by blast
qed

text \<open>C12: the request is committed before its job exists: against any queue at all, a request runs
  exactly as it would against one that refuses a job whose row the worker could not yet find,
  read and claim, or whose owner it could not reach.\<close>

theorem committed_before_enqueued:
  assumes "db_ok (w_db w)"
  shows "execute_request ((request_use_case mc p)\<lparr>rd_queue := checked_queue tid q\<rparr>) tid url sp ek chat_id message_id w
    = execute_request ((request_use_case mc p)\<lparr>rd_queue := q\<rparr>) tid url sp ek chat_id message_id w"
proof -
  let ?uc = "\<lambda>q. (request_use_case mc p)\<lparr>rd_queue := q\<rparr>"
  have same: "store_request (?uc q) = store_request (request_use_case mc p)" for q
    by (intro ext) (simp add: store_request_def ensure_user_def cong: if_cong option.case_cong)
  obtain r1 w1 where store: "store_request (request_use_case mc p) tid url sp ek w = (r1, w1)" by fastforce
  show ?thesis
  proof (cases r1)
    case (Inl e)
    then show ?thesis by (simp add: execute_request_def same store bindE_def)
  next
    case (Inr r)
    then obtain url' row where "stored_request w tid sp url' r row w1"
      using store_request_cases [OF store] by auto
    then have "ready_for tid (request_id r) w1" using stored_is_ready assms by blast
    then have "enqueue_request (?uc (checked_queue tid q)) (request_id r) chat_id message_id w1 =
        enqueue_request (?uc q) (request_id r) chat_id message_id w1"
      by (simp add: enqueue_request_def checked_queue_def try_except_def bindE_def split: prod.split sum.split)
    then show ?thesis by (simp add: execute_request_def same store Inr bindE_def thenE_def)
  qed
qed

text \<open>
  The whole way: a request that was accepted, followed by its job.
\<close>

lemma accepted_is_active:
  assumes "ready_for tid rid w"
  shows "ob_active (outbox_of w) rid" and "ob_readable (outbox_of w) rid" and "ob_target (outbox_of w) rid = Some tid"
  using assms
  by (auto simp: ready_for_def reachable_def ob_active_def ob_target_def outbox_of_def is_active_cases)

lemma accepted_is_ready:
  assumes ok: "db_ok (w_db w)"
    and request: "provide_request_download mc p tid url sp ek chat_id message_id w = (Inr q, w1)"
  shows "ready_for tid (request_id q) w1" and "distinct_ids w1"
proof -
  let ?uc = "request_use_case mc p"
  obtain r0 w0 where store: "store_request ?uc tid url sp ek w = (r0, w0)" by fastforce
  have "r0 = Inr q"
    using request store store_request_cases [OF store]
    by (auto simp: provide_request_download_def execute_request_def bindE_def thenE_def retE_def
        split: prod.splits sum.splits)
  then obtain url' row where r0: "r0 = Inr q" and st: "stored_request w tid sp url' q row w0"
    using store_request_cases [OF store] by auto
  have row: "row_id row = request_id q" "db_requests (w_db w0) = db_requests (w_db w) @ [row]"
    using st by (simp_all add: stored_request_def)
  obtain r3 w3 where enq: "enqueue_request ?uc (row_id row) chat_id message_id w0 = (r3, w3)" by fastforce
  have "(case r3 of Inl e \<Rightarrow> Inl e | Inr _ \<Rightarrow> Inr q) = Inr q" "w3 = w1"
    using execute_request_stored [OF store [unfolded r0] enq [unfolded row(1)]] request
    by (auto simp: provide_request_download_def)
  then have same: "w_db w1 = w_db w0"
    using enqueue_request_cases [OF enq row(2) stored_ids [OF st]] by (auto split: sum.splits)
  show "ready_for tid (request_id q) w1"
    using stored_is_ready [OF st ok] same by (simp add: ready_for_def reachable_def)
  show "distinct_ids w1"
    using st ok same db_okD(2) [of "w_db w0"] by (simp add: distinct_ids_def stored_request_def)
qed

lemma ready_job_answers:
  assumes "ready_for tid rid w" and "distinct_ids w" and "download_job mc cx rid chat_id message_id w = (Inr (), w2)"
  shows "(\<exists>f. ob_status (outbox_of w2) rid = Some ''done'' \<and> tg_files (w_tg w2) = tg_files (w_tg w) @ [(tid, f)] \<and>
              tg_texts (w_tg w2) = tg_texts (w_tg w)) \<or>
         (\<exists>txt. ob_status (outbox_of w2) rid = Some ''failed'' \<and> tg_files (w_tg w2) = tg_files (w_tg w) \<and>
              tg_texts (w_tg w2) = tg_texts (w_tg w) @ [(tid, txt)])"
proof -
  have "job rid (outbox_of w) (Inr ()) (outbox_of w2)" using job_on_world assms(2,3) by blast
  moreover have "tg_files (w_tg w) = ob_files (outbox_of w)" "tg_texts (w_tg w) = ob_texts (outbox_of w)"
    "tg_files (w_tg w2) = ob_files (outbox_of w2)" "tg_texts (w_tg w2) = ob_texts (outbox_of w2)"
    by (simp_all add: outbox_of_def)
  ultimately show ?thesis using accepted_is_active [OF assms(1)] by (elim job_returnsE) auto
qed

lemma ready_for_elsewhere [simp]:
  "ready_for tid rid (w\<lparr>w_fs := fs\<rparr>) = ready_for tid rid w" "ready_for tid rid (w\<lparr>w_pub := ps\<rparr>) = ready_for tid rid w"
  "ready_for tid rid (w\<lparr>w_tg := t\<rparr>) = ready_for tid rid w"
  by (simp_all add: ready_for_def reachable_def)

text \<open>An accepted request reaches its user: the worker's job for it, whatever became of the disk,
  Redis and Telegram meanwhile, if it returns, has sent the user of this Telegram id the file and recorded it, or a text and the failure;
  never both and never neither.\<close>

theorem accepted_request_reaches_its_user:
  assumes ok: "db_ok (w_db w)"
    and request: "provide_request_download mc p tid url sp ek chat_id message_id w = (Inr q, w1)"
    and job: "download_job mc cx (request_id q) chat_id message_id (w1\<lparr>w_fs := fs, w_pub := ps, w_tg := t\<rparr>) = (Inr (), w2)"
  shows "(\<exists>f. ob_status (outbox_of w2) (request_id q) = Some ''done'' \<and> tg_files (w_tg w2) = tg_files t @ [(tid, f)] \<and>
              tg_texts (w_tg w2) = tg_texts t) \<or>
         (\<exists>txt. ob_status (outbox_of w2) (request_id q) = Some ''failed'' \<and> tg_files (w_tg w2) = tg_files t \<and>
              tg_texts (w_tg w2) = tg_texts t @ [(tid, txt)])"
proof -
  note ready = accepted_is_ready [OF ok request]
  show ?thesis
    using ready_job_answers [where w = "w1\<lparr>w_fs := fs, w_pub := ps, w_tg := t\<rparr>", OF _ _ job] ready by simp
qed

section \<open>Users\<close>

lemma set_register:
  assumes "register_user session_users (retE i) db_clock tid language d = (r, d')"
  shows "(\<exists>m. users_by_telegram_id tid d = [m] \<and> r = Inr (to_user m) \<and> d' = d) \<or> 
    (users_by_telegram_id tid d = [] \<and> r = Inr (create_from_telegram i (db_clock d) tid language) \<and>
       d' = d\<lparr>db_users := db_users d @ [user_row_of (db_clock d) (create_from_telegram i (db_clock d) tid language)]\<rparr>) \<or>
    (\<exists>e. r = Inl e \<and> d' = d)"
proof (cases "one_or_none (users_by_telegram_id tid d)")
  case (Inl e)
  then show ?thesis using assms
    by (auto simp: register_user_def session_users_def sql_user_get_by_telegram_id_def bindE_def askE_def liftE_def)
next
  case (Inr found)
  show ?thesis
  proof (cases found)
    case (Some m)
    then show ?thesis using assms Inr one_or_none_Some [of "users_by_telegram_id tid d" m]
      by (auto simp: register_user_def session_users_def sql_user_get_by_telegram_id_def io_simps)
  next
    case None
    then have none: "users_by_telegram_id tid d = []" using one_or_none_None Inr by blast
    have "sql_user_create (create_from_telegram i (db_clock d) tid language) d = (r, d')"
      using assms Inr None
      by (simp add: register_user_def session_users_def sql_user_get_by_telegram_id_def bindE_def askE_def liftE_def retE_def)
    then show ?thesis using none
      by (auto simp: sql_user_create_def bindE_def thenE_def askE_def retE_def split: prod.splits sum.splits
          dest!: insert_user_cases)
  qed
qed

text \<open>Registering is idempotent: a user who is registered is the only one with this Telegram id, and
  registering again, whatever language is asked for, answers the same user and changes no table.\<close>

theorem registering_is_idempotent:
  assumes "provide_register_user tid language w = (Inr u, w1)"
  shows "telegram_id u = Some tid \<and> length (users_by_telegram_id tid (w_db w1)) = 1 \<and>
    fst (provide_register_user tid language' w1) = Inr u \<and>
    w_db (snd (provide_register_user tid language' w1)) = w_db w1"
proof -
  let ?reg = "\<lambda>i l. register_user session_users (retE i) db_clock tid l"
  have eq: "provide_register_user tid l w = (fst (session_scope (?reg (w_uuid w) l) (w_db w)),
      w\<lparr>w_uuid := w_uuid w + 1, w_db := snd (session_scope (?reg (w_uuid w) l) (w_db w))\<rparr>)" for l w
    by (simp add: provide_register_user_def new_uuid_def bindE_def thenE_def askE_def tellE_def retE_def on_db_def
        zoom_def split: prod.split)
  obtain r d' where run: "?reg (w_uuid w) language (w_db w) = (r, d')" by fastforce
  have r: "r = Inr u" "w_db w1 = d'"
    using assms run by (auto simp: eq session_scope_def split: sum.splits)
  obtain m where m: "users_by_telegram_id tid d' = [m]" "to_user m = u" "urow_telegram_id m = Some tid"
    using set_register [OF run] r
  proof (elim disjE exE conjE)
    fix m assume m: "users_by_telegram_id tid (w_db w) = [m]" "r = Inr (to_user m)" "d' = w_db w"
    then have "m \<in> set (users_by_telegram_id tid (w_db w))" by simp
    then have "urow_telegram_id m = Some tid" unfolding users_by_telegram_id_def by simp
    then show thesis using that m r by simp
  next
    assume "users_by_telegram_id tid (w_db w) = []" and "r = Inr (create_from_telegram (w_uuid w) (db_clock (w_db w)) tid language)"
      and "d' = w_db w\<lparr>db_users := db_users (w_db w) @ [user_row_of (db_clock (w_db w)) (create_from_telegram (w_uuid w) (db_clock (w_db w)) tid language)]\<rparr>"
    then show thesis
      using that [of "user_row_of (db_clock (w_db w)) (create_from_telegram (w_uuid w) (db_clock (w_db w)) tid language)"] r
      by (simp add: users_by_telegram_id_def user_row_of_def create_from_telegram_def to_user_def)
  qed simp
  have "?reg (w_uuid w1) language' d' = (Inr u, d')"
    using m by (simp add: register_user_def session_users_def sql_user_get_by_telegram_id_def io_simps one_or_none_def)
  then show ?thesis using m r by (auto simp: eq to_user_def)
qed

section \<open>Witnesses\<close>

definition example_policy :: format_policy where
  "example_policy = FormatPolicy [(''youtube'', [AUDIO])]"

abbreviation example_request_run :: "world \<Rightarrow> (exn + download_request) \<times> world" where
  "example_request_run \<equiv> provide_request_download (example_machine dying_child) example_policy 100
     ''https://youtu.be/x'' (VideoSpec P720) ''Youtube'' 5 6"

lemma example_accepted:
  "fst (example_request_run (example_world None)) = Inr \<lparr>request_id = 50, request_user_id = 1,
     source_url = ''https://youtu.be/x'', request_media_type = MUnknown, request_status = PENDING, request_spec = VideoSpec P720,
     request_created_at = 50, request_completed_at = None\<rparr>"
  by code_simp

lemma example_world_ok: "db_ok (w_db (example_world e))"
  by (simp add: example_world_def example_db_ok)


theorem committed_before_enqueued_witness:
  "execute_request ((request_use_case (example_machine dying_child) example_policy)
       \<lparr>rd_queue := checked_queue 100 world_task_queue\<rparr>) 100 ''https://youtu.be/x'' (VideoSpec P720) ''Youtube'' 5 6 (example_world None)
   = execute_request ((request_use_case (example_machine dying_child) example_policy)\<lparr>rd_queue := world_task_queue\<rparr>)
       100 ''https://youtu.be/x'' (VideoSpec P720) ''Youtube'' 5 6 (example_world None)"
  by (rule committed_before_enqueued [OF example_world_ok])

lemma example_accepted_job:
  "fst (download_job (example_machine dying_child) example_ctx 50 5 6
      ((snd (example_request_run (example_world None)))\<lparr>w_fs := w_fs (example_world None), w_pub := w_pub (example_world None),
         w_tg := w_tg (example_world None)\<rparr>)) = Inr ()"
  by code_simp

theorem accepted_request_reaches_its_user_witness:
  "\<exists>w2. download_job (example_machine dying_child) example_ctx 50 5 6
       ((snd (example_request_run (example_world None)))\<lparr>w_fs := w_fs (example_world None), w_pub := w_pub (example_world None),
          w_tg := w_tg (example_world None)\<rparr>) = (Inr (), w2) \<and> length (tg_files (w_tg w2)) + length (tg_texts (w_tg w2)) = 1"
proof -
  let ?w1 = "snd (example_request_run (example_world None))"
  let ?w = "?w1\<lparr>w_fs := w_fs (example_world None), w_pub := w_pub (example_world None), w_tg := w_tg (example_world None)\<rparr>"
  obtain q where q: "example_request_run (example_world None) = (Inr q, ?w1)" "request_id q = 50"
    using example_accepted by (auto simp: prod_eq_iff)
  obtain w2 where w2: "download_job (example_machine dying_child) example_ctx (request_id q) 5 6 ?w = (Inr (), w2)"
    using example_accepted_job q(2) by (metis prod.collapse)
  have "tg_files (w_tg (example_world None)) = []" "tg_texts (w_tg (example_world None)) = []"
    by (simp_all add: example_world_def tg_files_def tg_texts_def map_filter_def)
  then show ?thesis
    using accepted_request_reaches_its_user [OF example_world_ok q(1) w2] w2 unfolding q(2) by auto
qed

lemma example_registered:
  "fst (provide_register_user 7 (Some ''ru'') (example_world None)) = Inr \<lparr>user_id = 50, telegram_id = Some 7,
     is_premium = False, user_language = Some ''ru'', user_created_at = 50\<rparr>"
  by code_simp

theorem registering_is_idempotent_witness:
  "fst (provide_register_user 7 (Some ''en'') (snd (provide_register_user 7 (Some ''ru'') (example_world None)))) =
     fst (provide_register_user 7 (Some ''ru'') (example_world None))"
proof -
  let ?w1 = "snd (provide_register_user 7 (Some ''ru'') (example_world None))"
  obtain u where u: "provide_register_user 7 (Some ''ru'') (example_world None) = (Inr u, ?w1)"
    using example_registered by (auto simp: prod_eq_iff)
  show ?thesis using registering_is_idempotent [OF u] u by (simp add: prod_eq_iff)
qed

end
