(* ===== verification/Reaper.thy ===== *)
theory Reaper
  imports WorkerFacts "HOL-Library.Sublist"
begin

text \<open>
  The worker's other jobs (\<open>src/infrastructure/queue/jobs.py\<close>): the reaper of stale requests with
  its use case \<open>src/application/use_cases/reap_stale_requests.py\<close>, the sweep of expired downloads,
  and the ping with the reader of its result.
\<close>

section \<open>ReapStaleRequestsUseCase\<close>

text \<open>\<open>stale_after\<close> is a \<open>timedelta\<close>, in microseconds as the times are.\<close>

record 'w reap_stale =
  rp_requests :: "'w request_repository"
  rp_users :: "'w user_repository"
  rp_notifier :: "'w notifier_port"
  rp_localizer :: error_localizer
  rp_stale_after :: time
  rp_batch_size :: nat
  rp_clock :: "'w \<Rightarrow> time"
  rp_runtime :: "'w runtime"

definition notify_stale :: "'w reap_stale \<Rightarrow> stale_request \<Rightarrow> ('w, exn, unit) io" where
  "notify_stale uc stale =
     try_except
       (bindE (ur_get_by_id (rp_users uc) (stale_user_id stale)) (\<lambda>found.
          case found of
            None \<Rightarrow> rt_log (rp_runtime uc) ''stale_request_user_unreachable'' (stale_request_id stale)
          | Some u \<Rightarrow>
              (case telegram_id u of
                 None \<Rightarrow> rt_log (rp_runtime uc) ''stale_request_user_unreachable'' (stale_request_id stale)
               | Some tid \<Rightarrow>
                   bindE (liftE (rp_localizer uc ''error-request-stale'' (user_language u) []))
                     (np_send_text (rp_notifier uc) tid))))
       (\<lambda>e. if is_exception e
            then Some (rt_log (rp_runtime uc) ''stale_request_notify_failed'' (stale_request_id stale)) else None)"

definition execute_reap :: "'w reap_stale \<Rightarrow> ('w, exn, stale_request list) io" where
  "execute_reap uc =
     bindE (askE (rp_clock uc)) (\<lambda>now.
     bindE (rr_fail_stale (rp_requests uc) (now - rp_stale_after uc) (rp_batch_size uc)) (\<lambda>reaped.
       thenE
         (forE (\<lambda>stale. thenE (rt_log (rp_runtime uc) ''stale_request_reaped'' (stale_request_id stale))
                               (notify_stale uc stale)) reaped)
         (retE reaped)))"

section \<open>The jobs\<close>

definition REAPER_BATCH_SIZE :: nat where
  "REAPER_BATCH_SIZE = 100"

definition reap_use_case :: "machine \<Rightarrow> worker_ctx \<Rightarrow> world reap_stale" where
  "reap_use_case mc cx =
     \<lparr>rp_requests = world_requests mc, rp_users = world_users, rp_notifier = world_notifier mc cx,
      rp_localizer = fluent_localize (cx_localizer cx), rp_stale_after = cx_stale_request_after cx,
      rp_batch_size = REAPER_BATCH_SIZE, rp_clock = (\<lambda>w. db_clock (w_db w)), rp_runtime = world_runtime\<rparr>"

text \<open>The last log line carries the count.\<close>

definition reap_stale_requests_job :: "machine \<Rightarrow> worker_ctx \<Rightarrow> (world, exn, nat) io" where
  "reap_stale_requests_job mc cx =
     bindE (execute_reap (reap_use_case mc cx)) (\<lambda>reaped.
       thenE (if reaped \<noteq> [] then rt_log world_runtime ''stale_requests_reaped'' (length reaped) else retE ())
         (retE (length reaped)))"

definition cleanup_expired_downloads_job :: "machine \<Rightarrow> worker_ctx \<Rightarrow> (world, exn, unit) io" where
  "cleanup_expired_downloads_job mc cx =
     (let max_age = trunc_rat (of_int (cx_stale_request_after cx) / 1000000)
      in bindE (sp_cleanup_expired (world_storage mc cx) max_age) (\<lambda>removed.
         thenE (if removed \<noteq> 0 then rt_log world_runtime ''cleanup_expired_downloads'' removed else retE ())
        (bindE (sp_available_bytes (world_storage mc cx)) (\<lambda>available.
           if available < cx_download_min_free_disk_bytes cx
           then rt_log world_runtime ''storage_low_disk_space'' 0 else retE ()))))"

text \<open>The ping: Redis strings, and the ISO form of the current time.\<close>

record redis_strings =
  rs_values :: "string \<Rightarrow> payload option"
  rs_now_isoformat :: string

definition LAST_PING_REDIS_KEY :: string where
  "LAST_PING_REDIS_KEY = ''worker:last_ping''"

datatype ping_result = PingResult (ping_message: string) (ping_processed_at: string)

definition ping_job :: "string \<Rightarrow> (redis_strings, exn, pyval) io" where
  "ping_job message =
     bindE (askE rs_now_isoformat) (\<lambda>processed_at.
       let result = PDict [(''message'', PStr message), (''processed_at'', PStr processed_at)]
       in bindE (liftE (json_dumps result)) (\<lambda>text.
            thenE (tellE (\<lambda>s. s\<lparr>rs_values := (rs_values s)(LAST_PING_REDIS_KEY \<mapsto> text)\<rparr>)) (retE result)))"

text \<open>\<open>RedisPingResultReader.get_last\<close>; a field that is no string does not arise from \<open>ping_job\<close> and is read as a type error.\<close>

definition ping_field :: "pyval \<Rightarrow> string \<Rightarrow> exn + string" where
  "ping_field data k =
     (case data of
        PDict d \<Rightarrow> (case map_of d k of None \<Rightarrow> Inl KeyError | Some (PStr s) \<Rightarrow> Inr s | Some _ \<Rightarrow> Inl TypeError)
      | _ \<Rightarrow> Inl TypeError)"

definition get_last :: "(redis_strings, exn, ping_result option) io" where
  "get_last =
     bindE (askE (\<lambda>s. rs_values s LAST_PING_REDIS_KEY)) (\<lambda>raw.
       case raw of
         None \<Rightarrow> retE None
       | Some text \<Rightarrow>
           bindE (liftE (json_loads text)) (\<lambda>data.
           bindE (liftE (ping_field data ''message'')) (\<lambda>m.
           bindE (liftE (ping_field data ''processed_at'')) (\<lambda>t. retE (Some (PingResult m t))))))"

section \<open>Notifying\<close>

lemma reap_use_case_simps [simp]:
  "rp_requests (reap_use_case mc cx) = world_requests mc" "rp_users (reap_use_case mc cx) = world_users"
  "rp_notifier (reap_use_case mc cx) = world_notifier mc cx"
  "rp_localizer (reap_use_case mc cx) = fluent_localize (cx_localizer cx)"
  "rp_stale_after (reap_use_case mc cx) = cx_stale_request_after cx"
  "rp_batch_size (reap_use_case mc cx) = REAPER_BATCH_SIZE" "rp_clock (reap_use_case mc cx) w = db_clock (w_db w)"
  "rp_runtime (reap_use_case mc cx) = world_runtime"
  by (simp_all add: reap_use_case_def)

text \<open>Where a reaped request's owner is reached, and the chats of a batch, in order.\<close>

definition owner_chat :: "db \<Rightarrow> stale_request \<Rightarrow> int option" where
  "owner_chat d s = Option.bind (find_user (stale_user_id s) d) urow_telegram_id"

definition batch_chats :: "db \<Rightarrow> stale_request list \<Rightarrow> int list" where
  "batch_chats d out = List.map_filter (owner_chat d) out"

text \<open>An owner got one of these texts, or these log lines say that the text did not arrive.\<close>

definition told :: "(int \<times> string) list \<Rightarrow> (string \<times> uuid) list \<Rightarrow> int \<Rightarrow> uuid \<Rightarrow> bool" where
  "told ts ls c rid \<longleftrightarrow> c \<in> fst ` set ts \<or> (''stale_request_notify_failed'', rid) \<in> set ls"

lemma told_append: "told (ts @ ts') (ls @ ls') c rid \<longleftrightarrow> told ts ls c rid \<or> told ts' ls' c rid"
  by (auto simp: told_def)

lemma log_run: "rt_log world_runtime ev i w = (Inr (), w\<lparr>w_log := w_log w @ [(ev, i)]\<rparr>)"
  by (simp add: world_runtime_def tellE_def)

lemma notify_run:
  assumes "notify_stale (reap_use_case mc cx) s w = (r, w')"
  shows "w_db w' = w_db w \<and> w_fs w' = w_fs w \<and> w_queue w' = w_queue w \<and> tg_files (w_tg w') = tg_files (w_tg w) \<and>
    (\<exists>ts ls. tg_texts (w_tg w') = tg_texts (w_tg w) @ ts \<and> w_log w' = w_log w @ ls \<and>
          map fst ts \<in> {[], (case owner_chat (w_db w) s of None \<Rightarrow> [] | Some c \<Rightarrow> [c])} \<and>
          (\<forall>c. owner_chat (w_db w) s = Some c \<longrightarrow> r = Inr () \<longrightarrow> told ts ls c (stale_request_id s))) \<and>
    (\<forall>e. r = Inl e \<longrightarrow> \<not> is_exception e)"
proof -
  have user: "ur_get_by_id world_users (stale_user_id s) w = (Inr (map_option to_user (find_user (stale_user_id s) (w_db w))), w)"
    by (simp add: world_users_def on_db_def zoom_def user_get_eq)
  show ?thesis
  proof (cases "owner_chat (w_db w) s")
    case None
    then show ?thesis using assms user
      by (auto simp: notify_stale_def try_except_def bindE_def log_run owner_chat_def to_user_def
          split: option.splits bind_splits)
  next
    case (Some c)
    then obtain u where u: "find_user (stale_user_id s) (w_db w) = Some u" "urow_telegram_id u = Some c"
      by (auto simp: owner_chat_def bind_eq_Some_conv)
    show ?thesis
    proof (cases "fluent_localize (cx_localizer cx) ''error-request-stale'' (urow_language u) []")
      case (Inl e)
      then show ?thesis using assms user u
        by (auto simp: notify_stale_def try_except_def bindE_def liftE_def log_run to_user_def told_def split: if_splits)
    next
      case (Inr msg)
      obtain r1 t1 where send: "send_text c msg (w_tg w) = (r1, t1)" by fastforce
      have "np_send_text (world_notifier mc cx) c msg w = (r1, w\<lparr>w_tg := t1\<rparr>)"
        using send by (simp add: world_notifier_def on_tg_def zoom_def)
      then have "(r, w') = (case r1 of
          Inl e \<Rightarrow> if is_exception e
             then (Inr (), w\<lparr>w_tg := t1, w_log := w_log w @ [(''stale_request_notify_failed'', stale_request_id s)]\<rparr>)
             else (Inl e, w\<lparr>w_tg := t1\<rparr>)
        | Inr x \<Rightarrow> (Inr x, w\<lparr>w_tg := t1\<rparr>))"
        using assms user u Inr
        by (auto simp: notify_stale_def try_except_def bindE_def liftE_def log_run to_user_def split: sum.splits if_splits)
      then show ?thesis using send_text_cases [OF send] Some
        by (auto simp: told_def split: sum.splits if_splits)
    qed
  qed
qed

lemma notify_batch:
  assumes "forE (\<lambda>s. thenE (rt_log world_runtime ev (stale_request_id s)) (notify_stale (reap_use_case mc cx) s)) out w = (r, w')"
  shows "w_db w' = w_db w \<and> w_fs w' = w_fs w \<and> w_queue w' = w_queue w \<and> tg_files (w_tg w') = tg_files (w_tg w) \<and>
    (\<exists>ts ls. tg_texts (w_tg w') = tg_texts (w_tg w) @ ts \<and> w_log w' = w_log w @ ls \<and>
          subseq (map fst ts) (batch_chats (w_db w) out) \<and>
          (\<forall>s \<in> set out. \<forall>c. owner_chat (w_db w) s = Some c \<longrightarrow> r = Inr () \<longrightarrow> told ts ls c (stale_request_id s))) \<and>
    (\<forall>e. r = Inl e \<longrightarrow> \<not> is_exception e)"
  using assms
proof (induction out arbitrary: w r w')
  case Nil
  then show ?case by (auto simp: retE_def)
next
  case (Cons s out)
  obtain r1 w1 where n: "notify_stale (reap_use_case mc cx) s (w\<lparr>w_log := w_log w @ [(ev, stale_request_id s)]\<rparr>) = (r1, w1)"
    by fastforce
  from notify_run [OF n] obtain ts ls where one: "w_db w1 = w_db w" "w_fs w1 = w_fs w" "w_queue w1 = w_queue w"
      "tg_files (w_tg w1) = tg_files (w_tg w)" "tg_texts (w_tg w1) = tg_texts (w_tg w) @ ts"
      "w_log w1 = w_log w @ (ev, stale_request_id s) # ls"
      "map fst ts \<in> {[], (case owner_chat (w_db w) s of None \<Rightarrow> [] | Some c \<Rightarrow> [c])}"
      "\<forall>c. owner_chat (w_db w) s = Some c \<longrightarrow> r1 = Inr () \<longrightarrow> told ts ls c (stale_request_id s)" "\<forall>e. r1 = Inl e \<longrightarrow> \<not> is_exception e"
    by auto
  have chats: "batch_chats (w_db w) (s # out) = (case owner_chat (w_db w) s of None \<Rightarrow> [] | Some c \<Rightarrow> [c]) @ batch_chats (w_db w) out"
    by (simp add: batch_chats_def map_filter_def split: option.split)
  have first: "subseq (map fst ts) (case owner_chat (w_db w) s of None \<Rightarrow> [] | Some c \<Rightarrow> [c])"
    using one(7) by (auto split: option.split)
  show ?case
  proof (cases r1)
    case (Inl e)
    then have "r = Inl e \<and> w' = w1" using Cons.prems n by (simp add: thenE_def bindE_def log_run)
    moreover have "subseq (map fst ts) (batch_chats (w_db w) (s # out))"
      unfolding chats using list_emb_append_mono [OF first list_emb_Nil] by simp
    ultimately show ?thesis using one Inl by auto
  next
    case (Inr x)
    then have rest: "forE (\<lambda>s. thenE (rt_log world_runtime ev (stale_request_id s)) (notify_stale (reap_use_case mc cx) s)) out w1 = (r, w')"
      using Cons.prems n unfolding forE.simps thenE_def [of _ "forE _ _"]
      by (simp add: bindE_def) (simp add: thenE_def bindE_def log_run)
    from Cons.IH [OF this] obtain ts' ls' where two: "w_db w' = w_db w1" "w_fs w' = w_fs w1" "w_queue w' = w_queue w1"
      "tg_files (w_tg w') = tg_files (w_tg w1)" "tg_texts (w_tg w') = tg_texts (w_tg w1) @ ts'"
      "w_log w' = w_log w1 @ ls'" "subseq (map fst ts') (batch_chats (w_db w1) out)"
      "\<forall>s \<in> set out. \<forall>c. owner_chat (w_db w1) s = Some c \<longrightarrow> r = Inr () \<longrightarrow> told ts' ls' c (stale_request_id s)"
      "\<forall>e. r = Inl e \<longrightarrow> \<not> is_exception e"
      by auto
    then have "subseq (map fst (ts @ ts')) (batch_chats (w_db w) (s # out))"
      unfolding chats using one(1) first by (auto intro: list_emb_append_mono)
    moreover have "told (ts @ ts') (((ev, stale_request_id s) # ls) @ ls') c (stale_request_id x)"
      if "x \<in> set (s # out)" "owner_chat (w_db w) x = Some c" "r = Inr ()" for x c
      using that one(1,8) two(8) Inr by (auto simp: told_def)
    ultimately show ?thesis using one two
      by (intro conjI exI [of _ "ts @ ts'"] exI [of _ "((ev, stale_request_id s) # ls) @ ls'"]) simp_all
  qed
qed

text \<open>The whole job: the database is the repository's alone.\<close>

lemma reap_job_run:
  assumes "tx_fail_stale (mc_db_between mc) (db_clock (w_db w) - cx_stale_request_after cx) REAPER_BATCH_SIZE (w_db w) = (Inr out, d)"
    and "reap_stale_requests_job mc cx w = (r, w')"
  shows "w_db w' = d \<and> w_fs w' = w_fs w \<and> w_queue w' = w_queue w \<and> tg_files (w_tg w') = tg_files (w_tg w) \<and>
    (\<exists>ts ls. tg_texts (w_tg w') = tg_texts (w_tg w) @ ts \<and> w_log w' = w_log w @ ls \<and> subseq (map fst ts) (batch_chats d out) \<and>
       (\<forall>s \<in> set out. \<forall>c n. owner_chat d s = Some c \<longrightarrow> r = Inr n \<longrightarrow> told ts ls c (stale_request_id s))) \<and>
    (case r of Inr n \<Rightarrow> n = length out | Inl e \<Rightarrow> \<not> is_exception e)"
proof -
  let ?uc = "reap_use_case mc cx"
  let ?notify = "forE (\<lambda>s. thenE (rt_log world_runtime ''stale_request_reaped'' (stale_request_id s)) (notify_stale ?uc s)) out"
  obtain r1 w1 where n: "?notify (w\<lparr>w_db := d\<rparr>) = (r1, w1)" by fastforce
  have fs: "rr_fail_stale (world_requests mc) (db_clock (w_db w) - cx_stale_request_after cx) REAPER_BATCH_SIZE w = (Inr out, w\<lparr>w_db := d\<rparr>)"
    using assms(1) by (simp add: world_requests_def on_db_def zoom_def)
  have run: "(r, w') = (case r1 of Inl e \<Rightarrow> (Inl e, w1)
      | Inr _ \<Rightarrow> (Inr (length out), if out = [] then w1 else w1\<lparr>w_log := w_log w1 @ [(''stale_requests_reaped'', length out)]\<rparr>))"
    using assms(2) n fs
    by (auto simp: reap_stale_requests_job_def execute_reap_def bindE_def thenE_def askE_def retE_def log_run split: sum.splits)
  from notify_batch [OF n] obtain ts ls where "w_db w1 = d" "w_fs w1 = w_fs w" "w_queue w1 = w_queue w" "tg_files (w_tg w1) = tg_files (w_tg w)"
    "tg_texts (w_tg w1) = tg_texts (w_tg w) @ ts" "w_log w1 = w_log w @ ls" "subseq (map fst ts) (batch_chats d out)"
    "\<forall>s \<in> set out. \<forall>c. owner_chat d s = Some c \<longrightarrow> r1 = Inr () \<longrightarrow> told ts ls c (stale_request_id s)"
    "\<forall>e. r1 = Inl e \<longrightarrow> \<not> is_exception e"
    by auto
  then show ?thesis using run by (cases r1) (auto simp: told_def)
qed

text \<open>C20: a tick of the reaper commits its transitions before it tells anybody, and telling changes no
  row: whatever Telegram, the localizer and the other transactions do, the table afterwards is the
  repository's, the answer is the number of requests moved, an owner gets at most one text per
  request moved, in the batch's order, and no file; only a cancellation stops the batch, and unless it does, each owner
  that has a chat was sent the text or the log says, with the request, that sending failed.\<close>

theorem reaper_tells_each_owner_once:
  assumes "reap_stale_requests_job mc cx w = (r, w')"
  shows "\<exists>out d. tx_fail_stale (mc_db_between mc) (db_clock (w_db w) - cx_stale_request_after cx) 100 (w_db w) = (Inr out, d) \<and>
    w_db w' = d \<and> w_fs w' = w_fs w \<and> w_queue w' = w_queue w \<and> tg_files (w_tg w') = tg_files (w_tg w) \<and>
    (\<exists>ts ls. tg_texts (w_tg w') = tg_texts (w_tg w) @ ts \<and> w_log w' = w_log w @ ls \<and> subseq (map fst ts) (batch_chats d out) \<and>
       (\<forall>s \<in> set out. \<forall>c n. owner_chat d s = Some c \<longrightarrow> r = Inr n \<longrightarrow> told ts ls c (stale_request_id s))) \<and>
    (case r of Inr n \<Rightarrow> n = length out | Inl e \<Rightarrow> \<not> is_exception e)"
proof -
  obtain out d where "tx_fail_stale (mc_db_between mc) (db_clock (w_db w) - cx_stale_request_after cx) REAPER_BATCH_SIZE (w_db w) = (Inr out, d)"
    by (simp add: fail_stale_eq)
  from this reap_job_run [OF this assms] show ?thesis unfolding REAPER_BATCH_SIZE_def by blast
qed

definition impatient_ctx :: worker_ctx where
  "impatient_ctx = example_ctx\<lparr>cx_stale_request_after := 46\<rparr>"

lemma example_reap:
  "fst (reap_stale_requests_job (example_machine dying_child) impatient_ctx (example_world None)) = Inr 1"
  "fst (tx_fail_stale (\<lambda>d. d) 4 100 example_db) = Inr [\<lparr>stale_request_id = 11, stale_user_id = 1, previous_status = PENDING\<rparr>]"
  by code_simp+

theorem reaper_tells_each_owner_once_witness:
  "\<exists>ts. tg_texts (w_tg (snd (reap_stale_requests_job (example_machine dying_child) impatient_ctx (example_world None)))) = ts \<and>
     length ts \<le> 1 \<and> tg_files (w_tg (snd (reap_stale_requests_job (example_machine dying_child) impatient_ctx (example_world None)))) = []"
proof -
  let ?run = "reap_stale_requests_job (example_machine dying_child) impatient_ctx (example_world None)"
  obtain out d ts where run: "tx_fail_stale (\<lambda>d. d) 4 100 example_db = (Inr out, d)"
    and ts: "tg_texts (w_tg (snd ?run)) = tg_texts (w_tg (example_world None)) @ ts" "subseq (map fst ts) (batch_chats d out)"
    and files: "tg_files (w_tg (snd ?run)) = tg_files (w_tg (example_world None))"
    using reaper_tells_each_owner_once [of "example_machine dying_child" impatient_ctx "example_world None", OF surjective_pairing]
    by (auto simp: example_world_def example_machine_def impatient_ctx_def example_ctx_def example_db_def)
  have "length out = 1" using run example_reap(2) by simp
  then have "length (batch_chats d out) \<le> 1"
    by (cases out) (simp_all add: batch_chats_def map_filter_def)
  then have "length ts \<le> 1" using list_emb_length [OF ts(2)] by simp
  then show ?thesis using ts(1) files by (simp add: example_world_def tg_files_def tg_texts_def map_filter_def)
qed

section \<open>The ping\<close>

text \<open>What the worker records, the bot reads back.\<close>

lemma ping_roundtrip:
  assumes "ping_job message s = (r, s')"
  shows "r = Inr (PDict [(''message'', PStr message), (''processed_at'', PStr (rs_now_isoformat s))]) \<and>
    get_last s' = (Inr (Some (PingResult message (rs_now_isoformat s))), s')"
  using assms
  by (auto simp: ping_job_def get_last_def ping_field_def json_dumps_def json_loads_def io_simps Let_def)

end
