(* ===== verification/Settings.thy ===== *)
theory Settings
  imports World Policy UrlValidation
begin

text \<open>
  \<open>src/config/settings.py\<close>: the settings with their defaults, the constraints pydantic checks, the
  validators and the derived values; and what \<open>startup\<close> of \<open>worker_settings.py\<close>, \<open>main\<close> of
  \<open>main.py\<close> and \<open>create_telegram_bot\<close> make of them.  Reading the environment is pydantic's; secrets
  are the strings they hold.
\<close>

section \<open>The fields\<close>

record settings =
  environment :: string
  log_level :: string
  log_dir :: "string option"
  log_file_max_mb :: int
  log_file_backups :: int
  sentry_dsn :: "string option"
  bot_token :: string
  telegram_api_id :: "int option"
  telegram_api_hash :: "string option"
  use_local_bot_api :: bool
  local_bot_api_base_url :: string
  default_locale :: string
  allowed_domains :: "string list"
  blocked_domains :: "string list"
  preview_context_ttl_seconds :: int
  disabled_formats :: "(string \<times> string list) list"
  admin_telegram_ids :: "int list"
  rate_limit_downloads_per_hour :: int
  rate_limit_previews_per_minute :: int
  file_upload_timeout_seconds :: int
  download_timeout_seconds :: int
  preview_timeout_seconds :: int
  stale_request_grace_seconds :: int
  download_min_free_disk_mb :: int
  max_deliverable_file_size_mb :: int
  postgres_host :: string
  postgres_port :: int
  postgres_db :: string
  postgres_user :: string
  postgres_password :: string
  redis_host :: string
  redis_port :: int
  redis_db :: int

text \<open>The defaults; the bot token has none.\<close>

definition default_settings :: "string \<Rightarrow> settings" where
  "default_settings token =
     \<lparr>environment = ''local'', log_level = ''INFO'', log_dir = None, log_file_max_mb = 50, log_file_backups = 10,
      sentry_dsn = None, bot_token = token, telegram_api_id = None, telegram_api_hash = None,
      use_local_bot_api = False, local_bot_api_base_url = ''http://telegram-bot-api:8081'', default_locale = ''en'',
      allowed_domains = [''youtube.com'', ''youtu.be'', ''tiktok.com'', ''instagram.com'', ''twitter.com'', ''x.com'', ''vk.com''],
      blocked_domains = [''music.youtube.com''], preview_context_ttl_seconds = 600, disabled_formats = [],
      admin_telegram_ids = [], rate_limit_downloads_per_hour = 10, rate_limit_previews_per_minute = 5,
      file_upload_timeout_seconds = 1800, download_timeout_seconds = 1800, preview_timeout_seconds = 60,
      stale_request_grace_seconds = 300, download_min_free_disk_mb = 3072, max_deliverable_file_size_mb = 50,
      postgres_host = ''postgres'', postgres_port = 5432, postgres_db = ''umd'', postgres_user = ''umd'',
      postgres_password = ''umd'', redis_host = ''redis'', redis_port = 6379, redis_db = 0\<rparr>"

text \<open>The constraints of the fields: \<open>gt\<close>, \<open>ge\<close> and the \<open>Literal\<close> of the format kinds.\<close>

definition settings_ok :: "settings \<Rightarrow> bool" where
  "settings_ok s \<longleftrightarrow> 0 < log_file_max_mb s \<and> 1 \<le> log_file_backups s \<and> 0 < preview_timeout_seconds s \<and>
     0 < stale_request_grace_seconds s \<and> 0 \<le> download_min_free_disk_mb s \<and>
     list_all (\<lambda>(_, kinds). list_all (\<lambda>k. k = ''video'' \<or> k = ''audio'') kinds) (disabled_formats s)"

section \<open>Validators and derived values\<close>

definition blank_is_unset :: "string option \<Rightarrow> string option" where
  "blank_is_unset v = (case v of None \<Rightarrow> None | Some t \<Rightarrow> if py_strip t = [] then None else Some t)"

text \<open>A dictionary display: a later value of a key replaces the earlier one in its place.\<close>

fun dict_insert :: "'k \<Rightarrow> 'v \<Rightarrow> ('k \<times> 'v) list \<Rightarrow> ('k \<times> 'v) list" where
  "dict_insert k v [] = [(k, v)]"
| "dict_insert k v ((k', v') # d) = (if k' = k then (k, v) # d else (k', v') # dict_insert k v d)"

definition lowercase_extractor_keys :: "(string \<times> 'v) list \<Rightarrow> (string \<times> 'v) list" where
  "lowercase_extractor_keys d = fold (\<lambda>(key, kinds). dict_insert (py_lower key) kinds) d []"

text \<open>What \<open>Settings()\<close> is for the values that were read, or a validation error.\<close>

definition validate_settings :: "settings \<Rightarrow> exn + settings" where
  "validate_settings raw =
     (if settings_ok raw then
        Inr (raw\<lparr>sentry_dsn := blank_is_unset (sentry_dsn raw), log_dir := blank_is_unset (log_dir raw),
                 disabled_formats := lowercase_extractor_keys (disabled_formats raw)\<rparr>)
      else Inl (ValueError ''ValidationError''))"

definition postgres_dsn :: "settings \<Rightarrow> string" where
  "postgres_dsn s = ''postgresql://'' @ postgres_user s @ '':'' @ postgres_password s @
     ''@'' @ postgres_host s @ '':'' @ show_int (postgres_port s) @ ''/'' @ postgres_db s"

text \<open>\<open>str.replace(old, new, 1)\<close>\<close>

fun replace_first :: "string \<Rightarrow> string \<Rightarrow> string \<Rightarrow> string" where
  "replace_first old new [] = (if old = [] then new else [])"
| "replace_first old new (c # cs) =
     (if take (length old) (c # cs) = old then new @ drop (length old) (c # cs) else c # replace_first old new cs)"

definition sqlalchemy_dsn :: "settings \<Rightarrow> string" where
  "sqlalchemy_dsn s = replace_first ''postgresql://'' ''postgresql+asyncpg://'' (postgres_dsn s)"

definition redis_dsn :: "settings \<Rightarrow> string" where
  "redis_dsn s = ''redis://'' @ redis_host s @ '':'' @ show_int (redis_port s) @ ''/'' @ show_int (redis_db s)"

definition allowed_domains_set :: "settings \<Rightarrow> string list" where
  "allowed_domains_set s = remdups (allowed_domains s)"

definition blocked_domains_set :: "settings \<Rightarrow> string list" where
  "blocked_domains_set s = remdups (blocked_domains s)"

definition is_admin :: "settings \<Rightarrow> int \<Rightarrow> bool" where
  "is_admin s tid \<longleftrightarrow> tid \<in> set (admin_telegram_ids s)"

definition log_file_max_bytes :: "settings \<Rightarrow> int" where
  "log_file_max_bytes s = log_file_max_mb s * 1024 * 1024"

definition download_min_free_disk_bytes :: "settings \<Rightarrow> int" where
  "download_min_free_disk_bytes s = download_min_free_disk_mb s * 1024 * 1024"

definition max_deliverable_file_size_bytes :: "settings \<Rightarrow> int" where
  "max_deliverable_file_size_bytes s = max_deliverable_file_size_mb s * 1024 * 1024"

section \<open>The two processes\<close>

definition DOWNLOAD_STORAGE_DIR :: path where
  "DOWNLOAD_STORAGE_DIR = [''tmp'', ''umd-downloads'']"

text \<open>Seconds; arq cancels a job that runs longer.\<close>

definition JOB_TIMEOUT_SECONDS :: int where
  "JOB_TIMEOUT_SECONDS = 2100"

definition worker_startup :: "settings \<Rightarrow> fluent_localizer \<Rightarrow> worker_ctx" where
  "worker_startup s localizer =
     \<lparr>cx_storage_dir = DOWNLOAD_STORAGE_DIR,
      cx_notifier = \<lparr>tn_max_file_size_bytes = max_deliverable_file_size_bytes s,
                     tn_file_upload_timeout_seconds = file_upload_timeout_seconds s\<rparr>,
      cx_localizer = localizer,
      cx_max_deliverable_file_size_bytes = max_deliverable_file_size_bytes s,
      cx_download_timeout_seconds = download_timeout_seconds s,
      cx_preview_timeout_seconds = preview_timeout_seconds s,
      cx_download_min_free_disk_bytes = download_min_free_disk_bytes s,
      cx_stale_request_after = (JOB_TIMEOUT_SECONDS + stale_request_grace_seconds s) * 1000000\<rparr>"

text \<open>The policy of the bot: \<open>FormatKind(kind)\<close> of every kind.\<close>

fun format_kinds :: "string list \<Rightarrow> exn + format_kind list" where
  "format_kinds [] = Inr []"
| "format_kinds (k # ks) =
     (case format_kind_of k of
        Inl e \<Rightarrow> Inl e
      | Inr kind \<Rightarrow> (case format_kinds ks of Inl e \<Rightarrow> Inl e | Inr kinds \<Rightarrow> Inr (kind # kinds)))"

fun disabled_kinds :: "(string \<times> string list) list \<Rightarrow> exn + (string \<times> format_kind list) list" where
  "disabled_kinds [] = Inr []"
| "disabled_kinds ((extractor, kinds) # d) =
     (case format_kinds kinds of
        Inl e \<Rightarrow> Inl e
      | Inr ks \<Rightarrow> (case disabled_kinds d of Inl e \<Rightarrow> Inl e | Inr ds \<Rightarrow> Inr ((extractor, ks) # ds)))"

definition bot_policy :: "settings \<Rightarrow> exn + format_policy" where
  "bot_policy s = (case disabled_kinds (disabled_formats s) of Inl e \<Rightarrow> Inl e | Inr d \<Rightarrow> Inr (FormatPolicy d))"

text \<open>\<open>create_telegram_bot\<close>: the token, the server (none: \<open>api.telegram.org\<close>), HTML as the parse mode.\<close>

record bot_client =
  client_token :: string
  client_api_server :: "string option"
  client_parse_mode :: string

definition create_telegram_bot :: "settings \<Rightarrow> bot_client" where
  "create_telegram_bot s =
     \<lparr>client_token = bot_token s,
      client_api_server = (if use_local_bot_api s then Some (local_bot_api_base_url s) else None),
      client_parse_mode = ''HTML''\<rparr>"

section \<open>Facts\<close>

lemma dict_insert_map_of: "map_of (dict_insert k v d) = (map_of d)(k \<mapsto> v)"
  by (induction d) (auto simp: fun_eq_iff)

lemma fold_dict_insert:
  "map_of (fold (\<lambda>(key, v). dict_insert (f key) v) d acc) =
     map_of acc ++ map_of (rev (map (\<lambda>(key, v). (f key, v)) d))"
proof (induction d arbitrary: acc)
  case (Cons x d)
  obtain k v where "x = (k, v)" by fastforce
  then show ?case using Cons.IH [of "dict_insert (f k) v acc"]
    by (simp add: dict_insert_map_of map_add_def fun_eq_iff split: option.split)
qed simp

text \<open>The settings' validator and the policy's constructor lower the keys in the same way.\<close>

lemma lowercase_map_of: "map_of (lowercase_extractor_keys d) = map_of (rev (map (\<lambda>(key, v). (py_lower key, v)) d))"
  by (simp add: lowercase_extractor_keys_def fold_dict_insert)

lemma format_kinds_ok: "list_all (\<lambda>k. k = ''video'' \<or> k = ''audio'') ks \<Longrightarrow>
    \<exists>kinds. format_kinds ks = Inr kinds \<and> map format_kind_value kinds = ks"
proof (induction ks)
  case (Cons k ks)
  then obtain kinds where ks: "format_kinds ks = Inr kinds" "map format_kind_value kinds = ks" by auto
  have "k = ''video'' \<or> k = ''audio''" using Cons.prems by simp
  then show ?case
  proof
    assume "k = ''video''"
    then show ?thesis using ks by (intro exI [of _ "VIDEO # kinds"]) (simp add: format_kind_of_def)
  next
    assume "k = ''audio''"
    then show ?thesis using ks by (intro exI [of _ "AUDIO # kinds"]) (simp add: format_kind_of_def)
  qed
qed simp

lemma sqlalchemy_dsn_eq: "sqlalchemy_dsn s = ''postgresql+asyncpg://'' @ drop 13 (postgres_dsn s)"
  by (simp add: sqlalchemy_dsn_def postgres_dsn_def)

text \<open>What holds of every given entry holds of every entry of the dictionary; its keys are distinct.\<close>

lemma set_dict_insert: "set (dict_insert k v d) \<subseteq> insert (k, v) (set d)"
  by (induction k v d rule: dict_insert.induct) (auto split: if_splits)

lemma fold_dict_insert_all:
  "(\<And>k v. (k, v) \<in> set d \<Longrightarrow> P (f k) v) \<Longrightarrow> (\<And>k v. (k, v) \<in> set acc \<Longrightarrow> P k v) \<Longrightarrow>
   (k, v) \<in> set (fold (\<lambda>(key, v). dict_insert (f key) v) d acc) \<Longrightarrow> P k v"
proof (induction d arbitrary: acc)
  case (Cons x d)
  obtain k' v' where x: "x = (k', v')" by fastforce
  show ?case
    using Cons.prems(3) unfolding x fold_simps comp_def case_prod_conv
    by (rule Cons.IH [rotated 2]) (use Cons.prems(1,2) x set_dict_insert [of "f k'" v' acc] in auto)
qed simp

lemma fst_dict_insert: "fst ` set (dict_insert k v d) = insert k (fst ` set d)"
  by (induction k v d rule: dict_insert.induct) auto

lemma distinct_dict_insert: "distinct (map fst d) \<Longrightarrow> distinct (map fst (dict_insert k v d))"
  by (induction k v d rule: dict_insert.induct) (auto simp: fst_dict_insert simp flip: image_set)

lemma distinct_lowercase: "distinct (map fst (lowercase_extractor_keys (d :: (string \<times> 'v) list)))"
proof -
  have "distinct (map fst (fold (\<lambda>(key, v). dict_insert (f key) v) d acc))" if "distinct (map fst acc)"
    for f :: "string \<Rightarrow> string" and acc :: "(string \<times> 'v) list"
    using that by (induction d arbitrary: acc) (auto simp: distinct_dict_insert)
  then show ?thesis by (simp add: lowercase_extractor_keys_def)
qed

lemma map_of_rev_distinct: "distinct (map fst xs) \<Longrightarrow> map_of (rev xs) = map_of xs"
  by (subst map_of_inject_set) (simp_all flip: rev_map)

lemma disabled_kinds_ok:
  assumes "list_all (\<lambda>(_, kinds). list_all (\<lambda>k. k = ''video'' \<or> k = ''audio'') kinds) d"
  shows "\<exists>out. disabled_kinds d = Inr out \<and> map (\<lambda>(k, ks). (k, map format_kind_value ks)) out = d"
  using assms
proof (induction d)
  case (Cons x d)
  obtain k ks where x: "x = (k, ks)" by fastforce
  obtain kinds where "format_kinds ks = Inr kinds" "map format_kind_value kinds = ks"
    using format_kinds_ok Cons.prems x by force
  moreover obtain out where "disabled_kinds d = Inr out" "map (\<lambda>(k, ks). (k, map format_kind_value ks)) out = d"
    using Cons by auto
  ultimately show ?case using x by simp
qed simp

lemma format_kind_value_inj: "format_kind_value k = format_kind_value k' \<Longrightarrow> k = k'"
  by (cases k; cases k') simp_all

lemma map_of_map_snd: "map_of (map (\<lambda>(k, v). (k, f v)) d) k = map_option f (map_of d k)"
  by (induction d) auto

text \<open>The kinds a configuration switches off for an extractor: the last entry whose key agrees up to case.\<close>

definition configured_off :: "(string \<times> string list) list \<Rightarrow> string \<Rightarrow> string list" where
  "configured_off d extractor_key =
     (case map_of (rev (map (\<lambda>(key, kinds). (py_lower key, kinds)) d)) (py_lower extractor_key) of
        None \<Rightarrow> [] | Some kinds \<Rightarrow> kinds)"

text \<open>C38: settings that validate always give the bot a policy, and it enforces exactly what was configured:
  a format is refused for a source if and only if the entry for that source, in whatever case either
  was written, names its kind.\<close>

theorem configured_kill_switch_is_enforced:
  assumes "validate_settings raw = Inr s"
  shows "\<exists>p. bot_policy s = Inr p \<and>
    (is_allowed p extractor_key sp = (format_kind_value (spec_kind sp) \<notin> set (configured_off (disabled_formats raw) extractor_key)))"
proof -
  let ?d = "lowercase_extractor_keys (disabled_formats raw)" and ?k = "py_lower extractor_key"
  have s: "disabled_formats s = ?d" and raw: "settings_ok raw"
    using assms by (auto simp: validate_settings_def split: if_splits)
  let ?P = "\<lambda>k v. list_all (\<lambda>k. k = ''video'' \<or> k = ''audio'') v \<and> py_lower k = k"
  have given: "?P (py_lower k) v" if "(k, v) \<in> set (disabled_formats raw)" for k v
    using raw that by (fastforce simp: settings_ok_def list_all_iff)
  have all: "?P k v" if "(k, v) \<in> set ?d" for k v
    using fold_dict_insert_all [of "disabled_formats raw" ?P py_lower "[]" k v, OF given] that
    by (simp add: lowercase_extractor_keys_def)
  have "list_all (\<lambda>(_, kinds). list_all (\<lambda>k. k = ''video'' \<or> k = ''audio'') kinds) ?d"
    unfolding list_all_iff [of _ ?d] using all by auto
  then obtain out where out: "disabled_kinds ?d = Inr out" and d: "map (\<lambda>(k, ks). (k, map format_kind_value ks)) out = ?d"
    using disabled_kinds_ok by blast
  have keys: "map fst out = map fst ?d" unfolding d [symmetric] by (induction out) auto
  have "map (\<lambda>(k, ks). (py_lower k, ks)) out = out"
  proof (rule map_idI)
    fix x assume "x \<in> set out"
    then have "fst x \<in> fst ` set ?d" using keys by (metis image_eqI image_set)
    then show "(case x of (k, ks) \<Rightarrow> (py_lower k, ks)) = x" using all by (cases x) auto
  qed
  then have "FormatPolicy out ?k = map_of out ?k"
    using distinct_lowercase [of "disabled_formats raw"] keys by (simp add: FormatPolicy_def map_of_rev_distinct)
  moreover have "map_option (map format_kind_value) (map_of out ?k) = map_of ?d ?k"
    unfolding d [symmetric] by (simp add: map_of_map_snd)
  ultimately have "map_of (rev (map (\<lambda>(key, kinds). (py_lower key, kinds)) (disabled_formats raw))) ?k =
      map_option (map format_kind_value) (FormatPolicy out ?k)"
    by (simp add: lowercase_map_of)
  then have "configured_off (disabled_formats raw) extractor_key = map format_kind_value (disabled_for (FormatPolicy out) extractor_key)"
    by (auto simp: configured_off_def disabled_for_def split: option.split)
  then show ?thesis
    using out s format_kind_value_inj by (auto simp: bot_policy_def is_allowed_def)
qed

text \<open>The example configuration of the comment in the source, with the case of the key changed.\<close>

definition example_settings :: settings where
  "example_settings = (default_settings ''123:abc'')\<lparr>disabled_formats := [(''YouTube'', [''audio''])], sentry_dsn := Some ''  ''\<rparr>"

theorem configured_kill_switch_is_enforced_witness:
  "\<exists>s p. validate_settings example_settings = Inr s \<and> bot_policy s = Inr p \<and> \<not> is_allowed p ''Youtube'' (AudioSpec MP3)"
proof -
  obtain s where s: "validate_settings example_settings = Inr s"
    by (simp add: validate_settings_def settings_ok_def example_settings_def default_settings_def)
  have off: "configured_off (disabled_formats example_settings) ''Youtube'' = [''audio'']"
    by code_simp
  show ?thesis
    using configured_kill_switch_is_enforced [OF s, of "''Youtube''" "AudioSpec MP3"] s unfolding off by auto
qed

text \<open>
  The reaper's threshold exceeds arq's job timeout for all valid settings; but with the default
  settings a download and the upload after it may together take longer than the job timeout.
\<close>

lemma threshold_exceeds_job_timeout:
  "validate_settings raw = Inr s \<Longrightarrow> JOB_TIMEOUT_SECONDS * 1000000 < cx_stale_request_after (worker_startup s l)"
  by (auto simp: validate_settings_def settings_ok_def worker_startup_def split: if_splits)

lemma default_job_budget_exceeded:
  "JOB_TIMEOUT_SECONDS < cx_download_timeout_seconds (worker_startup (default_settings t) l) +
     tn_file_upload_timeout_seconds (cx_notifier (worker_startup (default_settings t) l))"
  by (simp add: JOB_TIMEOUT_SECONDS_def worker_startup_def default_settings_def)

end
