(* ===== verification/Lifecycle.thy ===== *)
theory Lifecycle
  imports Settings
begin

text \<open>
  The life of a download request across the two processes: the bot that stores and enqueues it, the
  queue, the jobs of all workers, and the reaper.  A step is one transaction of one of them on the
  shared tables, by the repository operations of \<open>Database\<close>, or a move of a job that leaves the
  tables alone; steps interleave in any order.

  Of arq the model uses that a job id is run by one worker at a time, that a job is cancelled
  \<open>JOB_TIMEOUT_SECONDS\<close> after it started, and that the job of a worker that shuts down may be queued
  again; \<open>RequestDownloadUseCase\<close> enqueues one job per request.
\<close>

section \<open>The system\<close>

text \<open>
  A job is loading its request, working on the request it claimed, or closing: it has recorded the
  outcome, or has nothing to do.  With its phase goes the time it started.
\<close>

datatype phase = Loading | Working | Closing

record system =
  sys_db :: db
  sys_creating :: "uuid list"
  sys_queued :: "uuid list"
  sys_jobs :: "uuid \<Rightarrow> (phase \<times> time) option"

definition init_system :: "system \<Rightarrow> bool" where
  "init_system s \<longleftrightarrow> db_requests (sys_db s) = [] \<and> sys_creating s = [] \<and> sys_queued s = [] \<and> sys_jobs s = (\<lambda>_. None)"

definition deadline :: "time \<Rightarrow> time" where
  "deadline start = start + JOB_TIMEOUT_SECONDS * 1000000"

inductive step :: "worker_ctx \<Rightarrow> system \<Rightarrow> system \<Rightarrow> bool" for cx where
  create: "tx_create q (sys_db s) = (Inr q, d) \<Longrightarrow> request_status q = PENDING \<Longrightarrow>
    step cx s (s\<lparr>sys_db := d, sys_creating := request_id q # sys_creating s\<rparr>)"
| enqueue: "rid \<in> set (sys_creating s) \<Longrightarrow>
    step cx s (s\<lparr>sys_creating := removeAll rid (sys_creating s), sys_queued := rid # sys_queued s\<rparr>)"
| enqueue_failed: "rid \<in> set (sys_creating s) \<Longrightarrow> tx_mark_failed_by_id rid (sys_db s) = (Inr (), d) \<Longrightarrow>
    step cx s (s\<lparr>sys_db := d, sys_creating := removeAll rid (sys_creating s)\<rparr>)"
| bot_stops: "rid \<in> set (sys_creating s) \<Longrightarrow> step cx s (s\<lparr>sys_creating := removeAll rid (sys_creating s)\<rparr>)"
| lost: "rid \<in> set (sys_queued s) \<Longrightarrow> step cx s (s\<lparr>sys_queued := removeAll rid (sys_queued s)\<rparr>)"
| start: "rid \<in> set (sys_queued s) \<Longrightarrow>
    step cx s (s\<lparr>sys_queued := removeAll rid (sys_queued s), sys_jobs := (sys_jobs s)(rid \<mapsto> (Loading, db_clock (sys_db s)))\<rparr>)"
| unreadable: "sys_jobs s rid = Some (Loading, start) \<Longrightarrow> find_request rid (sys_db s) = Some m \<Longrightarrow> \<not> row_readable m \<Longrightarrow>
    tx_mark_failed_by_id rid (sys_db s) = (Inr (), d) \<Longrightarrow>
    step cx s (s\<lparr>sys_db := d, sys_jobs := (sys_jobs s)(rid \<mapsto> (Closing, start))\<rparr>)"
| claim: "sys_jobs s rid = Some (Loading, start) \<Longrightarrow> tx_claim_for_processing rid (sys_db s) = (Inr claimed, d) \<Longrightarrow>
    step cx s (s\<lparr>sys_db := d, sys_jobs := (sys_jobs s)(rid \<mapsto> (if claimed then Working else Closing, start))\<rparr>)"
| finish: "sys_jobs s rid = Some (Working, start) \<Longrightarrow> request_id r = rid \<Longrightarrow> request_status r \<in> {DONE, FAILED} \<Longrightarrow>
    tx_update r (sys_db s) = (Inr (), d) \<Longrightarrow>
    step cx s (s\<lparr>sys_db := d, sys_jobs := (sys_jobs s)(rid \<mapsto> (Closing, start))\<rparr>)"
| job_ends: "sys_jobs s rid = Some (ph, start) \<Longrightarrow> step cx s (s\<lparr>sys_jobs := (sys_jobs s)(rid := None)\<rparr>)"
| job_retried: "sys_jobs s rid = Some (ph, start) \<Longrightarrow>
    step cx s (s\<lparr>sys_jobs := (sys_jobs s)(rid := None), sys_queued := rid # sys_queued s\<rparr>)"
| reap: "tx_fail_stale id (db_clock (sys_db s) - cx_stale_request_after cx) limit (sys_db s) = (Inr out, d) \<Longrightarrow>
    step cx s (s\<lparr>sys_db := d\<rparr>)"
| tick: "db_clock (sys_db s) \<le> t \<Longrightarrow> (\<And>rid ph start. sys_jobs s rid = Some (ph, start) \<Longrightarrow> t \<le> deadline start) \<Longrightarrow>
    step cx s (s\<lparr>sys_db := (sys_db s)\<lparr>db_clock := t\<rparr>\<rparr>)"
| elsewhere: "db_requests d = db_requests (sys_db s) \<Longrightarrow> db_clock d = db_clock (sys_db s) \<Longrightarrow> step cx s (s\<lparr>sys_db := d\<rparr>)"

inductive_cases stepE: "step cx s s'"

inductive reachable_system :: "worker_ctx \<Rightarrow> system \<Rightarrow> bool" for cx where
  initially: "init_system s \<Longrightarrow> reachable_system cx s"
| further: "reachable_system cx s \<Longrightarrow> step cx s s' \<Longrightarrow> reachable_system cx s'"

section \<open>The operations on one row\<close>

text \<open>What each transaction makes of the row of one request.\<close>

lemma find_one_row:
  assumes "\<And>m. row_id (f m) = row_id m"
  shows "find_request k (update_requests (\<lambda>m. row_id m = rid \<and> Q m) f d) =
     (if k = rid then map_option (\<lambda>m. if Q m then f m else m) (find_request k d) else find_request k d)"
proof (cases "find_request k d")
  case (Some m)
  then have "row_id m = k" using find_request_Some by blast
  then show ?thesis unfolding find_request_update [OF assms] Some by simp
qed (auto simp: find_request_update [OF assms])

lemmas find_one_row' = find_one_row [where Q = "\<lambda>_. True", simplified]

lemma create_row:
  assumes "tx_create q d = (Inr q', d')"
  shows "db_requests d' = db_requests d @ [request_row_of (db_clock d) q] \<and> find_request (request_id q) d = None \<and> db_clock d' = db_clock d"
  using assms
  by (auto simp: tx_create_def sql_create_def session_scope_def insert_request_def io_simps request_row_of_def
      split: if_splits)

lemma find_after_create:
  assumes "tx_create q d = (Inr q', d')"
  shows "find_request k d' = (if k = request_id q then Some (request_row_of (db_clock d) q) else find_request k d)"
  using create_row [OF assms]
  by (auto simp: find_request_def find_append request_row_of_def split: option.split)

lemma find_after_mark_failed:
  assumes "tx_mark_failed_by_id rid d = (Inr (), d')"
  shows "find_request k d' = (if k = rid then map_option (reap_row (db_clock d)) (find_request k d) else find_request k d) \<and>
    db_clock d' = db_clock d \<and> map row_id (db_requests d') = map row_id (db_requests d)"
proof (cases "find_request rid d")
  case None
  then show ?thesis using assms by (auto simp: mark_failed_eq)
next
  case (Some m)
  then have d': "d' = update_requests (\<lambda>m. row_id m = rid) (reap_row (db_clock d)) d"
    using assms Some by (simp add: mark_failed_eq reap_row_def [abs_def])
  show ?thesis unfolding d' by (simp add: find_one_row' update_requests_ids)
qed

lemma find_after_claim:
  assumes "tx_claim_for_processing rid d = (Inr claimed, d')" and "distinct (map row_id (db_requests d))"
  shows "find_request k d' = (if k = rid then map_option (\<lambda>m. if is_active m
           then m\<lparr>row_status := ''processing'', row_updated_at := db_clock d\<rparr> else m) (find_request k d) else find_request k d) \<and>
    claimed = (\<exists>m. find_request rid d = Some m \<and> is_active m) \<and>
    db_clock d' = db_clock d \<and> map row_id (db_requests d') = map row_id (db_requests d)"
proof -
  let ?f = "\<lambda>m. m\<lparr>row_status := ''processing'', row_updated_at := db_clock d\<rparr>"
  have d': "d' = update_requests (\<lambda>m. row_id m = rid \<and> is_active m) ?f d"
    and c: "claimed = (\<exists>r \<in> set (db_requests d). row_id r = rid \<and> is_active r)"
    using assms(1) unfolding claim_eq by simp_all
  have "find_request k d' = (if k = rid then map_option (\<lambda>m. if is_active m then ?f m else m) (find_request k d)
      else find_request k d)"
    unfolding d' by (rule find_one_row) simp
  moreover have "claimed = (\<exists>m. find_request rid d = Some m \<and> is_active m)"
    unfolding c using find_request_Some [of rid d] find_request_mem [OF assms(2)] by blast
  ultimately show ?thesis unfolding d' by (simp add: update_requests_ids)
qed

lemma find_after_update:
  assumes "tx_update r d = (Inr (), d')"
  shows "find_request k d' = (if k = request_id r then map_option (\<lambda>m. m\<lparr>row_status := status_value (request_status r),
           row_completed_at := request_completed_at r, row_updated_at := db_clock d\<rparr>) (find_request k d) else find_request k d) \<and>
    db_clock d' = db_clock d \<and> map row_id (db_requests d') = map row_id (db_requests d)"
proof -
  have d': "d' = update_requests (\<lambda>m. row_id m = request_id r) (\<lambda>m. m\<lparr>row_status := status_value (request_status r),
           row_completed_at := request_completed_at r, row_updated_at := db_clock d\<rparr>) d"
    using assms by (auto simp: update_eq split: if_splits)
  show ?thesis unfolding d' by (simp add: find_one_row' update_requests_ids)
qed

text \<open>A reap without interference: exactly the rows it answers with move, and they were stale.\<close>

lemma find_after_reap:
  assumes "tx_fail_stale id t n d = (Inr out, d')" and "distinct (map row_id (db_requests d))"
  shows "find_request k d' = (if k \<in> stale_request_id ` set out then map_option (reap_row (db_clock d)) (find_request k d)
           else find_request k d) \<and>
    (k \<in> stale_request_id ` set out \<longrightarrow> (\<exists>m. find_request k d = Some m \<and> is_stale t m)) \<and>
    db_clock d' = db_clock d \<and> map row_id (db_requests d') = map row_id (db_requests d)"
proof -
  let ?cs = "select_stale t n d"
  have at: "db_at_update id t n d = d" by (simp add: db_at_update_def)
  have d': "d' = update_requests (\<lambda>m. row_id m \<in> row_id ` set ?cs \<and> is_stale t m) (reap_row (db_clock d)) d"
    and out: "out = map stale_request_of (reaped_rows id t n d)"
    using assms(1) unfolding fail_stale_eq at by simp_all
  have cs: "reaped_rows id t n d = ?cs"
    unfolding reaped_rows_def at by (rule filter_True) (auto dest: mem_select_stale)
  have ids: "stale_request_id ` set out = row_id ` set ?cs"
    unfolding out cs by (force simp: stale_request_of_def)
  have stale: "\<exists>m. find_request k d = Some m \<and> is_stale t m" if "k \<in> row_id ` set ?cs"
    using that mem_select_stale find_request_mem [OF assms(2)] by fastforce
  have id: "row_id r = k" if "find_request k d = Some r" for r using that find_request_Some by blast
  have "find_request k d' = (if k \<in> row_id ` set ?cs then map_option (reap_row (db_clock d)) (find_request k d) else find_request k d)"
    unfolding d' find_request_update [OF reap_row_simps(1)] using id stale by (cases "find_request k d") auto
  then show ?thesis using stale ids unfolding d' by (simp add: update_requests_ids)
qed

lemmas row_effects = find_after_create find_after_mark_failed find_after_claim find_after_update find_after_reap

section \<open>The invariant\<close>

definition ids_inv :: "system \<Rightarrow> bool" where
  "ids_inv s \<longleftrightarrow> distinct (map row_id (db_requests (sys_db s)))"

text \<open>A request is in one place at a time, and its row exists.\<close>

definition place_inv :: "system \<Rightarrow> bool" where
  "place_inv s \<longleftrightarrow> distinct (sys_creating s @ sys_queued s) \<and>
     (\<forall>rid. sys_jobs s rid \<noteq> None \<longrightarrow> rid \<notin> set (sys_creating s) \<union> set (sys_queued s)) \<and>
     (\<forall>rid. rid \<in> set (sys_creating s) \<union> set (sys_queued s) \<or> sys_jobs s rid \<noteq> None \<longrightarrow>
        find_request rid (sys_db s) \<noteq> None)"

definition creating_inv :: "system \<Rightarrow> bool" where
  "creating_inv s \<longleftrightarrow> (\<forall>rid \<in> set (sys_creating s). \<exists>m. find_request rid (sys_db s) = Some m \<and>
     row_status m \<in> {''pending'', ''failed''})"

definition time_inv :: "system \<Rightarrow> bool" where
  "time_inv s \<longleftrightarrow> (\<forall>rid ph start. sys_jobs s rid = Some (ph, start) \<longrightarrow>
     start \<le> db_clock (sys_db s) \<and> db_clock (sys_db s) \<le> deadline start)"

text \<open>The row of a request a job works on: processing, and touched since the job started.\<close>

definition working_inv :: "system \<Rightarrow> bool" where
  "working_inv s \<longleftrightarrow> (\<forall>rid start. sys_jobs s rid = Some (Working, start) \<longrightarrow>
     (\<exists>m. find_request rid (sys_db s) = Some m \<and> row_status m = ''processing'' \<and> start \<le> row_updated_at m))"

definition sys_inv :: "system \<Rightarrow> bool" where
  "sys_inv s \<longleftrightarrow> ids_inv s \<and> place_inv s \<and> creating_inv s \<and> time_inv s \<and> working_inv s"

lemmas inv_defs = ids_inv_def place_inv_def creating_inv_def time_inv_def working_inv_def

text \<open>The threshold is at least as long as a job may run.\<close>

definition patient :: "worker_ctx \<Rightarrow> bool" where
  "patient cx \<longleftrightarrow> JOB_TIMEOUT_SECONDS * 1000000 \<le> cx_stale_request_after cx"

lemma working_not_stale:
  assumes "sys_inv s" and "patient cx" and "sys_jobs s rid = Some (Working, start)"
    and "find_request rid (sys_db s) = Some m"
  shows "\<not> is_stale (db_clock (sys_db s) - cx_stale_request_after cx) m"
  using assms by (fastforce simp: sys_inv_def working_inv_def time_inv_def deadline_def patient_def is_stale_def)

lemma reap_spares_working:
  assumes "sys_inv s" and "patient cx" and "sys_jobs s rid = Some (Working, start)"
    and "tx_fail_stale id (db_clock (sys_db s) - cx_stale_request_after cx) limit (sys_db s) = (Inr out, d)"
  shows "rid \<notin> stale_request_id ` set out" and "find_request rid d = find_request rid (sys_db s)"
proof -
  have "distinct (map row_id (db_requests (sys_db s)))" using assms(1) by (simp add: sys_inv_def ids_inv_def)
  note reap = find_after_reap [OF assms(4) this, of rid]
  then show "rid \<notin> stale_request_id ` set out" using working_not_stale [OF assms(1-3)] by blast
  with reap show "find_request rid d = find_request rid (sys_db s)" by simp
qed

lemma ids_step:
  assumes "step cx s s'" and "ids_inv s"
  shows "ids_inv s'"
  using assms
proof (cases rule: step.cases)
  case (create q d)
  then show ?thesis using assms(2) create_row [OF create(2)]
    by (auto simp: ids_inv_def find_request_None request_row_of_def)
qed (use assms(2) in \<open>auto simp: ids_inv_def dest: find_after_mark_failed find_after_claim find_after_update find_after_reap\<close>)

lemma time_step:
  assumes "step cx s s'" and "ids_inv s" and "time_inv s"
  shows "time_inv s'"
  using assms(1)
proof (cases rule: step.cases)
  case (create q d)
  then show ?thesis using assms(3) create_row [OF create(2)] by (auto simp: time_inv_def)
next
  case (start rid)
  then show ?thesis using assms(3) by (auto simp: time_inv_def deadline_def JOB_TIMEOUT_SECONDS_def)
next
  case (tick t)
  then show ?thesis using assms(3) by (fastforce simp: time_inv_def)
next
  case (reap limit out d)
  then show ?thesis using assms(2,3) find_after_reap [OF reap(2)] by (auto simp: time_inv_def ids_inv_def)
next
  case (claim rid st cl d)
  then show ?thesis using assms(2,3) find_after_claim [OF claim(3)] by (auto simp: time_inv_def ids_inv_def split: if_splits)
qed (use assms(3) in \<open>auto simp: time_inv_def dest: find_after_mark_failed find_after_update split: if_splits\<close>)

lemma rows_stay:
  assumes "step cx s s'" and "ids_inv s" and "find_request k (sys_db s) \<noteq> None"
  shows "find_request k (sys_db s') \<noteq> None"
  using assms(1)
proof (cases rule: step.cases)
  case (create q d)
  then show ?thesis using assms(3) find_after_create [OF create(2), of k] by auto
next
  case (elsewhere d)
  then show ?thesis using assms(3) find_request_cong [OF elsewhere(2)] by auto
next
  case (reap limit out d)
  then show ?thesis using assms(2,3) find_after_reap [OF reap(2), of k] by (auto simp: ids_inv_def)
next
  case (claim rid st cl d)
  then show ?thesis using assms(2,3) find_after_claim [OF claim(3), of k] by (auto simp: ids_inv_def)
next
  case (finish rid st r d)
  then show ?thesis using assms(3) find_after_update [OF finish(5), of k] by auto
next
  case (unreadable rid st m d)
  then show ?thesis using assms(3) find_after_mark_failed [OF unreadable(5), of k] by auto
next
  case (enqueue_failed rid d)
  then show ?thesis using assms(3) find_after_mark_failed [OF enqueue_failed(3), of k] by auto
qed (use assms(3) in \<open>auto simp: find_request_def\<close>)

lemma place_step:
  assumes "step cx s s'" and "ids_inv s" and "place_inv s"
  shows "place_inv s'"
proof -
  note stay = rows_stay [OF assms(1,2)]
  have there: "find_request rid (sys_db s) \<noteq> None"
    if "rid \<in> set (sys_creating s) \<union> set (sys_queued s) \<or> sys_jobs s rid \<noteq> None" for rid
    using assms(3) that unfolding place_inv_def by blast
  have old: "find_request rid (sys_db s') \<noteq> None"
    if "rid \<in> set (sys_creating s) \<union> set (sys_queued s) \<or> sys_jobs s rid \<noteq> None" for rid
    using stay [OF there [OF that]] .
  from assms(1) show ?thesis
  proof (cases rule: step.cases)
    case (create q d)
    have "find_request (request_id q) (sys_db s) = None" using create_row [OF create(2)] by blast
    then have new: "request_id q \<notin> set (sys_creating s) \<union> set (sys_queued s)" and idle: "sys_jobs s (request_id q) = None"
      using there [of "request_id q"] by blast+
    have "find_request (request_id q) d \<noteq> None" using find_after_create [OF create(2), of "request_id q"] by simp
    then show ?thesis using assms(3) new idle old unfolding place_inv_def create(1) by auto
  qed (use assms(3) old in \<open>auto simp: place_inv_def distinct_removeAll split: if_splits\<close>)
qed

lemma creating_step:
  assumes "step cx s s'" and "ids_inv s" and "place_inv s" and "creating_inv s"
  shows "creating_inv s'"
  using assms(1)
proof (cases rule: step.cases)
  case (create q d)
  then show ?thesis using assms(4) find_after_create [OF create(2)]
    by (auto simp: creating_inv_def request_row_of_def)
next
  case (elsewhere d)
  then show ?thesis using assms(4) find_request_cong [OF elsewhere(2)] by (auto simp: creating_inv_def)
next
  case (reap limit out d)
  then show ?thesis using assms(2,4) find_after_reap [OF reap(2)] by (fastforce simp: creating_inv_def ids_inv_def)
next
  case (claim rid st cl d)
  have "rid \<notin> set (sys_creating s)" using assms(3) claim(2) by (auto simp: place_inv_def)
  then show ?thesis using assms(2,4) find_after_claim [OF claim(3)] claim(1) by (auto simp: creating_inv_def ids_inv_def)
next
  case (finish rid st r d)
  have "rid \<notin> set (sys_creating s)" using assms(3) finish(2) by (auto simp: place_inv_def)
  then show ?thesis using assms(4) find_after_update [OF finish(5)] finish(1,3) by (auto simp: creating_inv_def)
next
  case (unreadable rid st m d)
  have "rid \<notin> set (sys_creating s)" using assms(3) unreadable(2) by (auto simp: place_inv_def)
  then show ?thesis using assms(4) find_after_mark_failed [OF unreadable(5)] unreadable(1) by (auto simp: creating_inv_def)
next
  case (enqueue_failed rid d)
  then show ?thesis using assms(4) find_after_mark_failed [OF enqueue_failed(3)] by (auto simp: creating_inv_def)
next
  case (tick t)
  then show ?thesis using assms(4) by (simp add: creating_inv_def find_request_def)
qed (use assms(4) in \<open>auto simp: creating_inv_def\<close>)

lemma working_step:
  assumes "step cx s s'" and "sys_inv s" and "patient cx"
  shows "working_inv s'"
proof -
  have ids: "ids_inv s" and place: "place_inv s" and time: "time_inv s" and work: "working_inv s"
    using assms(2) by (simp_all add: sys_inv_def)
  from assms(1) show ?thesis
  proof (cases rule: step.cases)
    case (create q d)
    have "sys_jobs s (request_id q) = None"
      using place create_row [OF create(2)] unfolding place_inv_def by blast
    then show ?thesis using work find_after_create [OF create(2)] create(1) by (auto simp: working_inv_def)
  next
    case (elsewhere d)
    then show ?thesis using work find_request_cong [OF elsewhere(2)] by (auto simp: working_inv_def)
  next
    case (reap limit out d)
    then show ?thesis using work reap_spares_working [OF assms(2,3) _ reap(2)] by (auto simp: working_inv_def)
  next
    case (claim rid st cl d)
    have st: "st \<le> db_clock (sys_db s)" using time claim(2) by (auto simp: time_inv_def)
    note after = find_after_claim [OF claim(3) ids [unfolded ids_inv_def]]
    have "\<exists>m. find_request k d = Some m \<and> row_status m = ''processing'' \<and> t \<le> row_updated_at m"
      if "sys_jobs s' k = Some (Working, t)" for k t
    proof (cases "k = rid")
      case True
      with that claim(1) have "cl" "t = st" by (auto split: if_splits)
      with after [of rid] True st show ?thesis by auto
    next
      case False
      with that claim(1) have "sys_jobs s k = Some (Working, t)" by simp
      with work after [of k] False show ?thesis by (auto simp: working_inv_def)
    qed
    then show ?thesis using claim(1) by (simp add: working_inv_def)
  next
    case (finish rid st r d)
    then show ?thesis using work find_after_update [OF finish(5)] by (auto simp: working_inv_def split: if_splits)
  next
    case (unreadable rid st m d)
    then show ?thesis using work find_after_mark_failed [OF unreadable(5)] by (auto simp: working_inv_def split: if_splits)
  next
    case (enqueue_failed rid d)
    have "sys_jobs s rid = None" using place enqueue_failed(2) unfolding place_inv_def by blast
    then show ?thesis using work find_after_mark_failed [OF enqueue_failed(3)] enqueue_failed(1)
      by (auto simp: working_inv_def split: if_splits)
  next
    case (tick t)
    then show ?thesis using work by (simp add: working_inv_def find_request_def)
  qed (use work in \<open>auto simp: working_inv_def split: if_splits\<close>)
qed

lemma sys_inv_step: "step cx s s' \<Longrightarrow> patient cx \<Longrightarrow> sys_inv s \<Longrightarrow> sys_inv s'"
  unfolding sys_inv_def [of s']
  using ids_step time_step place_step creating_step working_step unfolding sys_inv_def by blast

lemma sys_inv_init: "init_system s \<Longrightarrow> sys_inv s"
  by (simp add: init_system_def sys_inv_def inv_defs)

lemma reachable_inv: "reachable_system cx s \<Longrightarrow> patient cx \<Longrightarrow> sys_inv s"
  by (induction rule: reachable_system.induct) (auto intro: sys_inv_init sys_inv_step)

section \<open>Properties\<close>

lemma startup_patient: "validate_settings raw = Inr settings \<Longrightarrow> patient (worker_startup settings l)"
  using threshold_exceeds_job_timeout [of raw settings l] by (simp add: patient_def)


text \<open>The moves a readable request makes.\<close>

definition lifecycle_moves :: "(string \<times> string) list" where
  "lifecycle_moves = [(''pending'', ''processing''), (''pending'', ''failed''), (''processing'', ''done''),
     (''processing'', ''failed'')]"


section \<open>Every abandoned request is failed in the end\<close>

definition stale_count :: "time \<Rightarrow> db \<Rightarrow> nat" where
  "stale_count t d = length (filter (is_stale t) (db_requests d))"

definition reaper_tick :: "time \<Rightarrow> nat \<Rightarrow> db \<Rightarrow> db" where
  "reaper_tick t limit d = snd (tx_fail_stale id t limit d)"

lemma length_filter_sort_key: "length (filter P (sort_key f xs)) = length (filter P xs)"
  by (metis mset_filter mset_sort size_mset)

lemma filter_drop_distinct:
  assumes "distinct (map g xs)"
  shows "length (filter (\<lambda>x. g x \<notin> g ` set (take n xs)) xs) = length xs - n"
proof -
  have "g ` set (take n xs) \<inter> g ` set (drop n xs) = {}"
    using assms by (metis append_take_drop_id distinct_append image_set map_append)
  then have "filter (\<lambda>x. g x \<notin> g ` set (take n xs)) (drop n xs) = drop n xs"
    by (auto simp: filter_id_conv)
  moreover have "filter (\<lambda>x. g x \<notin> g ` set (take n xs)) (take n xs) = []"
    by (auto simp: filter_empty_conv)
  moreover have "filter (\<lambda>x. g x \<notin> g ` set (take n xs)) (take n xs @ drop n xs) = [] @ drop n xs"
    using calculation by (simp only: filter_append)
  ultimately show ?thesis by (simp only: append_take_drop_id) simp
qed

lemma tick_drains:
  assumes "distinct (map row_id (db_requests d))" and "db_locked d = []"
  shows "stale_count t (reaper_tick t n d) = stale_count t d - n"
    and "distinct (map row_id (db_requests (reaper_tick t n d)))" and "db_locked (reaper_tick t n d) = []"
proof -
  let ?stale = "filter (is_stale t) (db_requests d)" and ?cs = "select_stale t n d"
  let ?f = "\<lambda>m. if row_id m \<in> row_id ` set ?cs \<and> is_stale t m then reap_row (db_clock d) m else m"
  have at: "db_at_update id t n d = d" by (simp add: db_at_update_def)
  have d': "reaper_tick t n d = update_requests (\<lambda>m. row_id m \<in> row_id ` set ?cs \<and> is_stale t m) (reap_row (db_clock d)) d"
    by (simp add: reaper_tick_def fail_stale_eq at)
  have cs: "?cs = take n (sort_key row_updated_at ?stale)"
    by (simp add: select_stale_def assms(2))
  have "filter (is_stale t) (map ?f xs) = filter (\<lambda>m. is_stale t m \<and> row_id m \<notin> row_id ` set ?cs) xs" for xs
  proof (induction xs)
    case (Cons x xs)
    have "\<not> is_stale t (reap_row (db_clock d) x)" by (simp add: is_stale_def)
    then show ?case using Cons by auto
  qed simp
  then have "stale_count t (reaper_tick t n d) = length (filter (\<lambda>m. row_id m \<notin> row_id ` set ?cs) ?stale)"
    by (simp add: stale_count_def d' update_requests_def filter_filter conj_commute)
  also have "\<dots> = length (filter (\<lambda>m. row_id m \<notin> row_id ` set ?cs) (sort_key row_updated_at ?stale))"
    by (simp add: length_filter_sort_key)
  also have "\<dots> = length (sort_key row_updated_at ?stale) - n"
    unfolding cs by (rule filter_drop_distinct, rule distinct_map_sort_key, rule distinct_map_filter [OF assms(1)])
  finally show "stale_count t (reaper_tick t n d) = stale_count t d - n" by (simp add: stale_count_def)
  show "distinct (map row_id (db_requests (reaper_tick t n d)))" "db_locked (reaper_tick t n d) = []"
    using assms unfolding d' by (simp_all add: update_requests_ids)
qed


section \<open>Witnesses\<close>

definition quiet_localizer :: fluent_localizer where
  "quiet_localizer = \<lparr>fl_core_get = (\<lambda>key locale args. Inr key), fl_default_locale = ''en'', fl_supported = [''ru'', ''en'']\<rparr>"

lemma default_settings_validate: "validate_settings (default_settings ''t'') = Inr (default_settings ''t'')"
  by (simp add: validate_settings_def settings_ok_def default_settings_def blank_is_unset_def lowercase_extractor_keys_def)

definition empty_system :: system where
  "empty_system = \<lparr>sys_db = example_db\<lparr>db_requests := []\<rparr>, sys_creating = [], sys_queued = [], sys_jobs = (\<lambda>_. None)\<rparr>"

text \<open>A request is created, enqueued and started, and then claimed.\<close>

lemma example_loading:
  obtains s m where "reachable_system cx s" "sys_jobs s 20 = Some (Loading, 50)" "find_request 20 (sys_db s) = Some m"
    "is_active m" "row_readable m"
proof -
  let ?q = "create_request 20 50 1 ''https://youtu.be/x'' (VideoSpec P720)"
  let ?m = "request_row_of 50 ?q"
  let ?d = "example_db\<lparr>db_requests := [?m]\<rparr>"
  have c: "tx_create ?q (sys_db empty_system) = (Inr ?q, ?d)"
    by (simp add: tx_create_def session_scope_def sql_create_def insert_request_def io_simps empty_system_def
        request_row_of_def create_request_def request_columns_fit_def tier_kind_check_def spec_tier_value_def
        find_request_def find_user_def example_db_defs)
  let ?s1 = "empty_system\<lparr>sys_db := ?d, sys_creating := [20]\<rparr>"
  let ?s2 = "?s1\<lparr>sys_creating := [], sys_queued := [20]\<rparr>"
  let ?s3 = "?s2\<lparr>sys_queued := [], sys_jobs := (\<lambda>_. None)(20 \<mapsto> (Loading, 50))\<rparr>"
  have "reachable_system cx empty_system"
    by (rule initially) (simp add: init_system_def empty_system_def)
  then have "reachable_system cx ?s1"
    by (rule further) (use step.create [OF c] in \<open>simp add: create_request_def empty_system_def\<close>)
  then have "reachable_system cx ?s2"
    by (rule further) (use step.enqueue [of 20 ?s1 cx] in \<open>simp add: empty_system_def\<close>)
  then have "reachable_system cx ?s3"
    by (rule further) (use step.start [of 20 ?s2 cx] in \<open>simp add: empty_system_def example_db_def\<close>)
  moreover have "find_request 20 (sys_db ?s3) = Some ?m" "is_active ?m" "row_readable ?m"
    using row_of_readable [of 50 ?q]
    by (simp_all add: find_request_def request_row_of_def create_request_def is_active_cases row_readable_def)
  ultimately show thesis using that [of ?s3 ?m] by simp
qed




end
