(* ===== verification/Formatting.thy ===== *)
theory Formatting
  imports Keyboards Settings "HOL-Library.List_Lexorder" "HOL-Library.Char_ord"
begin

text \<open>
  \<open>src/presentation/telegram/formatting.py\<close>: domain objects as localized text.  \<open>i18n\<close> is the
  translation in the context's locale.
\<close>

section \<open>Definitions\<close>

definition format_help :: "i18n \<Rightarrow> settings \<Rightarrow> string" where
  "format_help i18n s =
     (let listed = join '', '' (sort (allowed_domains s));
          platforms = (if listed = [] then i18n ''help-any-site'' [] else listed)
      in i18n ''help-text''
           [(''platforms'', StrArg (html_escape platforms)), (''downloads'', IntArg (rate_limit_downloads_per_hour s)),
            (''previews'', IntArg (rate_limit_previews_per_minute s)), (''filesize'', IntArg (max_deliverable_file_size_mb s))])"

text \<open>\<open>f"{n:02d}"\<close>\<close>

definition pad2 :: "int \<Rightarrow> string" where
  "pad2 n = (let s = show_int n in replicate (2 - length s) (CHR ''0'') @ s)"

text \<open>
  yt-dlp reports a whole number of seconds or a fraction; \<open>divmod\<close> of a \<open>float\<close> is a pair of
  floats, and the format \<open>02d\<close> refuses a \<open>float\<close>.
\<close>

definition format_duration :: "i18n \<Rightarrow> number option \<Rightarrow> exn + string" where
  "format_duration i18n seconds =
     (case seconds of
        None \<Rightarrow> Inr (i18n ''preview-duration-unknown'' [])
      | Some (IntN n) \<Rightarrow>
          let m = n div 60; secs = n mod 60; hours = m div 60; minutes = m mod 60
          in Inr (if hours \<noteq> 0 then show_int hours @ '':'' @ pad2 minutes @ '':'' @ pad2 secs
                  else show_int minutes @ '':'' @ pad2 secs)
      | Some (FloatN q) \<Rightarrow> Inl (ValueError ''Unknown format code d for object of type float''))"

definition format_preview :: "i18n \<Rightarrow> media_preview \<Rightarrow> exn + string" where
  "format_preview i18n p =
     (let title = html_escape (preview_title p);
          uploader = (case preview_uploader p of
                        None \<Rightarrow> i18n ''preview-uploader-unknown'' []
                      | Some u \<Rightarrow> if u = [] then i18n ''preview-uploader-unknown'' [] else html_escape u)
      in case format_duration i18n (preview_duration p) of
           Inl e \<Rightarrow> Inl e
         | Inr duration \<Rightarrow> Inr (i18n ''preview-card''
             [(''title'', StrArg title), (''uploader'', StrArg uploader), (''duration'', StrArg duration),
              (''mediatype'', StrArg (media_type_value (preview_media_type p)))]))"

definition format_retry_after :: "i18n \<Rightarrow> int \<Rightarrow> string" where
  "format_retry_after i18n seconds =
     (if seconds < 60 then i18n ''rate-limit-seconds'' [(''seconds'', IntArg seconds)]
      else i18n ''rate-limit-minutes'' [(''minutes'', IntArg (- ((- seconds) div 60)))])"

definition format_download_error :: "i18n \<Rightarrow> exn \<Rightarrow> string" where
  "format_download_error i18n e =
     (let key = (case error_key e of Some k \<Rightarrow> k | None \<Rightarrow> ''error-extraction-failed'')
      in case e of
           FileTooLargeError estimated_mb limit_mb \<Rightarrow>
             i18n key [(''estimated_mb'', IntArg estimated_mb), (''limit_mb'', IntArg limit_mb)]
         | _ \<Rightarrow> i18n key [])"

section \<open>Facts\<close>

text \<open>Text that was escaped opens no tag, no attribute and no entity of its own.\<close>

definition html_inert :: "string \<Rightarrow> bool" where
  "html_inert s \<longleftrightarrow> CHR ''<'' \<notin> set s \<and> CHR ''>'' \<notin> set s \<and> CHR 0x22 \<notin> set s \<and> CHR 0x27 \<notin> set s"

lemma html_escape_inert [simp]: "html_inert (html_escape s)"
proof -
  have "html_inert (escape_char c)" for c
    by (auto simp: html_inert_def)
  then show ?thesis by (auto simp: html_inert_def html_escape_def)
qed

lemma retry_minutes: "60 \<le> s \<Longrightarrow> s \<le> 60 * - ((- s) div 60) \<and> 60 * - ((- s) div 60) < s + (60::int)"
  by presburger

end
