(* ===== verification/Chat.thy ===== *)
theory Chat
  imports Formatting Prelude
begin

text \<open>
  The Bot API as the bot process uses it: what was sent, edited and answered so far, and what the
  n-th call answers.  An exception of a call is Telegram's or the network's; \<open>TelegramBadRequest\<close>
  is the class the program distinguishes.
\<close>

datatype markup = NoMarkup | Inline keyboard | Reply reply_keyboard

datatype bot_action =
    SendText int string markup
  | EditText int int string markup
  | EditMarkup int int keyboard
  | AnswerCallback "string option" bool

record chat =
  chat_done :: "bot_action list"
  chat_calls :: nat
  chat_answer :: "nat \<Rightarrow> exn option"
  chat_next_message :: int

type_synonym 'a chatio = "(chat, exn, 'a) io"

definition chat_call :: "bot_action \<Rightarrow> unit chatio" where
  "chat_call a =
     bindE (askE (\<lambda>c. chat_answer c (chat_calls c))) (\<lambda>answer.
       thenE (tellE (\<lambda>c. c\<lparr>chat_calls := chat_calls c + 1\<rparr>))
         (case answer of
            Some e \<Rightarrow> raiseE e
          | None \<Rightarrow> tellE (\<lambda>c. c\<lparr>chat_done := chat_done c @ [a]\<rparr>)))"

text \<open>\<open>message.answer\<close> returns the message it sent: here its id.\<close>

definition send_message :: "int \<Rightarrow> string \<Rightarrow> markup \<Rightarrow> int chatio" where
  "send_message chat_id txt m =
     thenE (chat_call (SendText chat_id txt m))
       (bindE (askE chat_next_message) (\<lambda>i.
          thenE (tellE (\<lambda>c. c\<lparr>chat_next_message := i + 1\<rparr>)) (retE i)))"

definition is_bad_request :: "exn \<Rightarrow> bool" where
  "is_bad_request e = (case e of LibraryError cls _ \<Rightarrow> cls = ''TelegramBadRequest'' | _ \<Rightarrow> False)"

lemma chat_call_cases:
  "chat_call a c = (r, c') \<Longrightarrow>
     (r = Inr () \<and> chat_done c' = chat_done c @ [a]) \<or> (\<exists>e. r = Inl e \<and> chat_done c' = chat_done c)"
  by (auto simp: chat_call_def io_simps split: option.splits)

lemma chat_call_ok: "chat_answer c (chat_calls c) = None \<Longrightarrow>
    chat_call a c = (Inr (), c\<lparr>chat_calls := chat_calls c + 1, chat_done := chat_done c @ [a]\<rparr>)"
  by (simp add: chat_call_def io_simps)

end
