(* ===== verification/ProgressListener.thy ===== *)
theory ProgressListener
  imports Chat Delivery "HOL-Library.Sublist"
begin

text \<open>
  \<open>src/presentation/telegram/progress_listener.py\<close>: the throttler, the rendering of one progress
  event and the loop over the subscription.  Times and percentages are rationals.
\<close>

section \<open>The throttler\<close>

record throttle_state =
  last_percent :: pyval
  last_ts :: rat

record throttler =
  min_interval_seconds :: rat
  min_percent_step :: rat
  throttle_states :: "string \<Rightarrow> throttle_state option"

definition MIN_INTERVAL_SECONDS :: rat where "MIN_INTERVAL_SECONDS = 3"
definition MIN_PERCENT_STEP :: rat where "MIN_PERCENT_STEP = 5"

definition new_throttler :: throttler where
  "new_throttler = \<lparr>min_interval_seconds = MIN_INTERVAL_SECONDS, min_percent_step = MIN_PERCENT_STEP, throttle_states = (\<lambda>_. None)\<rparr>"

text \<open>\<open>percent is not None and last is not None and abs(percent - last) < step\<close>; what is no number cannot be subtracted.\<close>

definition percent_too_close :: "rat \<Rightarrow> pyval \<Rightarrow> pyval \<Rightarrow> exn + bool" where
  "percent_too_close step percent previous =
     (if percent = PNone \<or> previous = PNone then Inr False
      else (case (py_number percent, py_number previous) of
              (Some p, Some l) \<Rightarrow> Inr (\<bar>p - l\<bar> < step)
            | _ \<Rightarrow> Inl TypeError))"

definition should_emit :: "string \<Rightarrow> pyval \<Rightarrow> rat \<Rightarrow> (throttler, exn, bool) io" where
  "should_emit key percent now =
     bindE (askE id) (\<lambda>t.
       let remember = tellE (\<lambda>t. t\<lparr>throttle_states :=
             (throttle_states t)(key \<mapsto> \<lparr>last_percent = percent, last_ts = now\<rparr>)\<rparr>)
       in case throttle_states t key of
            None \<Rightarrow> thenE remember (retE True)
          | Some state \<Rightarrow>
              if now - last_ts state < min_interval_seconds t then retE False
              else bindE (liftE (percent_too_close (min_percent_step t) percent (last_percent state))) (\<lambda>close.
                     if close then retE False else thenE remember (retE True)))"

definition discard :: "string \<Rightarrow> (throttler, exn, unit) io" where
  "discard key = tellE (\<lambda>t. t\<lparr>throttle_states := (throttle_states t)(key := None)\<rparr>)"

section \<open>Rendering one event\<close>

definition CHANNEL_PATTERN :: string where "CHANNEL_PATTERN = ''umd:progress:*''"

definition ONE_SHOT_PHASES :: "string list" where
  "ONE_SHOT_PHASES = map phase_value [CONVERTING, UPLOADING, PhaseDONE, PhaseFAILED]"

definition TERMINAL_PHASES :: "string list" where
  "TERMINAL_PHASES = map phase_value [PhaseDONE, PhaseFAILED]"

definition PHASE_KEYS :: "(string \<times> string) list" where
  "PHASE_KEYS = [(''converting'', ''progress-converting''), (''uploading'', ''progress-uploading''),
                 (''done'', ''progress-done''), (''failed'', ''progress-failed'')]"

definition phase_of :: "py_dict \<Rightarrow> string" where
  "phase_of payload = (case get_key payload ''phase'' of PStr s \<Rightarrow> s | _ \<Rightarrow> phase_value DOWNLOADING)"

text \<open>
  The listener's collaborators: \<open>FluentRuntimeCore.get\<close> with an explicit locale (whatever JSON
  value the event carried), the default locale, and the unit of speed, which is \<open>MB/s\<close> except in Russian.
\<close>

type_synonym runtime_core = "string \<Rightarrow> pyval \<Rightarrow> (string \<times> i18n_arg) list \<Rightarrow> exn + string"

record listener_config =
  pl_core :: runtime_core
  pl_default_locale :: string
  pl_ru_unit :: string

definition json_number :: "pyval \<Rightarrow> exn + rat" where
  "json_number v = (case py_number v of None \<Rightarrow> Inl TypeError | Some q \<Rightarrow> Inr q)"

definition bind_sum :: "'e + 'a \<Rightarrow> ('a \<Rightarrow> 'e + 'b) \<Rightarrow> 'e + 'b" where
  "bind_sum r f = (case r of Inl e \<Rightarrow> Inl e | Inr x \<Rightarrow> f x)"

text \<open>\<open>round(x, 1)\<close>\<close>

definition round_1 :: "rat \<Rightarrow> rat" where
  "round_1 q = of_int (round_half_even (q * 10)) / 10"

definition format_text :: "listener_config \<Rightarrow> py_dict \<Rightarrow> exn + string" where
  "format_text cfg payload =
     (let locale = py_or (get_key payload ''language'') (PStr (pl_default_locale cfg))
      in case map_of PHASE_KEYS (phase_of payload) of
           Some key \<Rightarrow> pl_core cfg key locale []
         | None \<Rightarrow>
             (let percent = get_key payload ''percent''
              in if percent \<noteq> PNone then
                   bind_sum (json_number percent) (\<lambda>p.
                     pl_core cfg ''progress-downloading'' locale [(''percent'', IntArg (round_half_even p))])
                 else
                   bind_sum (json_number (py_or (get_key payload ''downloaded_bytes'') (PInt 0))) (\<lambda>bytes.
                   let speed = get_key payload ''speed'';
                       unit = (if locale = PStr ''ru'' then pl_ru_unit cfg else ''MB/s'')
                   in bind_sum (if truthy speed
                                then bind_sum (json_number speed) (\<lambda>q. Inr (fixed_1 (q / (1024 * 1024)) @ '' '' @ unit))
                                else Inr ''?'') (\<lambda>speed_str.
                        pl_core cfg ''progress-downloading-nostream'' locale
                          [(''mb'', FloatArg (round_1 (bytes / (1024 * 1024)))), (''speed'', StrArg speed_str)]))))"

section \<open>The listener\<close>

record listener =
  li_throttler :: throttler
  li_chat :: chat
  li_log :: "string list"
  li_subscribed :: bool

type_synonym 'a liio = "(listener, exn, 'a) io"

definition on_throttler :: "(throttler, exn, 'a) io \<Rightarrow> 'a liio" where
  "on_throttler m l = (case m (li_throttler l) of (r, t) \<Rightarrow> (r, l\<lparr>li_throttler := t\<rparr>))"

definition on_chat :: "'a chatio \<Rightarrow> 'a liio" where
  "on_chat m l = (case m (li_chat l) of (r, c) \<Rightarrow> (r, l\<lparr>li_chat := c\<rparr>))"

definition log_li :: "string \<Rightarrow> unit liio" where
  "log_li event = tellE (\<lambda>l. l\<lparr>li_log := li_log l @ [event]\<rparr>)"

definition NOT_MODIFIED_MARKER :: string where
  "NOT_MODIFIED_MARKER = ''message is not modified''"

definition edit_message :: "int \<Rightarrow> int \<Rightarrow> string \<Rightarrow> unit liio" where
  "edit_message chat_id message_id txt =
     try_except (on_chat (chat_call (EditText chat_id message_id txt NoMarkup)))
       (\<lambda>e. if is_bad_request e then
              Some (if sublist NOT_MODIFIED_MARKER (py_lower (exn_str e)) then retE () else log_li ''progress_edit_failed'')
            else None)"

text \<open>The coordinates of an event are what the publisher wrote: integers, or missing.\<close>

definition coordinate :: "py_dict \<Rightarrow> string \<Rightarrow> exn + int option" where
  "coordinate payload key =
     (case get_key payload key of PNone \<Rightarrow> Inr None | PInt i \<Rightarrow> Inr (Some i) | _ \<Rightarrow> Inl (LibraryError ''ValidationError'' []))"

text \<open>What the throttle says of an event: whether it is rendered.\<close>

definition passes_throttle :: "string \<Rightarrow> rat \<Rightarrow> py_dict \<Rightarrow> bool liio" where
  "passes_throttle channel_key now payload =
     (let phase = phase_of payload
      in if phase \<in> set TERMINAL_PHASES then thenE (on_throttler (discard channel_key)) (retE True)
         else if phase \<notin> set ONE_SHOT_PHASES then
           on_throttler (should_emit channel_key (get_key payload ''percent'') now)
         else retE True)"

definition render_event :: "listener_config \<Rightarrow> py_dict \<Rightarrow> unit liio" where
  "render_event cfg payload =
     bindE (liftE (coordinate payload ''chat_id'')) (\<lambda>chat_id.
     bindE (liftE (coordinate payload ''message_id'')) (\<lambda>message_id.
       case (chat_id, message_id) of
         (Some c, Some m) \<Rightarrow> bindE (liftE (format_text cfg payload)) (edit_message c m)
       | _ \<Rightarrow> log_li ''progress_listener_missing_coordinates''))"

record redis_message =
  rm_type :: string
  rm_channel :: string
  rm_data :: payload
  rm_handled_at :: rat

definition handle_message :: "listener_config \<Rightarrow> redis_message \<Rightarrow> unit liio" where
  "handle_message cfg msg =
     (case json_loads (rm_data msg) of
        Inl _ \<Rightarrow> log_li ''progress_listener_bad_payload''
      | Inr (PDict payload) \<Rightarrow>
          bindE (passes_throttle (rm_channel msg) (rm_handled_at msg) payload) (\<lambda>pass.
            if pass then render_event cfg payload else retE ())
      | Inr _ \<Rightarrow> raiseE AttributeError)"

text \<open>\<open>run\<close> over the messages that arrive: an exception ends it, and the \<open>finally\<close> unsubscribes.\<close>

definition run_listener :: "listener_config \<Rightarrow> redis_message list \<Rightarrow> unit liio" where
  "run_listener cfg messages =
     thenE (tellE (\<lambda>l. l\<lparr>li_subscribed := True\<rparr>))
       (finallyE
         (forE (\<lambda>msg. if rm_type msg \<noteq> ''pmessage'' then retE () else handle_message cfg msg) messages)
         (tellE (\<lambda>l. l\<lparr>li_subscribed := False\<rparr>)))"

section \<open>The throttle\<close>

text \<open>The updates a sequence of calls lets through, with their keys and times.\<close>

fun emitted :: "throttler \<Rightarrow> (string \<times> pyval \<times> rat) list \<Rightarrow> (string \<times> rat) list" where
  "emitted t [] = []"
| "emitted t ((key, percent, now) # calls) =
     (case should_emit key percent now t of
        (Inl e, t') \<Rightarrow> []
      | (Inr True, t') \<Rightarrow> (key, now) # emitted t' calls
      | (Inr False, t') \<Rightarrow> emitted t' calls)"

lemma should_emit_cases:
  assumes "should_emit key percent now t = (r, t')"
  shows "min_interval_seconds t' = min_interval_seconds t \<and>
     (if r = Inr True
      then throttle_states t' = (throttle_states t)(key \<mapsto> \<lparr>last_percent = percent, last_ts = now\<rparr>) \<and>
           (\<forall>s. throttle_states t key = Some s \<longrightarrow> last_ts s + min_interval_seconds t \<le> now)
      else t' = t)"
  using assms
  by (auto simp: should_emit_def io_simps Let_def split: option.splits sum.splits if_splits)

lemma emitted_spacing:
  assumes "0 \<le> min_interval_seconds t"
  shows "sorted_wrt (\<lambda>x y. fst x = fst y \<longrightarrow> snd x + min_interval_seconds t \<le> snd y) (emitted t calls) \<and>
   (\<forall>x \<in> set (emitted t calls). \<forall>s. throttle_states t (fst x) = Some s \<longrightarrow> last_ts s + min_interval_seconds t \<le> snd x)"
  using assms
proof (induction calls arbitrary: t)
  case (Cons c calls)
  obtain key percent now where c: "c = (key, percent, now)" by (cases c)
  obtain r t' where e: "should_emit key percent now t = (r, t')" by fastforce
  note step = should_emit_cases [OF e]
  show ?case
  proof (cases "r = Inr True")
    case True
    have t': "min_interval_seconds t' = min_interval_seconds t"
      "throttle_states t' = (throttle_states t)(key \<mapsto> \<lparr>last_percent = percent, last_ts = now\<rparr>)"
      using step True by auto
    have list: "emitted t (c # calls) = (key, now) # emitted t' calls" using c e True by simp
    note ih = Cons.IH [of t', unfolded t'(1), OF Cons.prems]
    have tail: "last_ts s + min_interval_seconds t \<le> snd x"
      if "x \<in> set (emitted t' calls)" "throttle_states t' (fst x) = Some s" for x s
      using ih that by blast
    have later: "now + min_interval_seconds t \<le> snd x" if "x \<in> set (emitted t' calls)" "fst x = key" for x
      using tail [OF that(1)] that(2) t'(2) by simp
    have old: "last_ts s + min_interval_seconds t \<le> now" if "throttle_states t key = Some s" for s
      using step True that by auto
    have "last_ts s + min_interval_seconds t \<le> snd x"
      if "x \<in> set (emitted t' calls)" "throttle_states t (fst x) = Some s" for x s
    proof (cases "fst x = key")
      case True
      then show ?thesis using later [OF that(1) True] old [of s] that(2) Cons.prems by simp
    next
      case False
      then show ?thesis using tail [OF that(1)] that(2) t'(2) by simp
    qed
    then show ?thesis unfolding list using ih later old by auto
  next
    case False
    then have "emitted t (c # calls) \<in> {[], emitted t calls}" using e step c by (auto split: sum.split bool.split)
    then show ?thesis using Cons.IH [OF Cons.prems] by auto
  qed
qed simp

text \<open>The edits of one card are throttled: whatever the progress events and their times, two updates
  let through for the same download are at least three seconds apart, and the first update of a
  download is never held back.\<close>

theorem updates_are_spaced:
  "sorted_wrt (\<lambda>x y. fst x = fst y \<longrightarrow> snd x + 3 \<le> snd y) (emitted new_throttler calls) \<and>
   (throttle_states t key = None \<longrightarrow> fst (should_emit key percent now t) = Inr True)"
proof -
  have "min_interval_seconds new_throttler = 3" by (simp add: new_throttler_def MIN_INTERVAL_SECONDS_def)
  then show ?thesis using emitted_spacing [of new_throttler calls]
    by (auto simp: should_emit_def io_simps)
qed

section \<open>From the worker to the card\<close>

text \<open>The text of a card, as a function of the snapshot the worker published.\<close>

definition card_text :: "listener_config \<Rightarrow> string option \<Rightarrow> download_progress \<Rightarrow> exn + string" where
  "card_text cfg language p =
     (let locale = PStr (case language of None \<Rightarrow> pl_default_locale cfg
                         | Some l \<Rightarrow> if l = [] then pl_default_locale cfg else l)
      in case progress_phase_of p of
           CONVERTING \<Rightarrow> pl_core cfg ''progress-converting'' locale []
         | UPLOADING \<Rightarrow> pl_core cfg ''progress-uploading'' locale []
         | PhaseDONE \<Rightarrow> pl_core cfg ''progress-done'' locale []
         | PhaseFAILED \<Rightarrow> pl_core cfg ''progress-failed'' locale []
         | DOWNLOADING \<Rightarrow>
             (case progress_percent p of
                Some q \<Rightarrow> pl_core cfg ''progress-downloading'' locale [(''percent'', IntArg (round_half_even q))]
              | None \<Rightarrow> pl_core cfg ''progress-downloading-nostream'' locale
                  [(''mb'', FloatArg (round_1 (of_int (progress_downloaded p) / (1024 * 1024)))),
                   (''speed'', StrArg (case progress_speed p of
                      None \<Rightarrow> ''?''
                    | Some q \<Rightarrow> if q = 0 then ''?'' else fixed_1 (q / (1024 * 1024)) @ '' '' @
                        (if locale = PStr ''ru'' then pl_ru_unit cfg else ''MB/s'')))]))"

definition payload_dict :: "int \<Rightarrow> int \<Rightarrow> string option \<Rightarrow> download_progress \<Rightarrow> py_dict" where
  "payload_dict chat_id message_id language p =
     (case progress_payload chat_id message_id language p of PDict d \<Rightarrow> d | _ \<Rightarrow> [])"

lemma payload_dict_eq: "progress_payload chat_id message_id language p = PDict (payload_dict chat_id message_id language p)"
  by (simp add: payload_dict_def progress_payload_def)

lemma payload_keys [simp]:
  "get_key (payload_dict c m lang p) ''phase'' = PStr (phase_value (progress_phase_of p))"
  "get_key (payload_dict c m lang p) ''percent'' = opt_float (progress_percent p)"
  "get_key (payload_dict c m lang p) ''downloaded_bytes'' = PInt (progress_downloaded p)"
  "get_key (payload_dict c m lang p) ''speed'' = opt_float (progress_speed p)"
  "get_key (payload_dict c m lang p) ''chat_id'' = PInt c" "get_key (payload_dict c m lang p) ''message_id'' = PInt m"
  "get_key (payload_dict c m lang p) ''language'' = opt_str lang"
  by (simp_all add: payload_dict_def progress_payload_def get_key_def)

lemma payload_serializable: "json_dumps (progress_payload c m lang p) = Inr (JsonText (PDict (payload_dict c m lang p)))"
  by (simp add: json_dumps_def payload_dict_eq [symmetric])
    (simp add: progress_payload_def opt_float_def opt_int_def opt_str_def split: option.split)

lemma phase_of_payload [simp]: "phase_of (payload_dict c m lang p) = phase_value (progress_phase_of p)"
  by (simp add: phase_of_def)

lemma format_text_payload: "format_text cfg (payload_dict c m lang p) = card_text cfg lang p"
  by (cases "progress_phase_of p"; cases "progress_percent p"; cases "progress_speed p"; cases lang)
    (simp_all add: format_text_def card_text_def Let_def PHASE_KEYS_def py_or_def opt_float_def opt_str_def
      bind_sum_def json_number_def)

lemma phase_sets [simp]:
  "phase_value ph \<in> set TERMINAL_PHASES \<longleftrightarrow> ph \<in> {PhaseDONE, PhaseFAILED}"
  "phase_value ph \<in> set ONE_SHOT_PHASES \<longleftrightarrow> ph \<noteq> DOWNLOADING"
  by (cases ph; simp add: TERMINAL_PHASES_def ONE_SHOT_PHASES_def)+

text \<open>The event that arrives for one publication.\<close>

definition event_of :: "uuid \<Rightarrow> payload \<Rightarrow> rat \<Rightarrow> redis_message" where
  "event_of rid data now = \<lparr>rm_type = ''pmessage'', rm_channel = CHANNEL_PREFIX @ show_nat rid, rm_data = data, rm_handled_at = now\<rparr>"

lemma published:
  assumes "redis_publish_progress rid c m lang p ps = (Inr (), ps')"
  shows "pub_messages ps' = pub_messages ps @ [(CHANNEL_PREFIX @ show_nat rid, JsonText (PDict (payload_dict c m lang p)))]"
  using assms by (auto simp: redis_publish_progress_def payload_serializable redis_publish_def io_simps split: option.splits)

lemma passes_payload:
  assumes "progress_phase_of p \<noteq> DOWNLOADING \<or> throttle_states (li_throttler l) key = None"
  obtains t where "passes_throttle key now (payload_dict c m lang p) l = (Inr True, l\<lparr>li_throttler := t\<rparr>)"
    "progress_phase_of p \<in> {PhaseDONE, PhaseFAILED} \<Longrightarrow> throttle_states t key = None"
proof (cases "progress_phase_of p \<in> {PhaseDONE, PhaseFAILED}")
  case True
  then show ?thesis
    using that [of "(li_throttler l)\<lparr>throttle_states := (throttle_states (li_throttler l))(key := None)\<rparr>"]
    by (simp add: passes_throttle_def Let_def thenE_def bindE_def on_throttler_def discard_def tellE_def retE_def)
next
  case False
  show ?thesis
  proof (cases "progress_phase_of p = DOWNLOADING")
    case True
    then obtain t where "should_emit key (opt_float (progress_percent p)) now (li_throttler l) = (Inr True, t)"
      using assms by (simp add: should_emit_def io_simps)
    then show ?thesis using that [of t] False True
      by (simp add: passes_throttle_def on_throttler_def TERMINAL_PHASES_def ONE_SHOT_PHASES_def)
  next
    case other: False
    then show ?thesis using that [of "li_throttler l"] False
      by (simp add: passes_throttle_def retE_def)
  qed
qed

text \<open>C22: what the worker publishes, the bot renders: the event of a snapshot edits exactly the card whose
  coordinates rode in it, with the text for that snapshot in the user's language; a phase marker
  always gets through the throttle, and a terminal one ends the throttle's memory of the download.\<close>

theorem published_progress_reaches_its_card:
  assumes "redis_publish_progress rid c m lang p ps = (Inr (), ps')"
    and "progress_phase_of p \<noteq> DOWNLOADING \<or> throttle_states (li_throttler l) (CHANNEL_PREFIX @ show_nat rid) = None"
    and "card_text cfg lang p = Inr txt" and "chat_answer (li_chat l) (chat_calls (li_chat l)) = None"
  shows "\<exists>data l'. pub_messages ps' = pub_messages ps @ [(CHANNEL_PREFIX @ show_nat rid, data)] \<and>
    handle_message cfg (event_of rid data now) l = (Inr (), l') \<and>
    chat_done (li_chat l') = chat_done (li_chat l) @ [EditText c m txt NoMarkup] \<and>
    (progress_phase_of p \<in> {PhaseDONE, PhaseFAILED} \<longrightarrow>
       throttle_states (li_throttler l') (CHANNEL_PREFIX @ show_nat rid) = None)"
proof -
  let ?key = "CHANNEL_PREFIX @ show_nat rid" and ?d = "payload_dict c m lang p"
  obtain t where t: "passes_throttle ?key now ?d l = (Inr True, l\<lparr>li_throttler := t\<rparr>)"
    "progress_phase_of p \<in> {PhaseDONE, PhaseFAILED} \<Longrightarrow> throttle_states t ?key = None"
    using passes_payload [OF assms(2)] by blast
  have "handle_message cfg (event_of rid (JsonText (PDict ?d)) now) l =
      edit_message c m txt (l\<lparr>li_throttler := t\<rparr>)"
    using t(1) assms(3)
    by (simp add: handle_message_def event_of_def json_loads_def bindE_def render_event_def coordinate_def liftE_def
        format_text_payload)
  moreover have "edit_message c m txt (l\<lparr>li_throttler := t\<rparr>) =
      (Inr (), l\<lparr>li_throttler := t, li_chat := (li_chat l)\<lparr>chat_calls := chat_calls (li_chat l) + 1,
         chat_done := chat_done (li_chat l) @ [EditText c m txt NoMarkup]\<rparr>\<rparr>)"
    using assms(4) by (simp add: edit_message_def try_except_def on_chat_def chat_call_ok)
  ultimately show ?thesis using published [OF assms(1)] t(2) by auto
qed

text \<open>The listener does not survive an error of the network: when an edit fails with anything but a bad
  request, the loop ends there, and no later event of any download is rendered.\<close>

theorem listener_ends_at_first_failure:
  assumes "rm_type msg = ''pmessage''" and "rm_data msg = JsonText (PDict d)"
    and "passes_throttle (rm_channel msg) (rm_handled_at msg) d (l\<lparr>li_subscribed := True\<rparr>) = (Inr True, l1)"
    and "get_key d ''chat_id'' = PInt c" and "get_key d ''message_id'' = PInt m" and "format_text cfg d = Inr txt"
    and "chat_answer (li_chat l1) (chat_calls (li_chat l1)) = Some e" and "\<not> is_bad_request e"
  shows "\<exists>l'. chat_done (li_chat l') = chat_done (li_chat l1) \<and> \<not> li_subscribed l' \<and>
    (\<forall>later. run_listener cfg (msg # later) l = (Inl e, l'))"
proof -
  let ?l2 = "l1\<lparr>li_chat := (li_chat l1)\<lparr>chat_calls := chat_calls (li_chat l1) + 1\<rparr>\<rparr>"
  have edit: "edit_message c m txt l1 = (Inl e, ?l2)"
    using assms(7,8) by (simp add: edit_message_def try_except_def on_chat_def chat_call_def io_simps)
  have "handle_message cfg msg (l\<lparr>li_subscribed := True\<rparr>) = (Inl e, ?l2)"
    using assms(2-6) edit by (simp add: handle_message_def json_loads_def bindE_def render_event_def coordinate_def liftE_def)
  then have "run_listener cfg (msg # later) l = (Inl e, ?l2\<lparr>li_subscribed := False\<rparr>)" for later
    using assms(1) by (simp add: run_listener_def thenE_def bindE_def tellE_def finallyE_def)
  then show ?thesis by (intro exI [of _ "?l2\<lparr>li_subscribed := False\<rparr>"]) simp
qed

section \<open>Witnesses\<close>

definition example_listener_config :: listener_config where
  "example_listener_config = \<lparr>pl_core = (\<lambda>key locale args. Inr key), pl_default_locale = ''en'', pl_ru_unit = ''MB/s''\<rparr>"

definition example_listener :: "exn option \<Rightarrow> listener" where
  "example_listener failure = \<lparr>li_throttler = new_throttler,
     li_chat = \<lparr>chat_done = [], chat_calls = 0, chat_answer = (\<lambda>_. failure), chat_next_message = 1\<rparr>, li_log = [], li_subscribed = False\<rparr>"

definition example_progress :: download_progress where
  "example_progress = \<lparr>progress_percent = Some 50, progress_downloaded = 5, progress_total = Some 10, progress_speed = None,
     progress_eta = None, progress_phase_of = DOWNLOADING\<rparr>"

theorem updates_are_spaced_witness:
  "emitted new_throttler [(''a'', PFloat 1, 0), (''a'', PFloat 20, 2), (''a'', PFloat 40, 4), (''b'', PFloat 1, 4)] =
     [(''a'', 0), (''a'', 4), (''b'', 4)] \<and>
   sorted_wrt (\<lambda>x y. fst x = fst y \<longrightarrow> snd x + 3 \<le> snd y) [(''a'', 0 :: rat), (''a'', 4), (''b'', 4)]"
proof -
  have e: "emitted new_throttler [(''a'', PFloat 1, 0), (''a'', PFloat 20, 2), (''a'', PFloat 40, 4), (''b'', PFloat 1, 4)] =
     [(''a'', 0), (''a'', 4), (''b'', 4)]"
    by (simp add: should_emit_def io_simps new_throttler_def MIN_INTERVAL_SECONDS_def MIN_PERCENT_STEP_def percent_too_close_def)
  then show ?thesis
    using updates_are_spaced [of "[(''a'', PFloat 1, 0), (''a'', PFloat 20, 2), (''a'', PFloat 40, 4), (''b'', PFloat 1, 4)]"] by metis
qed

lemma example_card: "card_text example_listener_config (Some ''ru'') example_progress = Inr ''progress-downloading''"
  by (simp add: card_text_def example_progress_def example_listener_config_def)

theorem published_progress_reaches_its_card_witness:
  "\<exists>data l'. handle_message example_listener_config (event_of 11 data 0) (example_listener None) = (Inr (), l') \<and>
     chat_done (li_chat l') = [EditText 5 6 ''progress-downloading'' NoMarkup]"
proof -
  let ?ps = "\<lparr>pub_messages = [], pub_commands = 0, pub_answer = (\<lambda>_. None)\<rparr>"
  obtain ps' where ps: "redis_publish_progress 11 5 6 (Some ''ru'') example_progress ?ps = (Inr (), ps')"
    by (simp add: redis_publish_progress_def payload_serializable redis_publish_def io_simps)
  show ?thesis
    using published_progress_reaches_its_card [OF ps _ example_card, of "example_listener None" 0]
    by (auto simp: example_listener_def new_throttler_def)
qed

theorem listener_ends_at_first_failure_witness:
  "\<exists>l'. \<not> li_subscribed l' \<and> (\<forall>later. run_listener example_listener_config
       (event_of 11 (JsonText (PDict (payload_dict 5 6 None (phase_marker UPLOADING)))) 0 # later)
       (example_listener (Some (LibraryError ''TelegramNetworkError'' []))) = (Inl (LibraryError ''TelegramNetworkError'' []), l'))"
proof -
  let ?d = "payload_dict 5 6 None (phase_marker UPLOADING)" and ?l = "example_listener (Some (LibraryError ''TelegramNetworkError'' []))"
  have pass: "passes_throttle ch now ?d (?l\<lparr>li_subscribed := True\<rparr>) = (Inr True, ?l\<lparr>li_subscribed := True\<rparr>)" for ch now
    by (simp add: passes_throttle_def phase_marker_def retE_def TERMINAL_PHASES_def ONE_SHOT_PHASES_def)
  have rendered: "format_text example_listener_config ?d = Inr ''progress-uploading''"
    by (simp add: format_text_payload card_text_def phase_marker_def example_listener_config_def)
  show ?thesis
    using listener_ends_at_first_failure [where msg = "event_of 11 (JsonText (PDict ?d)) 0" and l = ?l and c = 5 and m = 6,
        OF _ _ pass _ _ rendered]
    by (auto simp: event_of_def example_listener_def is_bad_request_def)
qed

end
