(* ===== verification/I18n.thy ===== *)
theory I18n
  imports Keyboards Prelude
begin

text \<open>
  \<open>src/presentation/telegram/i18n.py\<close>: the choice of a locale per update, the override kept in Redis, and
  the labels of the routing buttons in every locale.  The Fluent core is a parameter: the text of a key
  in a locale, for the keys the program uses (the FTL files define them all; a missing one raises).
\<close>

section \<open>Definitions\<close>

definition SUPPORTED_LOCALES :: "string list" where
  "SUPPORTED_LOCALES = [''ru'', ''en'']"

definition DEFAULT_LOCALE :: string where
  "DEFAULT_LOCALE = ''en''"

definition LOCALE_CACHE_PREFIX :: string where
  "LOCALE_CACHE_PREFIX = ''umd:locale:''"

definition BUTTON_KEYS :: "string list" where
  "BUTTON_KEYS = [''btn-download'', ''btn-help'']"

record tg_user =
  tg_id :: int
  tg_language_code :: "string option"

text \<open>\<open>UserLocaleManager\<close>: whether it was given a Redis client, and its default.\<close>

record locale_manager =
  lm_redis :: bool
  lm_default_locale :: "string option"

text \<open>Redis as the manager uses it; a client that cannot reach it raises.\<close>

record locale_cache =
  lc_values :: "string \<Rightarrow> string option"
  lc_down :: "exn option"

type_synonym 'a lcio = "(locale_cache, exn, 'a) io"

definition normalize_locale :: "string option \<Rightarrow> string option" where
  "normalize_locale raw =
     (case raw of
        None \<Rightarrow> None
      | Some t \<Rightarrow>
          if t = [] then None
          else let primary = py_lower (fst (partition_at (CHR ''-'') t))
               in if primary \<in> set SUPPORTED_LOCALES then Some primary else None)"

definition locale_key :: "tg_user \<Rightarrow> string" where
  "locale_key u = LOCALE_CACHE_PREFIX @ show_int (tg_id u)"

definition lc_reach :: "unit lcio" where
  "lc_reach = bindE (askE lc_down) (\<lambda>down. case down of Some e \<Rightarrow> raiseE e | None \<Rightarrow> retE ())"

definition lc_get :: "string \<Rightarrow> string option lcio" where
  "lc_get k = thenE lc_reach (askE (\<lambda>s. lc_values s k))"

definition lc_set :: "string \<Rightarrow> string \<Rightarrow> unit lcio" where
  "lc_set k v = thenE lc_reach (tellE (\<lambda>s. s\<lparr>lc_values := (lc_values s)(k \<mapsto> v)\<rparr>))"

text \<open>Steps 2 and 3 of \<open>get_locale\<close>: what Telegram reports, then the default.\<close>

definition reported_locale :: "locale_manager \<Rightarrow> tg_user option \<Rightarrow> string" where
  "reported_locale m event_from_user =
     (case Option.bind event_from_user (\<lambda>u. normalize_locale (tg_language_code u)) of
        Some l \<Rightarrow> l
      | None \<Rightarrow> (case lm_default_locale m of
                   Some l \<Rightarrow> if l = [] then DEFAULT_LOCALE else l
                 | None \<Rightarrow> DEFAULT_LOCALE))"

definition get_locale :: "locale_manager \<Rightarrow> tg_user option \<Rightarrow> string lcio" where
  "get_locale m event_from_user =
     (case event_from_user of
        Some u \<Rightarrow>
          if lm_redis m then
            bindE (lc_get (locale_key u)) (\<lambda>cached.
              retE (case normalize_locale cached of Some l \<Rightarrow> l | None \<Rightarrow> reported_locale m event_from_user))
          else retE (reported_locale m event_from_user)
      | None \<Rightarrow> retE (reported_locale m event_from_user))"

definition set_locale :: "locale_manager \<Rightarrow> string \<Rightarrow> tg_user option \<Rightarrow> unit lcio" where
  "set_locale m locale event_from_user =
     (case event_from_user of
        None \<Rightarrow> retE ()
      | Some u \<Rightarrow> if \<not> lm_redis m then retE () else lc_set (locale_key u) locale)"

definition create_i18n_manager :: "bool \<Rightarrow> locale_manager" where
  "create_i18n_manager redis = \<lparr>lm_redis = redis, lm_default_locale = Some DEFAULT_LOCALE\<rparr>"

definition collect_button_translations :: "(string \<Rightarrow> i18n) \<Rightarrow> (string \<times> string list) list" where
  "collect_button_translations core =
     map (\<lambda>key. (key, remdups (map (\<lambda>locale. core locale key []) SUPPORTED_LOCALES))) BUTTON_KEYS"

text \<open>The filter of the routing buttons (\<open>_button_matcher\<close> in \<open>handlers/download_flow.py\<close>).\<close>

definition button_matches :: "string \<Rightarrow> (string \<times> string list) list \<Rightarrow> string option \<Rightarrow> bool" where
  "button_matches button_key button_translations txt =
     (let texts = (case map_of button_translations button_key of Some ts \<Rightarrow> ts | None \<Rightarrow> [])
      in case txt of None \<Rightarrow> False | Some t \<Rightarrow> t \<in> set texts)"

lemmas i18n_defs = SUPPORTED_LOCALES_def DEFAULT_LOCALE_def BUTTON_KEYS_def

section \<open>Facts\<close>

lemma normalize_supported: "normalize_locale raw = Some l \<Longrightarrow> l \<in> set SUPPORTED_LOCALES"
  by (auto simp: normalize_locale_def Let_def split: option.splits if_splits)

lemma normalize_id: "l \<in> set SUPPORTED_LOCALES \<Longrightarrow> normalize_locale (Some l) = Some l"
proof -
  have "normalize_locale (Some ''ru'') = Some ''ru''" "normalize_locale (Some ''en'') = Some ''en''"
    by code_simp+
  then show "l \<in> set SUPPORTED_LOCALES \<Longrightarrow> normalize_locale (Some l) = Some l"
    by (auto simp: SUPPORTED_LOCALES_def)
qed

lemma reported_supported: "reported_locale (create_i18n_manager r) u \<in> set SUPPORTED_LOCALES"
proof -
  have "DEFAULT_LOCALE \<in> set SUPPORTED_LOCALES" "DEFAULT_LOCALE \<noteq> []" by (simp_all add: i18n_defs)
  then show ?thesis
    by (auto simp: reported_locale_def create_i18n_manager_def bind_eq_Some_conv split: option.split dest: normalize_supported)
qed

text \<open>With Redis at hand the locale of a user is the stored one when there is one, else the reported one.\<close>

definition locale_of :: "locale_manager \<Rightarrow> locale_cache \<Rightarrow> tg_user \<Rightarrow> string" where
  "locale_of m c u =
     (case normalize_locale (if lm_redis m then lc_values c (locale_key u) else None) of
        Some l \<Rightarrow> l | None \<Rightarrow> reported_locale m (Some u))"

lemma get_locale_eq:
  "get_locale m (Some u) c =
     (case (lm_redis m, lc_down c) of (True, Some e) \<Rightarrow> (Inl e, c) | _ \<Rightarrow> (Inr (locale_of m c u), c))"
  by (auto simp: get_locale_def locale_of_def lc_get_def lc_reach_def io_simps normalize_locale_def split: option.split)

lemma set_locale_eq:
  "lm_redis m \<Longrightarrow> lc_down c = None \<Longrightarrow>
     set_locale m l (Some u) c = (Inr (), c\<lparr>lc_values := (lc_values c)(locale_key u \<mapsto> l)\<rparr>)"
  by (simp add: set_locale_def lc_set_def lc_reach_def io_simps)

lemma get_locale_same: "snd (get_locale m u c) = c"
  by (cases u) (auto simp: get_locale_def lc_get_def lc_reach_def io_simps split: option.split)

text \<open>Decimal numerals are distinct.\<close>

lemma digit_char_inj: "a < 10 \<Longrightarrow> b < 10 \<Longrightarrow> digit_char a = digit_char b \<longleftrightarrow> a = b"
  by (auto simp: digit_char_def dest: arg_cong [where f = "of_char :: char \<Rightarrow> nat"])

lemma length_show_nat: "0 < length (show_nat n)"
  by (subst show_nat.simps) simp

lemma show_nat_inj: "show_nat a = show_nat b \<longleftrightarrow> a = b"
proof (induction a arbitrary: b rule: less_induct)
  case (less a)
  show ?case
  proof (cases "a < 10 \<or> b < 10")
    case True
    then show ?thesis
      using length_show_nat [of "a div 10"] length_show_nat [of "b div 10"]
      by (subst (1 2) show_nat.simps) (auto simp: digit_char_inj)
  next
    case False
    then have "show_nat (a div 10) = show_nat (b div 10) \<longleftrightarrow> a div 10 = b div 10" by (intro less.IH) simp
    then show ?thesis
      using False by (subst (1 2) show_nat.simps) (auto simp: digit_char_inj, metis div_mult_mod_eq)
  qed
qed

lemma digit_char_not_minus: "a < 10 \<Longrightarrow> digit_char a \<noteq> CHR ''-''"
  by (auto simp: digit_char_def dest: arg_cong [where f = "of_char :: char \<Rightarrow> nat"])

lemma hd_show_nat: "hd (show_nat n) \<noteq> CHR ''-''"
proof (induction n rule: less_induct)
  case (less n)
  show ?case
  proof (cases "n < 10")
    case True
    then show ?thesis by (subst show_nat.simps) (simp add: digit_char_not_minus)
  next
    case False
    then show ?thesis using less [of "n div 10"] length_show_nat [of "n div 10"]
      by (subst show_nat.simps) (simp add: hd_append)
  qed
qed

lemma show_int_inj: "show_int a = show_int b \<longleftrightarrow> a = b"
proof -
  have "show_nat n \<noteq> CHR ''-'' # xs" for n xs using hd_show_nat [of n] by auto
  then show ?thesis by (auto simp: show_int_def show_nat_inj) (metis)+
qed

lemma locale_key_inj: "locale_key u = locale_key v \<longleftrightarrow> tg_id u = tg_id v"
  by (simp add: locale_key_def show_int_inj)

section \<open>Properties\<close>

text \<open>A language chosen sticks: from the next update on the user is served in it, whatever language
  Telegram reports, and no other user's locale changes; every update is served in a supported locale.\<close>

theorem chosen_locale_sticks:
  assumes "chosen \<in> set SUPPORTED_LOCALES" and "lc_down c = None"
    and "set_locale (create_i18n_manager True) chosen (Some u) c = (Inr (), c')"
  shows "fst (get_locale (create_i18n_manager True) (Some (u\<lparr>tg_language_code := reported\<rparr>)) c') = Inr chosen \<and>
    (tg_id v \<noteq> tg_id u \<longrightarrow>
       get_locale (create_i18n_manager True) (Some v) c' = (fst (get_locale (create_i18n_manager True) (Some v) c), c')) \<and>
    (\<exists>l \<in> set SUPPORTED_LOCALES. fst (get_locale (create_i18n_manager True) (Some v) c') = Inr l)"
proof -
  let ?m = "create_i18n_manager True"
  have c': "c' = c\<lparr>lc_values := (lc_values c)(locale_key u \<mapsto> chosen)\<rparr>"
    using assms(2,3) set_locale_eq [of ?m c chosen u] by (simp add: create_i18n_manager_def)
  have key: "locale_key (u\<lparr>tg_language_code := reported\<rparr>) = locale_key u" by (simp add: locale_key_def)
  have get: "get_locale ?m (Some w) d = (Inr (locale_of ?m d w), d)" if "lc_down d = None" for w d
    using that by (simp add: get_locale_eq split: option.split bool.split)
  have redis: "lm_redis ?m" by (simp add: create_i18n_manager_def)
  have "locale_of ?m c' (u\<lparr>tg_language_code := reported\<rparr>) = chosen"
    using normalize_id [OF assms(1)] redis by (simp add: locale_of_def c' key)
  moreover have "locale_of ?m c' v = locale_of ?m c v" if "tg_id v \<noteq> tg_id u"
    using that by (simp add: locale_of_def c' locale_key_inj)
  moreover have "locale_of ?m c' v \<in> set SUPPORTED_LOCALES"
    using reported_supported [of True "Some v"] by (auto simp: locale_of_def dest: normalize_supported split: option.split)
  ultimately show ?thesis using get [of c] get [of c'] assms(2) by (simp add: c')
qed

theorem chosen_locale_sticks_witness:
  "fst (get_locale (create_i18n_manager True) (Some \<lparr>tg_id = 7, tg_language_code = Some ''de''\<rparr>)
     (snd (set_locale (create_i18n_manager True) ''ru'' (Some \<lparr>tg_id = 7, tg_language_code = Some ''en-US''\<rparr>)
        \<lparr>lc_values = (\<lambda>_. None), lc_down = None\<rparr>))) = Inr ''ru''"
proof -
  let ?u = "\<lparr>tg_id = 7, tg_language_code = Some ''en-US''\<rparr>" and ?c = "\<lparr>lc_values = (\<lambda>_. None), lc_down = None\<rparr>"
  have "set_locale (create_i18n_manager True) ''ru'' (Some ?u) ?c =
      (Inr (), snd (set_locale (create_i18n_manager True) ''ru'' (Some ?u) ?c))"
    by (simp add: set_locale_eq create_i18n_manager_def)
  from chosen_locale_sticks [OF _ _ this, where reported = "Some ''de''" and v = ?u]
  show ?thesis by (simp add: SUPPORTED_LOCALES_def)
qed

text \<open>
  A tap on the main menu is recognized in whatever locale the keyboard was rendered, the context's
  or one given explicitly: its first label by the download button's filter, its second by the help button's.
\<close>

lemma menu_labels:
  assumes "(case locale of None \<Rightarrow> ctx_locale c | Some l \<Rightarrow> l) \<in> set SUPPORTED_LOCALES"
  shows "\<exists>download help. reply_rows (main_menu_keyboard c locale) = [[download, help]] \<and>
    button_matches BTN_KEY_DOWNLOAD (collect_button_translations (ctx_core c)) (Some download) \<and>
    button_matches BTN_KEY_HELP (collect_button_translations (ctx_core c)) (Some help)"
  using assms
  by (auto simp: main_menu_keyboard_def button_matches_def collect_button_translations_def i18n_defs
      BTN_KEY_DOWNLOAD_def BTN_KEY_HELP_def Let_def split: option.splits)

end
