(* ===== verification/Health.thy ===== *)
theory Health
  imports Domain Prelude
begin

text \<open>
  \<open>src/infrastructure/health.py\<close>: the probes of PostgreSQL and Redis.  What connecting, querying and
  closing do is what the two drivers answer: nothing, or an exception.
\<close>

section \<open>Definitions\<close>

record probe =
  pr_connect :: "exn option"
  pr_query :: "exn option"
  pr_close :: "exn option"

text \<open>\<open>except Exception as exc: return False, str(exc)\<close>\<close>

definition probe_outcome :: "exn option \<Rightarrow> exn + (bool \<times> string option)" where
  "probe_outcome failure =
     (case failure of
        None \<Rightarrow> Inr (True, None)
      | Some e \<Rightarrow> if is_exception e then Inr (False, Some (exn_str e)) else Inl e)"

text \<open>The connection is closed in a \<open>finally\<close> inside the \<open>try\<close>.\<close>

definition check_postgres :: "probe \<Rightarrow> exn + (bool \<times> string option)" where
  "check_postgres p =
     probe_outcome (case pr_connect p of
         Some e \<Rightarrow> Some e
       | None \<Rightarrow> (case pr_close p of Some e \<Rightarrow> Some e | None \<Rightarrow> pr_query p))"

text \<open>The client is closed in the \<open>finally\<close> of the \<open>try\<close> itself, after the handler.\<close>

definition check_redis :: "probe \<Rightarrow> exn + (bool \<times> string option)" where
  "check_redis p =
     (case pr_connect p of
        Some e \<Rightarrow> probe_outcome (Some e)
      | None \<Rightarrow> (case pr_close p of Some e \<Rightarrow> Inl e | None \<Rightarrow> probe_outcome (pr_query p)))"

text \<open>\<open>ConnectivityHealthCheck.check\<close>: the report and the diagnostics it logs.\<close>

definition health_check :: "probe \<Rightarrow> probe \<Rightarrow> exn + (health_report \<times> (string \<times> string) list)" where
  "health_check postgres redis =
     (case check_postgres postgres of
        Inl e \<Rightarrow> Inl e
      | Inr (db_ok, db_error) \<Rightarrow>
          (case check_redis redis of
             Inl e \<Rightarrow> Inl e
           | Inr (redis_ok, redis_error) \<Rightarrow>
               Inr (\<lparr>database_ok = db_ok, cache_ok = redis_ok\<rparr>,
                    (case db_error of None \<Rightarrow> [] | Some t \<Rightarrow> [(''postgres'', t)]) @
                    (case redis_error of None \<Rightarrow> [] | Some t \<Rightarrow> [(''redis'', t)]))))"

section \<open>Facts\<close>

text \<open>
  The report is green exactly when every step of both probes worked; a probe of PostgreSQL raises no
  ordinary exception, one of Redis does when closing the client fails.
\<close>

lemma health_report_sound:
  "health_check pg rd = Inr (report, diagnostics) \<Longrightarrow>
     (all_ok report \<longleftrightarrow> pr_connect pg = None \<and> pr_query pg = None \<and> pr_close pg = None \<and>
                       pr_connect rd = None \<and> pr_query rd = None \<and> pr_close rd = None) \<and>
     (diagnostics = [] \<longleftrightarrow> all_ok report)"
  by (auto simp: health_check_def check_postgres_def check_redis_def probe_outcome_def all_ok_def
      split: sum.splits option.splits if_splits prod.splits)

lemma check_postgres_raises: "check_postgres p = Inl e \<Longrightarrow> \<not> is_exception e"
  by (auto simp: check_postgres_def probe_outcome_def split: option.splits if_splits)

lemma check_redis_may_raise:
  "pr_connect p = None \<Longrightarrow> pr_close p = Some e \<Longrightarrow> check_redis p = Inl e"
  by (simp add: check_redis_def)

end
