(* ===== verification/Bot.thy ===== *)
theory Bot
  imports Chat I18n Health UseCases Settings PreviewStore RateLimiter Reaper
begin

text \<open>
  The bot process: its state (the world it shares with the worker, the chats, the preview store, the rate
  limiter, the locale cache, the FSM states and the strings in Redis) and the handlers of
  \<open>src/presentation/telegram/handlers\<close> as operations on it, with the dispatch over them in the router
  order of \<open>src/presentation/telegram/bot.py\<close> and the wiring of \<open>src/main.py\<close>.

  An update is handled as one step; the preview store's \<open>pop\<close> and the repositories'
  transactions are atomic there as they are in Redis and PostgreSQL.
\<close>

section \<open>State\<close>

record bot =
  b_world :: world
  b_chat :: chat
  b_store :: pstore
  b_limiter :: limiter
  b_locales :: locale_cache
  b_strings :: redis_strings
  b_fsm :: "int \<times> int \<Rightarrow> string option"
  b_postgres :: probe
  b_redis :: probe
  b_log :: "string list"

type_synonym 'a bio = "(bot, exn, 'a) io"

text \<open>
  What handlers get injected.  \<open>be_command\<close> is aiogram's parser of commands: the name a text starts
  with, after the slash.  Of \<open>be_ctx\<close> the bot reads the preview timeout only.
\<close>

record bot_env =
  be_settings :: settings
  be_policy :: format_policy
  be_machine :: machine
  be_ctx :: worker_ctx
  be_core :: "string \<Rightarrow> i18n"
  be_buttons :: "(string \<times> string list) list"
  be_manager :: locale_manager
  be_command :: "string \<Rightarrow> string option"

definition in_world :: "(world, exn, 'a) io \<Rightarrow> 'a bio" where
  "in_world m = zoom b_world (\<lambda>x b. b\<lparr>b_world := x\<rparr>) m"

definition in_chat :: "'a chatio \<Rightarrow> 'a bio" where
  "in_chat m = zoom b_chat (\<lambda>x b. b\<lparr>b_chat := x\<rparr>) m"

definition in_store :: "'a psio \<Rightarrow> 'a bio" where
  "in_store m = zoom b_store (\<lambda>x b. b\<lparr>b_store := x\<rparr>) m"

definition in_limiter :: "'a limio \<Rightarrow> 'a bio" where
  "in_limiter m = zoom b_limiter (\<lambda>x b. b\<lparr>b_limiter := x\<rparr>) m"

definition in_locales :: "'a lcio \<Rightarrow> 'a bio" where
  "in_locales m = zoom b_locales (\<lambda>x b. b\<lparr>b_locales := x\<rparr>) m"

definition in_strings :: "(redis_strings, exn, 'a) io \<Rightarrow> 'a bio" where
  "in_strings m = zoom b_strings (\<lambda>x b. b\<lparr>b_strings := x\<rparr>) m"

lemmas in_defs = in_world_def in_chat_def in_store_def in_limiter_def in_locales_def in_strings_def

definition log_bot :: "string \<Rightarrow> unit bio" where
  "log_bot event = tellE (\<lambda>b. b\<lparr>b_log := b_log b @ [event]\<rparr>)"

text \<open>A statement under \<open>try\<close>: its outcome, for the \<open>except\<close> clauses after it to look at.\<close>

definition attempt :: "('w, 'e, 'a) io \<Rightarrow> ('w, 'e, 'e + 'a) io" where
  "attempt m w = (case m w of (r, w') \<Rightarrow> (Inr r, w'))"

section \<open>Updates\<close>

text \<open>
  A callback's message is missing when Telegram sends none or only an inaccessible one; \<open>cb_chat_id\<close> is the
  chat the FSM state is kept for.
\<close>

record tg_message =
  msg_chat_id :: int
  msg_id :: int
  msg_text :: "string option"
  msg_caption :: "string option"
  msg_from :: "tg_user option"

record tg_callback =
  cb_from :: tg_user
  cb_data :: "string option"
  cb_message :: "tg_message option"
  cb_chat_id :: int

datatype update = MessageUpdate tg_message | CallbackUpdate tg_callback

definition reply :: "tg_message \<Rightarrow> string \<Rightarrow> markup \<Rightarrow> int bio" where
  "reply msg txt m = in_chat (send_message (msg_chat_id msg) txt m)"

definition respond :: "tg_message \<Rightarrow> string \<Rightarrow> markup \<Rightarrow> unit bio" where
  "respond msg txt m = bindE (reply msg txt m) (\<lambda>_. retE ())"

definition answer_callback :: "string option \<Rightarrow> bool \<Rightarrow> unit bio" where
  "answer_callback txt alert = in_chat (chat_call (AnswerCallback txt alert))"

definition edit_text :: "int \<Rightarrow> int \<Rightarrow> string \<Rightarrow> markup \<Rightarrow> unit bio" where
  "edit_text chat_id message_id txt m = in_chat (chat_call (EditText chat_id message_id txt m))"

definition edit_reply_markup :: "tg_message \<Rightarrow> keyboard \<Rightarrow> unit bio" where
  "edit_reply_markup msg k = in_chat (chat_call (EditMarkup (msg_chat_id msg) (msg_id msg) k))"

definition tr :: "i18n_context \<Rightarrow> i18n" where
  "tr c = ctx_core c (ctx_locale c)"

text \<open>\<open>if isinstance(callback.message, Message): ...\<close>\<close>

definition on_card :: "tg_callback \<Rightarrow> (tg_message \<Rightarrow> unit bio) \<Rightarrow> unit bio" where
  "on_card cb f = (case cb_message cb of Some msg \<Rightarrow> f msg | None \<Rightarrow> retE ())"

section \<open>The FSM\<close>

definition WAITING_FOR_URL :: string where
  "WAITING_FOR_URL = ''DownloadFlow:waiting_for_url''"

text \<open>A handler that asks for \<open>state\<close> cannot be called when the message has no sender.\<close>

definition set_state :: "(int \<times> int) option \<Rightarrow> string option \<Rightarrow> unit bio" where
  "set_state key state =
     (case key of
        None \<Rightarrow> raiseE TypeError
      | Some k \<Rightarrow> tellE (\<lambda>b. b\<lparr>b_fsm := (b_fsm b)(k := state)\<rparr>))"

definition message_fsm_key :: "tg_message \<Rightarrow> (int \<times> int) option" where
  "message_fsm_key msg = map_option (\<lambda>u. (msg_chat_id msg, tg_id u)) (msg_from msg)"

definition callback_fsm_key :: "tg_callback \<Rightarrow> (int \<times> int) option" where
  "callback_fsm_key cb = Some (cb_chat_id cb, tg_id (cb_from cb))"

definition fsm_state :: "(int \<times> int) option \<Rightarrow> bot \<Rightarrow> string option" where
  "fsm_state key b = Option.bind key (b_fsm b)"

section \<open>handlers/admin.py\<close>

definition ADMIN_COMMANDS :: "string list" where
  "ADMIN_COMMANDS = [''health'', ''worker_ping'', ''worker_status'']"

text \<open>\<open>AdminOnly\<close> of \<open>filters.py\<close>\<close>

definition AdminOnly :: "settings \<Rightarrow> tg_message \<Rightarrow> bool" where
  "AdminOnly s msg = (case msg_from msg of None \<Rightarrow> False | Some u \<Rightarrow> is_admin s (tg_id u))"

definition handle_health :: "i18n_context \<Rightarrow> tg_message \<Rightarrow> unit bio" where
  "handle_health c msg =
     bindE (askE (\<lambda>b. health_check (b_postgres b) (b_redis b))) (\<lambda>checked.
     bindE (liftE checked) (\<lambda>(report, diagnostics).
       let ok = tr c ''health-ok'' []; failed = tr c ''health-fail'' [];
           lines = [tr c ''health-postgres'' [(''status'', StrArg (if database_ok report then ok else failed))],
                    tr c ''health-redis'' [(''status'', StrArg (if cache_ok report then ok else failed))]]
       in thenE (forE (\<lambda>_. log_bot ''health_check_failed'') diagnostics)
         (thenE (respond msg (join [CHR 0x0A] lines) NoMarkup) (log_bot ''health_check''))))"

definition handle_worker_ping :: "i18n_context \<Rightarrow> tg_message \<Rightarrow> unit bio" where
  "handle_worker_ping c msg =
     (let parts = split_once (str_or_empty (msg_text msg));
          message = (if 1 < length parts then parts ! 1 else ''hello from bot'')
      in bindE (in_world (provide_trigger_ping message)) (\<lambda>job_id.
           thenE (log_bot ''worker_ping_enqueued'')
             (respond msg (tr c ''worker-ping-enqueued'' [(''jobid'', StrArg job_id)]) NoMarkup)))"

definition handle_worker_status :: "i18n_context \<Rightarrow> tg_message \<Rightarrow> unit bio" where
  "handle_worker_status c msg =
     bindE (in_strings get_last) (\<lambda>result.
       case result of
         None \<Rightarrow> respond msg (tr c ''worker-status-empty'' []) NoMarkup
       | Some r \<Rightarrow> respond msg (tr c ''worker-status'' [(''message'', StrArg (html_escape (ping_message r))),
                                                     (''processed'', StrArg (ping_processed_at r))]) NoMarkup)"

text \<open>The command is read from the text alone: a command in a caption leaves nothing at index 0.\<close>

definition handle_admin_command_denied :: "tg_message \<Rightarrow> unit bio" where
  "handle_admin_command_denied msg =
     (if split_once (str_or_empty (msg_text msg)) = [] then raiseE (LibraryError ''IndexError'' ''list index out of range'')
      else log_bot ''admin_command_denied'')"

section \<open>handlers/basic.py\<close>

definition handle_start :: "i18n_context \<Rightarrow> tg_message \<Rightarrow> unit bio" where
  "handle_start c msg =
     (case msg_from msg of
        None \<Rightarrow> retE ()
      | Some u \<Rightarrow>
          bindE (in_world (provide_register_user (tg_id u) (Some (ctx_locale c)))) (\<lambda>registered.
            thenE (log_bot ''start_command'')
              (respond msg (tr c ''start-greeting'' []) (Reply (main_menu_keyboard c None)))))"

definition handle_help :: "bot_env \<Rightarrow> i18n_context \<Rightarrow> tg_message \<Rightarrow> unit bio" where
  "handle_help env c msg = respond msg (format_help (tr c) (be_settings env)) NoMarkup"

definition handle_ping :: "tg_message \<Rightarrow> unit bio" where
  "handle_ping msg = respond msg ''pong'' NoMarkup"

section \<open>handlers/language.py\<close>

definition handle_language_command :: "i18n_context \<Rightarrow> tg_message \<Rightarrow> unit bio" where
  "handle_language_command c msg =
     respond msg (tr c ''language-prompt'' []) (Inline (language_picker_keyboard (tr c)))"

definition handle_language_choice :: "bot_env \<Rightarrow> i18n_context \<Rightarrow> tg_callback \<Rightarrow> unit bio" where
  "handle_language_choice env c cb =
     (let chosen = drop (length CB_LANG_PREFIX) (str_or_empty (cb_data cb))
      in if chosen \<notin> set SUPPORTED_LOCALES then answer_callback None False
         else thenE (in_locales (set_locale (be_manager env) chosen (Some (cb_from cb))))
             (bindE (in_world (provide_set_user_language (tg_id (cb_from cb)) (Some chosen))) (\<lambda>_.
              thenE (log_bot ''language_changed'')
             (thenE (on_card cb (\<lambda>msg. respond msg (ctx_core c chosen ''language-changed'' [])
                                          (Reply (main_menu_keyboard c (Some chosen)))))
                (answer_callback None False)))))"

section \<open>handlers/preview.py\<close>

text \<open>\<open>except (ExtractionError, UnsupportedURLError)\<close>\<close>

definition preview_caught :: "exn \<Rightarrow> bool" where
  "preview_caught e \<longleftrightarrow> is_extraction_error e \<or> is_unsupported_url_error e"

definition preview_use_case :: "bot_env \<Rightarrow> string \<Rightarrow> media_preview bio" where
  "preview_use_case env url = in_world (provide_preview_download (be_machine env) (be_ctx env) url)"

definition handle_preview :: "bot_env \<Rightarrow> i18n_context \<Rightarrow> tg_message \<Rightarrow> unit bio" where
  "handle_preview env c msg =
     (let parts = split_once (str_or_empty (msg_text msg))
      in if length parts < 2 then respond msg (tr c ''preview-usage'' []) NoMarkup
         else bindE (attempt (preview_use_case env (py_strip (parts ! 1)))) (\<lambda>outcome.
           case outcome of
             Inl e \<Rightarrow> if preview_caught e then respond msg (format_download_error (tr c) e) NoMarkup else raiseE e
           | Inr p \<Rightarrow>
               thenE (log_bot ''preview_shown'')
                 (bindE (liftE (format_preview (tr c) p)) (\<lambda>card. respond msg card NoMarkup))))"

section \<open>handlers/download.py\<close>

definition download_key :: "int \<Rightarrow> string" where
  "download_key tid = ''download:'' @ show_int tid"

definition preview_key :: "int \<Rightarrow> string" where
  "preview_key tid = ''preview:'' @ show_int tid"

definition bad_url :: "i18n_context \<Rightarrow> exn \<Rightarrow> string" where
  "bad_url c e = tr c ''error-bad-url'' [(''reason'', StrArg (html_escape (exn_str e)))]"

definition check_link :: "bot_env \<Rightarrow> string \<Rightarrow> exn + string" where
  "check_link env url =
     validate_url_against_allowlist (mc_bracketed_ok (be_machine env)) url
       (allowed_domains_set (be_settings env)) (blocked_domains_set (be_settings env))"

text \<open>What the two paths to a download ask of the limiter, one slot of the user's hour.\<close>

definition acquire_download :: "bot_env \<Rightarrow> int \<Rightarrow> rate_limit_result bio" where
  "acquire_download env tid =
     in_limiter (acquire (download_key tid) (rate_limit_downloads_per_hour (be_settings env)) 3600)"

definition request_use :: "bot_env \<Rightarrow> int \<Rightarrow> string \<Rightarrow> download_spec \<Rightarrow> string \<Rightarrow> int \<Rightarrow> int \<Rightarrow> download_request bio" where
  "request_use env tid url sp extractor_key chat_id message_id =
     in_world (provide_request_download (be_machine env) (be_policy env) tid url sp extractor_key chat_id message_id)"

text \<open>\<open>handle_download\<close> from the status message on, and as a whole.\<close>

definition start_download :: "bot_env \<Rightarrow> i18n_context \<Rightarrow> tg_message \<Rightarrow> int \<Rightarrow> string \<Rightarrow> int \<Rightarrow> unit bio" where
  "start_download env c msg tid url status_id =
     (let edit = (\<lambda>txt. edit_text (msg_chat_id msg) status_id txt NoMarkup)
      in bindE (attempt (preview_use_case env url)) (\<lambda>previewed.
           case previewed of
             Inl e \<Rightarrow>
               if is_unsupported_url_error e then edit (bad_url c e)
               else if is_extraction_error e then edit (format_download_error (tr c) e)
               else raiseE e
           | Inr p \<Rightarrow>
               bindE (attempt (request_use env tid url (default_video_spec p) (preview_extractor_key p)
                        (msg_chat_id msg) status_id)) (\<lambda>requested.
                 case requested of
                   Inl e \<Rightarrow>
                     if is_unsupported_url_error e then edit (bad_url c e)
                     else if e = FormatNotAllowedError \<or> e = DownloadEnqueueError then edit (format_download_error (tr c) e)
                     else raiseE e
                 | Inr r \<Rightarrow> log_bot ''download_requested'')))"

definition handle_download :: "bot_env \<Rightarrow> i18n_context \<Rightarrow> tg_message \<Rightarrow> unit bio" where
  "handle_download env c msg =
     (case msg_from msg of
        None \<Rightarrow> retE ()
      | Some u \<Rightarrow>
          let parts = split_once (str_or_empty (msg_text msg))
          in if length parts < 2 then respond msg (tr c ''download-usage'' []) NoMarkup
             else case check_link env (py_strip (parts ! 1)) of
               Inl e \<Rightarrow> if is_unsupported_url_error e then respond msg (bad_url c e) NoMarkup else raiseE e
             | Inr url \<Rightarrow>
                 bindE (acquire_download env (tg_id u)) (\<lambda>verdict.
                   if \<not> rl_allowed verdict then
                     thenE (log_bot ''download_rate_limited'')
                       (respond msg (format_retry_after (tr c) (rl_retry_after verdict)) NoMarkup)
                   else
                     bindE (reply msg (tr c ''download-started'' []) NoMarkup)
                       (start_download env c msg (tg_id u) url)))"

end
