(* ===== verification/Flow.thy ===== *)
theory Flow
  imports Bot
begin

text \<open>
  The guided download flow (\<open>handlers/download_flow.py\<close>), the dispatch of an update to its handler in
  router order (\<open>bot.py\<close>) and what \<open>main.py\<close> builds the dispatcher with.
\<close>

section \<open>The preview step\<close>

definition looks_like_url :: "string \<Rightarrow> bool" where
  "looks_like_url txt =
     (let stripped = py_strip txt in prefix ''http://'' stripped \<or> prefix ''https://'' stripped)"

definition choices_of :: "bot_env \<Rightarrow> preview_context \<Rightarrow> offered_choices" where
  "choices_of env context =
     offered_choices_for (be_policy env) (context_extractor_key context) (context_max_side context)"

definition acquire_preview :: "bot_env \<Rightarrow> int \<Rightarrow> rate_limit_result bio" where
  "acquire_preview env tid =
     in_limiter (acquire (preview_key tid) (rate_limit_previews_per_minute (be_settings env)) 60)"

text \<open>\<open>_show_preview\<close>: from the status message on, and as a whole.\<close>

definition fetch_preview :: "bot_env \<Rightarrow> i18n_context \<Rightarrow> tg_message \<Rightarrow> string \<Rightarrow> unit bio" where
  "fetch_preview env c msg url =
     bindE (reply msg (tr c ''preview-fetching'' []) NoMarkup) (\<lambda>status_id.
     bindE (attempt (preview_use_case env url)) (\<lambda>previewed.
       case previewed of
         Inl e \<Rightarrow>
           if preview_caught e then edit_text (msg_chat_id msg) status_id (format_download_error (tr c) e) NoMarkup
           else raiseE e
       | Inr p \<Rightarrow>
           let context = from_preview p
           in bindE (in_store (ps_save (preview_context_ttl_seconds (be_settings env)) context)) (\<lambda>token.
                thenE (log_bot ''flow_preview_shown'')
                  (bindE (liftE (format_preview (tr c) p)) (\<lambda>card.
                     edit_text (msg_chat_id msg) status_id card
                       (Inline (preview_confirm_keyboard (tr c) token (choices_of env context))))))))"

definition show_preview :: "bot_env \<Rightarrow> i18n_context \<Rightarrow> tg_message \<Rightarrow> string \<Rightarrow> unit bio" where
  "show_preview env c msg url =
     (case check_link env url of
        Inl e \<Rightarrow> if is_unsupported_url_error e then respond msg (bad_url c e) NoMarkup else raiseE e
      | Inr validated_url \<Rightarrow>
          (case msg_from msg of
             None \<Rightarrow> fetch_preview env c msg validated_url
           | Some u \<Rightarrow>
               bindE (acquire_preview env (tg_id u)) (\<lambda>verdict.
                 if \<not> rl_allowed verdict then
                   thenE (log_bot ''preview_rate_limited'')
                     (respond msg (format_retry_after (tr c) (rl_retry_after verdict)) NoMarkup)
                 else fetch_preview env c msg validated_url)))"

section \<open>Buttons and links\<close>

definition handle_download_reply_button :: "i18n_context \<Rightarrow> tg_message \<Rightarrow> unit bio" where
  "handle_download_reply_button c msg =
     thenE (set_state (message_fsm_key msg) (Some WAITING_FOR_URL)) (respond msg (tr c ''flow-send-url'' []) NoMarkup)"

definition handle_help_reply_button :: "bot_env \<Rightarrow> i18n_context \<Rightarrow> tg_message \<Rightarrow> unit bio" where
  "handle_help_reply_button env c msg = respond msg (format_help (tr c) (be_settings env)) NoMarkup"

definition handle_download_button :: "i18n_context \<Rightarrow> tg_callback \<Rightarrow> unit bio" where
  "handle_download_button c cb =
     thenE (set_state (callback_fsm_key cb) (Some WAITING_FOR_URL))
    (thenE (on_card cb (\<lambda>msg. respond msg (tr c ''flow-send-url'' []) NoMarkup)) (answer_callback None False))"

definition handle_help_button :: "bot_env \<Rightarrow> i18n_context \<Rightarrow> tg_callback \<Rightarrow> unit bio" where
  "handle_help_button env c cb =
     thenE (on_card cb (\<lambda>msg. respond msg (format_help (tr c) (be_settings env)) NoMarkup)) (answer_callback None False)"

definition handle_url_in_state :: "bot_env \<Rightarrow> i18n_context \<Rightarrow> tg_message \<Rightarrow> unit bio" where
  "handle_url_in_state env c msg =
     thenE (set_state (message_fsm_key msg) None)
       (show_preview env c msg (py_strip (str_or_empty (msg_text msg))))"

definition handle_plain_url :: "bot_env \<Rightarrow> i18n_context \<Rightarrow> tg_message \<Rightarrow> unit bio" where
  "handle_plain_url env c msg = show_preview env c msg (py_strip (str_or_empty (msg_text msg)))"

section \<open>The card's buttons\<close>

definition payload_after :: "string \<Rightarrow> tg_callback \<Rightarrow> string" where
  "payload_after pre cb = drop (length pre) (str_or_empty (cb_data cb))"

definition stale_preview :: "i18n_context \<Rightarrow> unit bio" where
  "stale_preview c = answer_callback (Some (tr c ''flow-preview-stale'' [])) True"

definition picker_markup :: "bot_env \<Rightarrow> i18n_context \<Rightarrow> string \<Rightarrow> preview_context \<Rightarrow> keyboard" where
  "picker_markup env c token context =
     (let choices = choices_of env context
      in if has_quality_step choices
         then quality_picker_keyboard (tr c) token (video_tiers choices) (context_max_side context)
         else preview_confirm_keyboard (tr c) token choices)"

definition handle_open_quality_picker :: "bot_env \<Rightarrow> i18n_context \<Rightarrow> tg_callback \<Rightarrow> unit bio" where
  "handle_open_quality_picker env c cb =
     (let token = payload_after CB_QUALITY_PREFIX cb
      in bindE (in_store (ps_get token)) (\<lambda>found.
           case found of
             None \<Rightarrow> stale_preview c
           | Some context \<Rightarrow>
               thenE (on_card cb (\<lambda>msg. edit_reply_markup msg (picker_markup env c token context)))
                 (answer_callback None False)))"

definition handle_back_to_format :: "bot_env \<Rightarrow> i18n_context \<Rightarrow> tg_callback \<Rightarrow> unit bio" where
  "handle_back_to_format env c cb =
     (let token = payload_after CB_BACK_PREFIX cb
      in bindE (in_store (ps_get token)) (\<lambda>found.
           case found of
             None \<Rightarrow> stale_preview c
           | Some context \<Rightarrow>
               thenE (on_card cb (\<lambda>msg. edit_reply_markup msg
                        (preview_confirm_keyboard (tr c) token (choices_of env context))))
                 (answer_callback None False)))"

text \<open>What is appended to the card's text.\<close>

definition append_to_card :: "tg_message \<Rightarrow> string \<Rightarrow> unit bio" where
  "append_to_card msg txt =
     edit_text (msg_chat_id msg) (msg_id msg) (html_escape (str_or_empty (msg_text msg)) @ txt) NoMarkup"

text \<open>\<open>handle_confirm_download\<close>, from the accepted rate limit on, and as a whole.\<close>

definition confirm_request :: "bot_env \<Rightarrow> i18n_context \<Rightarrow> tg_callback \<Rightarrow> tg_message \<Rightarrow> download_spec \<Rightarrow> preview_context \<Rightarrow> unit bio" where
  "confirm_request env c cb msg sp context =
     bindE (attempt (request_use env (tg_id (cb_from cb)) (context_url context) sp (context_extractor_key context)
              (msg_chat_id msg) (msg_id msg))) (\<lambda>requested.
       case requested of
         Inl e \<Rightarrow>
           if e = FormatNotAllowedError then
             thenE (log_bot ''flow_format_not_allowed'') (answer_callback (Some (format_download_error (tr c) e)) True)
           else if is_unsupported_url_error e then
             answer_callback (Some (tr c ''error-bad-url'' [(''reason'', StrArg (take 150 (exn_str e)))])) True
           else if e = DownloadEnqueueError then
             thenE (append_to_card msg (tr c ''flow-download-failed'' [(''error'', StrArg (format_download_error (tr c) e))]))
               (answer_callback None False)
           else raiseE e
       | Inr r \<Rightarrow>
           thenE (log_bot ''flow_download_confirmed'')
          (thenE (append_to_card msg (tr c ''flow-download-started'' [])) (answer_callback None False)))"

definition handle_confirm_download :: "bot_env \<Rightarrow> i18n_context \<Rightarrow> tg_callback \<Rightarrow> unit bio" where
  "handle_confirm_download env c cb =
     (case parse_confirm_callback (str_or_empty (cb_data cb)) of (token, sp) \<Rightarrow>
        bindE (in_store (ps_pop token)) (\<lambda>claimed.
          case (claimed, cb_message cb) of
            (Some context, Some msg) \<Rightarrow>
              bindE (acquire_download env (tg_id (cb_from cb))) (\<lambda>verdict.
                if \<not> rl_allowed verdict then
                  thenE (log_bot ''download_rate_limited'')
                    (answer_callback (Some (format_retry_after (tr c) (rl_retry_after verdict))) True)
                else confirm_request env c cb msg sp context)
          | _ \<Rightarrow> stale_preview c))"

definition handle_cancel_download :: "i18n_context \<Rightarrow> tg_callback \<Rightarrow> unit bio" where
  "handle_cancel_download c cb =
     thenE (in_store (ps_delete (payload_after CB_CANCEL_PREFIX cb)))
    (thenE (on_card cb (\<lambda>msg. append_to_card msg (tr c ''flow-cancelled'' []))) (answer_callback None False))"

section \<open>Dispatch\<close>

text \<open>The first handler whose filters pass runs; with none the update is dropped.\<close>

fun run_first :: "(bool \<times> unit bio) list \<Rightarrow> unit bio" where
  "run_first [] = retE ()"
| "run_first ((passes, handler) # rest) = (if passes then handler else run_first rest)"

text \<open>\<open>Command(name)\<close>: of the text, or of the caption when there is no text.\<close>

definition is_command :: "bot_env \<Rightarrow> tg_message \<Rightarrow> string \<Rightarrow> bool" where
  "is_command env msg name =
     (let txt = (if str_or_empty (msg_text msg) \<noteq> [] then str_or_empty (msg_text msg) else str_or_empty (msg_caption msg))
      in txt \<noteq> [] \<and> be_command env txt = Some name)"

definition text_starts_with :: "string \<Rightarrow> tg_message \<Rightarrow> bool" where
  "text_starts_with pre msg = (case msg_text msg of None \<Rightarrow> False | Some t \<Rightarrow> prefix pre t)"

definition admin_handlers :: "bot_env \<Rightarrow> i18n_context \<Rightarrow> tg_message \<Rightarrow> (bool \<times> unit bio) list" where
  "admin_handlers env c msg =
     [(is_command env msg ''health'' \<and> AdminOnly (be_settings env) msg, handle_health c msg),
      (is_command env msg ''worker_ping'' \<and> AdminOnly (be_settings env) msg, handle_worker_ping c msg),
      (is_command env msg ''worker_status'' \<and> AdminOnly (be_settings env) msg, handle_worker_status c msg),
      (list_ex (is_command env msg) ADMIN_COMMANDS, handle_admin_command_denied msg)]"

definition command_handlers :: "bot_env \<Rightarrow> i18n_context \<Rightarrow> tg_message \<Rightarrow> (bool \<times> unit bio) list" where
  "command_handlers env c msg =
     [(is_command env msg ''start'', handle_start c msg),
      (is_command env msg ''help'', handle_help env c msg),
      (msg_text msg = Some ''/ping'', handle_ping msg),
      (is_command env msg ''language'', handle_language_command c msg),
      (text_starts_with ''/preview'' msg, handle_preview env c msg),
      (text_starts_with ''/download'' msg, handle_download env c msg)]"

definition flow_handlers :: "bot_env \<Rightarrow> i18n_context \<Rightarrow> string option \<Rightarrow> tg_message \<Rightarrow> (bool \<times> unit bio) list" where
  "flow_handlers env c state msg =
     [(button_matches BTN_KEY_DOWNLOAD (be_buttons env) (msg_text msg), handle_download_reply_button c msg),
      (button_matches BTN_KEY_HELP (be_buttons env) (msg_text msg), handle_help_reply_button env c msg),
      (state = Some WAITING_FOR_URL \<and> str_or_empty (msg_text msg) \<noteq> [], handle_url_in_state env c msg),
      (str_or_empty (msg_text msg) \<noteq> [] \<and> looks_like_url (str_or_empty (msg_text msg)), handle_plain_url env c msg)]"

definition message_handlers :: "bot_env \<Rightarrow> i18n_context \<Rightarrow> string option \<Rightarrow> tg_message \<Rightarrow> (bool \<times> unit bio) list" where
  "message_handlers env c state msg =
     admin_handlers env c msg @ command_handlers env c msg @ flow_handlers env c state msg"

definition data_starts_with :: "string \<Rightarrow> tg_callback \<Rightarrow> bool" where
  "data_starts_with pre cb = (case cb_data cb of None \<Rightarrow> False | Some d \<Rightarrow> prefix pre d)"

definition callback_handlers :: "bot_env \<Rightarrow> i18n_context \<Rightarrow> tg_callback \<Rightarrow> (bool \<times> unit bio) list" where
  "callback_handlers env c cb =
     [(data_starts_with CB_LANG_PREFIX cb, handle_language_choice env c cb),
      (cb_data cb = Some CB_FLOW_DOWNLOAD, handle_download_button c cb),
      (cb_data cb = Some CB_FLOW_HELP, handle_help_button env c cb),
      (data_starts_with CB_QUALITY_PREFIX cb, handle_open_quality_picker env c cb),
      (data_starts_with CB_BACK_PREFIX cb, handle_back_to_format env c cb),
      (data_starts_with CB_CONFIRM_PREFIX cb, handle_confirm_download env c cb),
      (data_starts_with CB_CANCEL_PREFIX cb, handle_cancel_download c cb)]"

text \<open>The middleware resolves the locale of every update before any handler sees it.\<close>

definition update_sender :: "update \<Rightarrow> tg_user option" where
  "update_sender u = (case u of MessageUpdate msg \<Rightarrow> msg_from msg | CallbackUpdate cb \<Rightarrow> Some (cb_from cb))"

definition route :: "bot_env \<Rightarrow> i18n_context \<Rightarrow> update \<Rightarrow> unit bio" where
  "route env c u =
     (case u of
        MessageUpdate msg \<Rightarrow>
          bindE (askE (fsm_state (message_fsm_key msg))) (\<lambda>state. run_first (message_handlers env c state msg))
      | CallbackUpdate cb \<Rightarrow> run_first (callback_handlers env c cb))"

definition dispatch :: "bot_env \<Rightarrow> update \<Rightarrow> unit bio" where
  "dispatch env u =
     bindE (in_locales (get_locale (be_manager env) (update_sender u))) (\<lambda>locale.
       route env \<lparr>ctx_core = be_core env, ctx_locale = locale\<rparr> u)"

section \<open>The wiring\<close>

text \<open>
  What \<open>main\<close> builds from the settings and the started Fluent core; settings that name an unknown
  format kind would stop it here.
\<close>

definition bot_environment ::
    "settings \<Rightarrow> machine \<Rightarrow> fluent_localizer \<Rightarrow> (string \<Rightarrow> i18n) \<Rightarrow> (string \<Rightarrow> string option) \<Rightarrow> exn + bot_env" where
  "bot_environment s mc localizer core command =
     (case bot_policy s of
        Inl e \<Rightarrow> Inl e
      | Inr policy \<Rightarrow> Inr
          \<lparr>be_settings = s, be_policy = policy, be_machine = mc, be_ctx = worker_startup s localizer, be_core = core,
           be_buttons = collect_button_translations core, be_manager = create_i18n_manager True, be_command = command\<rparr>)"

text \<open>The menu: one set of commands per locale, and one for all other languages.\<close>

definition MENU_COMMANDS :: "(string \<times> string) list" where
  "MENU_COMMANDS = [(''start'', ''cmd-start''), (''download'', ''cmd-download''), (''preview'', ''cmd-preview''),
                    (''language'', ''cmd-language''), (''help'', ''cmd-help'')]"

definition menus :: "(string \<Rightarrow> i18n) \<Rightarrow> (string option \<times> (string \<times> string) list) list" where
  "menus core =
     (let commands = (\<lambda>locale. map (\<lambda>(cmd, key). (cmd, core locale key [])) MENU_COMMANDS)
      in map (\<lambda>locale. (Some locale, commands locale)) SUPPORTED_LOCALES @ [(None, commands DEFAULT_LOCALE)])"

end
