(* ===== verification/BotFrame.thy ===== *)
theory BotFrame
  imports Flow UseCasesFacts
begin

text \<open>
  What the handlers leave alone.  A predicate on the bot's state that talks about neither chats, logs,
  locales, strings nor FSM states is kept by whatever only touches these (the locale \<open>bot_frame\<close>); one that the
  user use cases, previews and the preview store keep as well is kept by every handler but the two that
  start downloads (\<open>bot_frame_flow\<close>), and by those too when acquiring a slot and requesting keep it
  (\<open>bot_frame_user\<close>).
\<close>

named_theorems frames \<open>what keeps a predicate\<close>

section \<open>Control structure\<close>

lemma keeps_attempt: "keeps P m \<Longrightarrow> keeps P (attempt m)"
  by (simp add: keeps_def attempt_def split_beta)

lemma keeps_if: "keeps P m \<Longrightarrow> keeps P n \<Longrightarrow> keeps P (if c then m else n)"
  by simp

lemma keeps_option: "keeps P m \<Longrightarrow> (\<And>x. keeps P (f x)) \<Longrightarrow> keeps P (case v of None \<Rightarrow> m | Some x \<Rightarrow> f x)"
  by (cases v) simp_all

lemma keeps_sum: "(\<And>e. keeps P (h e)) \<Longrightarrow> (\<And>x. keeps P (f x)) \<Longrightarrow> keeps P (case v of Inl e \<Rightarrow> h e | Inr x \<Rightarrow> f x)"
  by (cases v) simp_all

lemma keeps_prod: "(\<And>a b. keeps P (f a b)) \<Longrightarrow> keeps P (case v of (a, b) \<Rightarrow> f a b)"
  by (cases v) simp

lemma keeps_zoom: "(\<And>b. P b \<Longrightarrow> P (put (snd (m (get b))) b)) \<Longrightarrow> keeps P (zoom get put m)"
  by (simp add: keeps_def)

lemma keeps_run_first: "(\<And>c h. (c, h) \<in> set hs \<Longrightarrow> c \<Longrightarrow> keeps P h) \<Longrightarrow> keeps P (run_first hs)"
  by (induction hs) (auto split: if_splits)

lemmas keeps_control [frames] = keeps_retE keeps_raiseE keeps_askE keeps_liftE keeps_thenE keeps_bindE keeps_forE
  keeps_attempt keeps_if keeps_option keeps_sum keeps_prod

section \<open>Predicates on the rest of the state\<close>

locale bot_frame =
  fixes P :: "bot \<Rightarrow> bool"
  assumes chat: "P b \<Longrightarrow> P (b\<lparr>b_chat := chats\<rparr>)"
    and locales: "P b \<Longrightarrow> P (b\<lparr>b_locales := lc\<rparr>)"
    and strings: "P b \<Longrightarrow> P (b\<lparr>b_strings := rs\<rparr>)"
    and fsm: "P b \<Longrightarrow> P (b\<lparr>b_fsm := states\<rparr>)"
    and log: "P b \<Longrightarrow> P (b\<lparr>b_log := events\<rparr>)"
begin

lemma keeps_base:
  "keeps P (in_chat m1)" "keeps P (in_locales m2)" "keeps P (in_strings m3)" "keeps P (log_bot event)" "keeps P (set_state key st)"
  using chat locales strings fsm log
  by (auto simp: in_defs log_bot_def set_state_def keeps_def tellE_def raiseE_def intro!: keeps_zoom split: option.split)

lemma keeps_output:
  "keeps P (reply msg txt m)" "keeps P (respond msg txt m)" "keeps P (answer_callback t al)" "keeps P (edit_text cid mid txt m)"
  "keeps P (edit_reply_markup msg k)" "keeps P (append_to_card msg txt)" "keeps P (stale_preview c)"
  unfolding reply_def respond_def answer_callback_def edit_text_def edit_reply_markup_def append_to_card_def stale_preview_def
  by (intro keeps_base keeps_control)+

lemma keeps_on_card: "(\<And>msg. keeps P (f msg)) \<Longrightarrow> keeps P (on_card cb f)"
  unfolding on_card_def by (intro keeps_control)

lemmas outputs = keeps_base keeps_output keeps_on_card

lemma keeps_quiet_handlers:
  "keeps P (handle_health c msg)" "keeps P (handle_worker_status c msg)" "keeps P (handle_admin_command_denied msg)"
  "keeps P (handle_help env c msg)" "keeps P (handle_ping msg)" "keeps P (handle_language_command c msg)"
  "keeps P (handle_download_reply_button c msg)" "keeps P (handle_help_reply_button env c msg)"
  "keeps P (handle_download_button c cb)" "keeps P (handle_help_button env c cb)"
  unfolding handle_health_def handle_worker_status_def handle_admin_command_denied_def handle_help_def handle_ping_def
    handle_language_command_def handle_download_reply_button_def handle_help_reply_button_def handle_download_button_def
    handle_help_button_def Let_def
  by (intro outputs keeps_control)+

end

locale bot_frame_flow = bot_frame P for P :: "bot \<Rightarrow> bool" +
  fixes env :: bot_env
  assumes register: "keeps P (in_world (provide_register_user tid l))"
    and language: "keeps P (in_world (provide_set_user_language tid l))"
    and pinged: "keeps P (in_world (provide_trigger_ping message))"
    and previewed: "keeps P (preview_use_case env url)"
    and store: "P b \<Longrightarrow> P (b\<lparr>b_store := st\<rparr>)"
    and preview_slot: "keeps P (acquire_preview env tid)"
begin

lemma keeps_store: "keeps P (in_store m)"
  using store by (auto simp: in_defs intro!: keeps_zoom)

lemmas use_cases = register language pinged previewed keeps_store preview_slot

lemma keeps_show_preview: "keeps P (show_preview env c msg url)"
  unfolding show_preview_def fetch_preview_def Let_def by (intro outputs use_cases keeps_control)

lemma keeps_flow_handlers:
  "keeps P (handle_worker_ping c msg)" "keeps P (handle_start c msg)" "keeps P (handle_language_choice env c cb)"
  "keeps P (handle_preview env c msg)" "keeps P (handle_url_in_state env c msg)" "keeps P (handle_plain_url env c msg)"
  "keeps P (handle_open_quality_picker env c cb)" "keeps P (handle_back_to_format env c cb)"
  "keeps P (handle_cancel_download c cb)"
  unfolding handle_worker_ping_def handle_start_def handle_language_choice_def handle_preview_def handle_url_in_state_def
    handle_plain_url_def handle_open_quality_picker_def handle_back_to_format_def handle_cancel_download_def Let_def
  by (intro outputs use_cases keeps_show_preview keeps_control)+

lemmas handlers = keeps_quiet_handlers keeps_flow_handlers

text \<open>Every update but those that reach one of the two downloading handlers.\<close>

lemma keeps_route:
  assumes "\<And>msg. u = MessageUpdate msg \<Longrightarrow> keeps P (handle_download env c msg)"
    and "\<And>cb. u = CallbackUpdate cb \<Longrightarrow> keeps P (handle_confirm_download env c cb)"
  shows "keeps P (route env c u)"
proof (cases u)
  case (MessageUpdate msg)
  have "keeps P (run_first (message_handlers env c st msg))" for st
    using assms(1) [OF MessageUpdate]
    by (intro keeps_run_first)
      (auto simp: message_handlers_def admin_handlers_def command_handlers_def flow_handlers_def intro: handlers)
  then show ?thesis by (auto simp: route_def MessageUpdate)
next
  case (CallbackUpdate cb)
  then show ?thesis using assms(2)
    by (auto simp: route_def callback_handlers_def intro!: keeps_run_first handlers)
qed

end

locale bot_frame_user = bot_frame_flow P env for P :: "bot \<Rightarrow> bool" and env :: bot_env +
  fixes tid :: int
  assumes download_slot: "keeps P (acquire_download env tid)"
    and requested: "keeps P (request_use env tid url sp ek chat_id message_id)"
begin

lemmas user_cases = download_slot requested

lemma keeps_download:
  assumes "map_option tg_id (msg_from msg) \<in> {None, Some tid}"
  shows "keeps P (handle_download env c msg)"
proof (cases "msg_from msg")
  case None
  then show ?thesis by (simp add: handle_download_def)
next
  case (Some u)
  then have u: "tg_id u = tid" using assms by simp
  show ?thesis
    unfolding handle_download_def start_download_def Let_def Some option.case u
    by (intro outputs use_cases user_cases keeps_control)
qed

lemma keeps_confirm:
  assumes "tg_id (cb_from cb) = tid"
  shows "keeps P (handle_confirm_download env c cb)"
  unfolding handle_confirm_download_def confirm_request_def Let_def assms
  by (intro outputs use_cases user_cases keeps_control)

lemma keeps_dispatch:
  assumes "map_option tg_id (update_sender u) \<in> {None, Some tid}"
  shows "keeps P (dispatch env u)"
proof -
  have "keeps P (route env c u)" for c
    using assms keeps_download keeps_confirm by (intro keeps_route) (auto simp: update_sender_def)
  then show ?thesis unfolding dispatch_def by (intro outputs keeps_control)
qed

end

end
