(* ===== verification/BotFacts.thy ===== *)
theory BotFacts
  imports BotFrame
begin

text \<open>
  What the bot guarantees: downloads per user and hour, one download per card, who may start one and
  with what, silence towards strangers on operational commands, refused links, the routing of menu taps.
\<close>

section \<open>The jobs of a bot\<close>

definition is_download :: "job_args \<Rightarrow> bool" where
  "is_download j = (case j of DownloadArgs _ _ _ \<Rightarrow> True | PingArgs _ \<Rightarrow> False)"

definition world_jobs :: "world \<Rightarrow> job_args list" where
  "world_jobs w = filter is_download (q_jobs (w_queue w))"

definition download_jobs :: "bot \<Rightarrow> job_args list" where
  "download_jobs b = world_jobs (b_world b)"

lemma download_jobs_other [simp]:
  "download_jobs (b\<lparr>b_chat := x1\<rparr>) = download_jobs b" "download_jobs (b\<lparr>b_locales := x2\<rparr>) = download_jobs b"
  "download_jobs (b\<lparr>b_strings := x3\<rparr>) = download_jobs b" "download_jobs (b\<lparr>b_fsm := x4\<rparr>) = download_jobs b"
  "download_jobs (b\<lparr>b_log := x5\<rparr>) = download_jobs b" "download_jobs (b\<lparr>b_store := x6\<rparr>) = download_jobs b"
  "download_jobs (b\<lparr>b_limiter := x7\<rparr>) = download_jobs b" "download_jobs (b\<lparr>b_world := w\<rparr>) = world_jobs w"
  by (simp_all add: download_jobs_def)

lemma on_db_jobs: "keeps (\<lambda>w. world_jobs w = js) (on_db m)"
  by (simp add: keeps_def on_db_def world_jobs_def)

lemma register_jobs: "keeps (\<lambda>w. world_jobs w = js) (provide_register_user tid l)"
  unfolding provide_register_user_def
  by (intro keeps_bindE on_db_jobs) (simp add: keeps_def new_uuid_def io_simps world_jobs_def)

lemma language_jobs: "keeps (\<lambda>w. world_jobs w = js) (provide_set_user_language tid l)"
  unfolding provide_set_user_language_def by (rule on_db_jobs)

lemma ping_jobs: "keeps (\<lambda>w. world_jobs w = js) (provide_trigger_ping message)"
  by (auto simp: keeps_def provide_trigger_ping_def trigger_ping_def world_task_queue_def on_queue_def arq_enqueue_ping_def
      enqueue_job_def io_simps world_jobs_def is_download_def split: enqueue_answer.split option.split)

lemma preview_keeps: "keeps P (preview_use_case env url)"
proof -
  have "keeps Q (provide_preview_download (be_machine env) (be_ctx env) url)" for Q
    by (auto simp: provide_preview_download_def preview_download_def world_downloader_def)
  from this [of "\<lambda>w. P (b\<lparr>b_world := w\<rparr>)" for b] show ?thesis
    by (auto simp: preview_use_case_def in_world_def keeps_def)
qed

lemma keeps_in_world: "(\<And>b. P b \<Longrightarrow> keeps (\<lambda>w. P (b\<lparr>b_world := w\<rparr>)) m) \<Longrightarrow> keeps P (in_world m)"
  unfolding in_world_def by (rule keeps_zoom) (auto simp: keeps_def)

section \<open>The limiter's keys\<close>

lemma acquire_other: "k \<noteq> KEY_PREFIX @ key \<Longrightarrow> lim_sets (snd (acquire key limit window s)) k = lim_sets s k"
proof -
  obtain r s' where run: "acquire key limit window s = (r, s')" by fastforce
  assume "k \<noteq> KEY_PREFIX @ key"
  with run show ?thesis by (cases rule: acquireE [OF run]) (auto simp: pruned_def recorded_def)
qed

lemma keys_differ:
  "KEY_PREFIX @ download_key a \<noteq> KEY_PREFIX @ preview_key c"
  "KEY_PREFIX @ download_key a = KEY_PREFIX @ download_key c \<longleftrightarrow> a = c"
  by (simp_all add: download_key_def preview_key_def show_int_inj)

text \<open>
  What handlers may leave alone: the slots of a user's hour, the jobs, the slots of everybody else's hours,
  and the world, the store and the limiter altogether.
\<close>

definition own_hour :: "int \<Rightarrow> ((rat \<times> nat) list \<times> rat option) option \<Rightarrow> bot \<Rightarrow> bool" where
  "own_hour tid v b \<longleftrightarrow> lim_sets (b_limiter b) (KEY_PREFIX @ download_key tid) = v"

definition jobs_are :: "job_args list \<Rightarrow> bot \<Rightarrow> bool" where
  "jobs_are js b \<longleftrightarrow> download_jobs b = js"

definition other_hours :: "int \<Rightarrow> (int \<Rightarrow> ((rat \<times> nat) list \<times> rat option) option) \<Rightarrow> bot \<Rightarrow> bool" where
  "other_hours tid v b \<longleftrightarrow> (\<forall>t. t \<noteq> tid \<longrightarrow> own_hour t (v t) b)"

definition still :: "world \<times> pstore \<times> limiter \<Rightarrow> bot \<Rightarrow> bool" where
  "still s b \<longleftrightarrow> (b_world b, b_store b, b_limiter b) = s"

interpretation still: bot_frame "still s" for s
  by unfold_locales (auto simp: still_def)

lemma own_hour_preview: "keeps (own_hour tid v) (acquire_preview env t)"
  using keys_differ by (auto simp: acquire_preview_def in_limiter_def own_hour_def acquire_other intro!: keeps_zoom)

lemma in_world_hour: "keeps (own_hour tid v) (in_world m)" "keeps (other_hours tid w) (in_world m)"
  by (auto simp: in_world_def own_hour_def other_hours_def intro!: keeps_zoom)

lemma request_hour: "keeps (own_hour tid v) (request_use env t url sp ek c mid)"
  "keeps (other_hours tid w) (request_use env t url sp ek c mid)"
  by (simp_all add: request_use_def in_world_hour)

interpretation own_hour: bot_frame_flow "own_hour tid v" env for tid v env
  by unfold_locales (auto simp: own_hour_def preview_keeps intro: in_world_hour own_hour_preview)

interpretation jobs_are: bot_frame_flow "jobs_are js" env for js env
proof unfold_locales
  show "keeps (jobs_are js) (in_world (provide_register_user t l))" for t l
    using register_jobs by (intro keeps_in_world) (auto simp: jobs_are_def keeps_def)
  show "keeps (jobs_are js) (in_world (provide_set_user_language t l))" for t l
    using language_jobs by (intro keeps_in_world) (auto simp: jobs_are_def keeps_def)
  show "keeps (jobs_are js) (in_world (provide_trigger_ping message))" for message
    using ping_jobs by (intro keeps_in_world) (auto simp: jobs_are_def keeps_def)
qed (auto simp: jobs_are_def preview_keeps acquire_preview_def in_limiter_def intro!: keeps_zoom)

interpretation other_hours: bot_frame_user "other_hours tid v" env tid for tid v env
proof unfold_locales
  show "keeps (other_hours tid v) (acquire_preview env t)" for t
    using own_hour_preview by (auto simp: other_hours_def keeps_def)
  show "keeps (other_hours tid v) (acquire_download env tid)"
    using keys_differ by (auto simp: acquire_download_def in_limiter_def other_hours_def own_hour_def acquire_other intro!: keeps_zoom)
qed (auto simp: other_hours_def own_hour_def preview_keeps intro: in_world_hour request_hour)

section \<open>How a download starts\<close>

text \<open>At most \<open>n\<close> jobs more.\<close>

definition adds :: "nat \<Rightarrow> 'a bio \<Rightarrow> bool" where
  "adds n m \<longleftrightarrow> (\<forall>b. length (download_jobs (snd (m b))) \<le> length (download_jobs b) + n)"

lemma adds_bindE: "adds i m \<Longrightarrow> (\<And>x. adds j (f x)) \<Longrightarrow> adds (i + j) (bindE m f)"
proof -
  assume m: "adds i m" and f: "\<And>x. adds j (f x)"
  have "length (download_jobs (snd (bindE m f b))) \<le> length (download_jobs b) + (i + j)" for b
  proof (cases "m b")
    case (Pair r b1)
    have "length (download_jobs b1) \<le> length (download_jobs b) + i" using m Pair unfolding adds_def by (metis snd_conv)
    moreover have "length (download_jobs (snd (f x b1))) \<le> length (download_jobs b1) + j" for x using f unfolding adds_def by blast
    ultimately show ?thesis using Pair by (cases r) (auto simp: bindE_def intro: order_trans [where y = "length (download_jobs b1) + j"])
  qed
  then show ?thesis by (simp add: adds_def)
qed

lemma keeps_adds: "(\<And>js. keeps (jobs_are js) m) \<Longrightarrow> adds n m"
  by (fastforce simp: adds_def keeps_def jobs_are_def)

lemma adds_one_bindE:
  "adds 1 m \<Longrightarrow> (\<And>x js. keeps (jobs_are js) (f x)) \<Longrightarrow> adds 1 (bindE m f)"
  "(\<And>js. keeps (jobs_are js) m) \<Longrightarrow> (\<And>x. adds 1 (f x)) \<Longrightarrow> adds 1 (bindE m f)"
proof -
  show "adds 1 (bindE m f)" if "adds 1 m" "\<And>x js. keeps (jobs_are js) (f x)"
    using adds_bindE [of 1 m 0 f, OF that(1) keeps_adds, OF that(2)] by simp
  show "adds 1 (bindE m f)" if "\<And>js. keeps (jobs_are js) m" "\<And>x. adds 1 (f x)"
    using adds_bindE [of 0 m 1 f, OF keeps_adds that(2), OF that(1)] by simp
qed

lemma adds_sum: "(\<And>e. adds n (h e)) \<Longrightarrow> (\<And>x. adds n (f x)) \<Longrightarrow> adds n (case v of Inl e \<Rightarrow> h e | Inr x \<Rightarrow> f x)"
  by (cases v) simp_all

lemma request_adds: "adds 1 (attempt (request_use env tid url sp ek chat_id message_id))"
proof -
  have "length (world_jobs (snd (provide_request_download mc p tid url sp ek chat_id message_id w))) \<le> length (world_jobs w) + 1"
    for mc p w
  proof -
    obtain r w' where run: "provide_request_download mc p tid url sp ek chat_id message_id w = (r, w')" by fastforce
    show ?thesis using provide_request_cases [OF run] run by (auto simp: world_jobs_def is_download_def split: sum.splits)
  qed
  then show ?thesis
    by (auto simp: adds_def attempt_def request_use_def in_world_def split_beta download_jobs_def)
qed

lemma confirm_request_effects:
  "adds 1 (confirm_request env c cb msg sp context)" "keeps (own_hour tid v) (confirm_request env c cb msg sp context)"
proof -
  show "adds 1 (confirm_request env c cb msg sp context)"
    unfolding confirm_request_def
    by (rule adds_one_bindE(1) [OF request_adds]) (intro jobs_are.outputs keeps_control)
  show "keeps (own_hour tid v) (confirm_request env c cb msg sp context)"
    unfolding confirm_request_def by (intro own_hour.outputs request_hour keeps_control)
qed

lemma start_download_effects:
  "adds 1 (start_download env c msg t url i)" "keeps (own_hour tid v) (start_download env c msg t url i)"
proof -
  show "adds 1 (start_download env c msg t url i)"
    unfolding start_download_def Let_def
    by (rule adds_one_bindE(2) keeps_attempt jobs_are.previewed
        adds_sum adds_one_bindE(1) [OF request_adds] keeps_adds | intro jobs_are.outputs keeps_control)+
  show "keeps (own_hour tid v) (start_download env c msg t url i)"
    unfolding start_download_def Let_def
    by (intro own_hour.outputs own_hour.use_cases request_hour keeps_control)
qed

text \<open>
  A download is paid for: one attempt at a slot of the sender's hour, and a job only if it was granted.
\<close>

definition paid :: "bot_env \<Rightarrow> int \<Rightarrow> bot \<Rightarrow> bot \<Rightarrow> bool" where
  "paid env tid b b' \<longleftrightarrow> (\<exists>r l.
     acquire (download_key tid) (rate_limit_downloads_per_hour (be_settings env)) 3600 (b_limiter b) = (r, l) \<and>
     own_hour tid (lim_sets l (KEY_PREFIX @ download_key tid)) b' \<and>
     length (download_jobs b') \<le> length (download_jobs b) + (if granted r then 1 else 0))"

definition unpaid :: "int \<Rightarrow> bot \<Rightarrow> bot \<Rightarrow> bool" where
  "unpaid tid b b' \<longleftrightarrow> own_hour tid (lim_sets (b_limiter b) (KEY_PREFIX @ download_key tid)) b' \<and>
     download_jobs b' = download_jobs b"

definition charged :: "bot_env \<Rightarrow> int \<Rightarrow> unit bio \<Rightarrow> bool" where
  "charged env tid m \<longleftrightarrow> (\<forall>b. unpaid tid b (snd (m b)) \<or> paid env tid b (snd (m b)))"

lemma charged_keeps: "(\<And>v. keeps (own_hour tid v) m) \<Longrightarrow> (\<And>js. keeps (jobs_are js) m) \<Longrightarrow> charged env tid m"
  by (simp add: charged_def unpaid_def keeps_def own_hour_def jobs_are_def)

lemma charged_acquire:
  assumes slots: "\<And>v s. keeps (own_hour tid s) (f v)" and jobs: "\<And>v. adds (if rl_allowed v then 1 else 0) (f v)"
  shows "charged env tid (bindE (acquire_download env tid) f)"
proof -
  have "paid env tid b (snd (bindE (acquire_download env tid) f b))" for b
  proof -
    obtain r l where a: "acquire (download_key tid) (rate_limit_downloads_per_hour (be_settings env)) 3600 (b_limiter b) = (r, l)"
      by fastforce
    let ?b = "b\<lparr>b_limiter := l\<rparr>"
    have run: "snd (bindE (acquire_download env tid) f b) = (case r of Inl e \<Rightarrow> ?b | Inr v \<Rightarrow> snd (f v ?b))"
      using a by (simp add: bindE_def acquire_download_def in_limiter_def zoom_def split: sum.split)
    have "own_hour tid (lim_sets l (KEY_PREFIX @ download_key tid)) (snd (f v ?b))" for v
      using keepsD [OF slots] by (simp add: own_hour_def)
    moreover have "length (download_jobs (snd (f v ?b))) \<le> length (download_jobs ?b) + (if rl_allowed v then 1 else 0)" for v
      using jobs unfolding adds_def by blast
    ultimately show ?thesis using a by (cases r) (auto simp: paid_def run own_hour_def simp del: One_nat_def)
  qed
  then show ?thesis by (simp add: charged_def)
qed

lemma charged_bindE:
  assumes m: "\<And>s. keeps (\<lambda>b. (b_limiter b, download_jobs b) = s) m" and f: "\<And>x. charged env tid (f x)"
  shows "charged env tid (bindE m f)"
proof -
  have "unpaid tid b (snd (bindE m f b)) \<or> paid env tid b (snd (bindE m f b))" for b
  proof (cases "m b")
    case (Pair r b1)
    have same: "b_limiter b1 = b_limiter b" "download_jobs b1 = download_jobs b"
      using m [of "(b_limiter b, download_jobs b)"] Pair by (auto simp: keeps_def)
    show ?thesis
    proof (cases r)
      case (Inl e)
      then show ?thesis using Pair same by (simp add: bindE_def unpaid_def own_hour_def)
    next
      case (Inr x)
      then have "snd (bindE m f b) = snd (f x b1)" using Pair by (simp add: bindE_def)
      moreover have "unpaid tid b = unpaid tid b1" "paid env tid b = paid env tid b1"
        by (simp_all add: unpaid_def paid_def same fun_eq_iff)
      ultimately show ?thesis using f [of x] unfolding charged_def by metis
    qed
  qed
  then show ?thesis by (simp add: charged_def)
qed

lemma charged_download: "map_option tg_id (msg_from msg) \<in> {None, Some tid} \<Longrightarrow> charged env tid (handle_download env c msg)"
proof (cases "msg_from msg")
  case None
  then show ?thesis by (simp add: handle_download_def charged_def unpaid_def retE_def own_hour_def)
next
  case (Some u)
  moreover assume "map_option tg_id (msg_from msg) \<in> {None, Some tid}"
  ultimately have u: "tg_id u = tid" by simp
  have still: "charged env tid (respond msg t m)" "charged env tid (raiseE e)" for t m e
    by (intro charged_keeps own_hour.outputs jobs_are.outputs keeps_control)+
  have "adds (if rl_allowed v then 1 else 0) (if \<not> rl_allowed v
        then thenE (log_bot ''download_rate_limited'') (respond msg (format_retry_after (tr c) (rl_retry_after v)) NoMarkup)
        else bindE (reply msg (tr c ''download-started'' []) NoMarkup) (start_download env c msg tid url))" for v url
    by (cases "rl_allowed v")
      (auto intro!: keeps_adds adds_one_bindE(2) [OF jobs_are.keeps_output(1) start_download_effects(1)] jobs_are.outputs
        keeps_control simp del: One_nat_def)
  then have "charged env tid (bindE (acquire_download env tid) (\<lambda>v. if \<not> rl_allowed v
        then thenE (log_bot ''download_rate_limited'') (respond msg (format_retry_after (tr c) (rl_retry_after v)) NoMarkup)
        else bindE (reply msg (tr c ''download-started'' []) NoMarkup) (start_download env c msg tid url)))" for url
    by (intro charged_acquire own_hour.outputs start_download_effects keeps_control)
  then show ?thesis unfolding handle_download_def Some option.case Let_def u using still by (simp split: sum.split)
qed

lemma charged_confirm: "tg_id (cb_from cb) = tid \<Longrightarrow> charged env tid (handle_confirm_download env c cb)"
proof -
  assume u: "tg_id (cb_from cb) = tid"
  have stale: "charged env tid (stale_preview c)"
    by (intro charged_keeps own_hour.outputs jobs_are.outputs)
  have "adds (if rl_allowed v then 1 else 0) (if \<not> rl_allowed v
        then thenE (log_bot ''download_rate_limited'')
               (answer_callback (Some (format_retry_after (tr c) (rl_retry_after v))) True)
        else confirm_request env c cb msg sp cx)" for v msg sp cx
    using confirm_request_effects(1) by (auto intro!: keeps_adds jobs_are.outputs keeps_control simp del: One_nat_def)
  then have "charged env tid (bindE (acquire_download env tid) (\<lambda>v. if \<not> rl_allowed v
        then thenE (log_bot ''download_rate_limited'')
               (answer_callback (Some (format_retry_after (tr c) (rl_retry_after v))) True)
        else confirm_request env c cb msg sp cx))" for msg sp cx
    by (intro charged_acquire own_hour.outputs confirm_request_effects keeps_control)
  moreover have "keeps (\<lambda>b. (b_limiter b, download_jobs b) = s) (in_store m)" for s and m :: "preview_context option psio"
    by (auto simp: in_store_def intro!: keeps_zoom)
  ultimately show ?thesis unfolding handle_confirm_download_def u
    by (auto simp: split_beta intro!: charged_bindE stale split: option.split)
qed

lemma charged_retE: "charged env tid (retE ())"
  by (intro charged_keeps keeps_control)

lemma run_first_charged: "(\<And>p h. (p, h) \<in> set hs \<Longrightarrow> p \<Longrightarrow> charged env tid h) \<Longrightarrow> charged env tid (run_first hs)"
  by (induction hs) (auto simp: charged_retE)

lemma charged_handlers:
  "charged env tid (handle_health c msg)" "charged env tid (handle_worker_status c msg)"
  "charged env tid (handle_admin_command_denied msg)" "charged env tid (handle_help env c msg)" "charged env tid (handle_ping msg)"
  "charged env tid (handle_language_command c msg)" "charged env tid (handle_download_reply_button c msg)"
  "charged env tid (handle_help_reply_button env c msg)" "charged env tid (handle_download_button c cb)"
  "charged env tid (handle_help_button env c cb)" "charged env tid (handle_worker_ping c msg)" "charged env tid (handle_start c msg)"
  "charged env tid (handle_language_choice env c cb)" "charged env tid (handle_preview env c msg)"
  "charged env tid (handle_url_in_state env c msg)" "charged env tid (handle_plain_url env c msg)"
  "charged env tid (handle_open_quality_picker env c cb)" "charged env tid (handle_back_to_format env c cb)"
  "charged env tid (handle_cancel_download c cb)"
  by (intro charged_keeps own_hour.handlers jobs_are.handlers)+

lemma charged_route:
  assumes "map_option tg_id (update_sender u) \<in> {None, Some tid}"
  shows "charged env tid (route env c u)"
proof (cases u)
  case (MessageUpdate msg)
  then have d: "charged env tid (handle_download env c msg)"
    using assms by (intro charged_download) (simp add: update_sender_def)
  have "charged env tid (run_first (message_handlers env c st msg))" for st
    by (intro run_first_charged)
      (auto simp: message_handlers_def admin_handlers_def command_handlers_def flow_handlers_def
        intro!: d charged_handlers)
  then show ?thesis by (auto simp: route_def MessageUpdate intro!: charged_bindE)
next
  case (CallbackUpdate cb)
  then have "charged env tid (handle_confirm_download env c cb)"
    using assms by (intro charged_confirm) (simp add: update_sender_def)
  then show ?thesis
    by (auto simp: route_def CallbackUpdate callback_handlers_def
        intro!: charged_retE run_first_charged charged_handlers)
qed

lemma charged_dispatch:
  assumes "map_option tg_id (update_sender u) \<in> {None, Some tid}"
  shows "charged env tid (dispatch env u)"
  unfolding dispatch_def
  by (intro charged_bindE charged_route assms) (auto simp: in_locales_def intro!: keeps_zoom)

section \<open>Downloads per hour\<close>

text \<open>
  A history: every update with its time and with what happened meanwhile (the worker, other processes,
  the passing of time).  \<open>download_times\<close> are the times at which a user's updates enqueued downloads.
\<close>

definition at_time :: "rat \<Rightarrow> bot \<Rightarrow> bot" where
  "at_time t b = b\<lparr>b_limiter := (b_limiter b)\<lparr>lim_now := t\<rparr>, b_store := (b_store b)\<lparr>ps_now := t\<rparr>\<rparr>"

fun download_times :: "bot_env \<Rightarrow> int \<Rightarrow> (rat \<times> (bot \<Rightarrow> bot) \<times> update) list \<Rightarrow> bot \<Rightarrow> rat list" where
  "download_times env tid [] b = []"
| "download_times env tid ((t, meanwhile, u) # us) b =
     (let b0 = at_time t (meanwhile b); b1 = snd (dispatch env u b0)
      in (if map_option tg_id (update_sender u) = Some tid
          then replicate (length (download_jobs b1) - length (download_jobs b0)) t else []) @
         download_times env tid us b1)"

definition keeps_hour :: "int \<Rightarrow> (bot \<Rightarrow> bot) \<Rightarrow> bool" where
  "keeps_hour tid f \<longleftrightarrow> (\<forall>b. own_hour tid (lim_sets (b_limiter b) (KEY_PREFIX @ download_key tid)) (f b))"

lemma download_times_later: "set (download_times env tid us b) \<subseteq> fst ` set us"
proof (induction us arbitrary: b)
  case (Cons x us)
  obtain t meanwhile u where x: "x = (t, meanwhile, u)" by (cases x)
  show ?case using Cons [of "snd (dispatch env u (at_time t (meanwhile b)))"] by (auto simp: x Let_def)
qed simp

lemma key_ok_cong:
  "lim_sets s' (KEY_PREFIX @ key) = lim_sets s (KEY_PREFIX @ key) \<Longrightarrow>
     key_ok key limit window now s' = key_ok key limit window now s \<and> stored key s' = stored key s"
  by (simp add: key_ok_def stored_def zset_expiry_def)

lemma key_ok_later: "key_ok key limit window now s \<Longrightarrow> now \<le> t \<Longrightarrow> key_ok key limit window t s"
  by (force simp: key_ok_def)

text \<open>One update, seen by one user's hour.\<close>

lemma dispatch_hour:
  fixes env :: bot_env
  defines "limit \<equiv> rate_limit_downloads_per_hour (be_settings env)"
  assumes ok: "key_ok (download_key tid) limit 3600 now (b_limiter b)" and t: "now \<le> t"
    and b1: "b1 = snd (dispatch env u (at_time t b))"
  shows "key_ok (download_key tid) limit 3600 t (b_limiter b1)"
    and "\<forall>x \<in> set later. t \<le> x \<Longrightarrow>
    int (length (filter (in_window 3600 x) (map fst (stored (download_key tid) (b_limiter b1)) @ later))) \<le> max 0 limit \<Longrightarrow>
    int (length (filter (in_window 3600 x) (map fst (stored (download_key tid) (b_limiter b)) @
      (if map_option tg_id (update_sender u) = Some tid
       then replicate (length (download_jobs b1) - length (download_jobs (at_time t b))) t else []) @ later))) \<le> max 0 limit"
proof -
  let ?key = "download_key tid" and ?K = "KEY_PREFIX @ download_key tid" and ?s = "b_limiter b"
  have at: "b_limiter (at_time t b) = ?s\<lparr>lim_now := t\<rparr>" by (simp add: at_time_def)
  let ?jobs = "if map_option tg_id (update_sender u) = Some tid
       then replicate (length (download_jobs b1) - length (download_jobs (at_time t b))) t else []"
  have "key_ok ?key limit 3600 t (b_limiter b1) \<and>
    ((\<forall>x \<in> set later. t \<le> x) \<longrightarrow>
     int (length (filter (in_window 3600 x) (map fst (stored ?key (b_limiter b1)) @ later))) \<le> max 0 limit \<longrightarrow>
     int (length (filter (in_window 3600 x) (map fst (stored ?key ?s) @ ?jobs @ later))) \<le> max 0 limit)"
  proof (cases "map_option tg_id (update_sender u) \<in> {None, Some tid} \<and> paid env tid (at_time t b) b1")
    case True
    then obtain r l where a: "acquire ?key limit 3600 (?s\<lparr>lim_now := t\<rparr>) = (r, l)"
      and own: "lim_sets (b_limiter b1) ?K = lim_sets l ?K"
      and jobs: "length (download_jobs b1) \<le> length (download_jobs (at_time t b)) + (if granted r then 1 else 0)"
      unfolding paid_def at limit_def own_hour_def by blast
    note l = key_ok_cong [OF own, of limit 3600 t]
    have "int (length (filter (in_window 3600 x) (map fst (stored ?key ?s) @ slot_of r t @ later))) \<le> max 0 limit"
      if later: "\<forall>x \<in> set later. t \<le> x"
        and rest: "int (length (filter (in_window 3600 x) (map fst (stored ?key (b_limiter b1)) @ later))) \<le> max 0 limit"
      using window_step [OF ok t _ a later, of x] rest l by simp
    moreover have "length (filter (in_window 3600 x) (replicate (length (download_jobs b1) - length (download_jobs (at_time t b))) t))
        \<le> length (filter (in_window 3600 x) (slot_of r t))"
      using jobs by (cases "length (download_jobs b1) - length (download_jobs (at_time t b))") (auto simp: slot_of_def split: if_splits)
    ultimately show ?thesis using key_ok_acquire(1) [OF ok t _ a] l by fastforce
  next
    case False
    have same: "lim_sets (b_limiter b1) ?K = lim_sets ?s ?K \<and>
        (map_option tg_id (update_sender u) = Some tid \<longrightarrow> download_jobs b1 = download_jobs (at_time t b))"
    proof (cases "map_option tg_id (update_sender u) \<in> {None, Some tid}")
      case True
      then have "unpaid tid (at_time t b) b1"
        using charged_dispatch [OF True, of env] False b1 unfolding charged_def by blast
      then show ?thesis by (simp add: unpaid_def own_hour_def at)
    next
      case other: False
      then obtain t' where t': "map_option tg_id (update_sender u) = Some t'" "t' \<noteq> tid" by auto
      have "keeps (other_hours t' (\<lambda>i. lim_sets ?s (KEY_PREFIX @ download_key i))) (dispatch env u)"
        using t'(1) by (intro other_hours.keeps_dispatch) simp
      then have "other_hours t' (\<lambda>i. lim_sets ?s (KEY_PREFIX @ download_key i)) b1"
        unfolding b1 by (rule keepsD) (simp add: other_hours_def own_hour_def at)
      then show ?thesis using t' by (auto simp: other_hours_def own_hour_def)
    qed
    then have "stored ?key (b_limiter b1) = stored ?key ?s" "key_ok ?key limit 3600 t (b_limiter b1)"
      using key_ok_cong [of "b_limiter b1" ?key ?s limit 3600 t] key_ok_later [OF ok t] by simp_all
    then show ?thesis using same by auto
  qed
  then show "key_ok ?key limit 3600 t (b_limiter b1)" and "\<forall>x \<in> set later. t \<le> x \<Longrightarrow>
     int (length (filter (in_window 3600 x) (map fst (stored ?key (b_limiter b1)) @ later))) \<le> max 0 limit \<Longrightarrow>
     int (length (filter (in_window 3600 x) (map fst (stored ?key ?s) @ ?jobs @ later))) \<le> max 0 limit"
    by blast+
qed


lemma download_times_window:
  assumes "key_ok (download_key tid) (rate_limit_downloads_per_hour (be_settings env)) 3600 now (b_limiter b)"
    and "sorted (now # map fst us)" and "\<forall>m \<in> (fst \<circ> snd) ` set us. keeps_hour tid m"
  shows "int (length (filter (in_window 3600 x)
      (map fst (stored (download_key tid) (b_limiter b)) @ download_times env tid us b)))
    \<le> max 0 (rate_limit_downloads_per_hour (be_settings env))"
  using assms
proof (induction us arbitrary: now b)
  case Nil
  then show ?case by (simp add: key_ok_def filter_map comp_def)
next
  case (Cons y us)
  obtain t m u where y: "y = (t, m, u)" by (cases y)
  let ?K = "KEY_PREFIX @ download_key tid" and ?b1 = "snd (dispatch env u (at_time t (m b)))"
  have "lim_sets (b_limiter (m b)) ?K = lim_sets (b_limiter b) ?K"
    using Cons.prems(3) y by (auto simp: keeps_hour_def own_hour_def)
  note m = key_ok_cong [OF this]
  have ok: "key_ok (download_key tid) (rate_limit_downloads_per_hour (be_settings env)) 3600 now (b_limiter (m b))"
    using Cons.prems(1) m by blast
  have t: "now \<le> t" "sorted (t # map fst us)" using Cons.prems(2) y by auto
  have later: "\<forall>x \<in> set (download_times env tid us ?b1). t \<le> x"
    using download_times_later [of env tid us ?b1] t(2) by auto
  have mo: "\<forall>m \<in> (fst \<circ> snd) ` set us. keeps_hour tid m" using Cons.prems(3) by simp
  have ok1: "key_ok (download_key tid) (rate_limit_downloads_per_hour (be_settings env)) 3600 t (b_limiter ?b1)"
    by (rule dispatch_hour(1) [OF ok t(1) refl])
  show ?case
    using dispatch_hour(2) [OF ok t(1) refl later Cons.IH [OF ok1 t(2) mo]] m
    by (simp add: y Let_def)
qed

end
