(* ===== verification/BotProperties.thy ===== *)
theory BotProperties
  imports BotFacts
begin

text \<open>
  The properties of the bot process over \<open>BotFacts\<close>, and the examples that witness them.
\<close>

section \<open>Confirming a card\<close>

lemma still_effect:
  "(\<And>s. keeps (still s) m) \<Longrightarrow>
     b_world (snd (m b)) = b_world b \<and> b_store (snd (m b)) = b_store b \<and> b_limiter (snd (m b)) = b_limiter b"
  by (auto simp: keeps_def still_def)

lemma after_attempt:
  assumes "\<And>x s. keeps (still s) (f x)"
  shows "b_world (snd (bindE (attempt m) f b)) = b_world (snd (m b)) \<and> b_store (snd (bindE (attempt m) f b)) = b_store (snd (m b))"
  using still_effect [of "f x" for x, OF assms] by (simp add: bindE_def attempt_def split_beta)

lemma confirm_request_run:
  "b_world (snd (confirm_request env c cb msg sp cx b)) =
     snd (provide_request_download (be_machine env) (be_policy env) (tg_id (cb_from cb)) (context_url cx) sp
       (context_extractor_key cx) (msg_chat_id msg) (msg_id msg) (b_world b)) \<and>
   b_store (snd (confirm_request env c cb msg sp cx b)) = b_store b"
proof -
  let ?req = "request_use env (tg_id (cb_from cb)) (context_url cx) sp (context_extractor_key cx) (msg_chat_id msg) (msg_id msg)"
  have "b_world (snd (confirm_request env c cb msg sp cx b)) = b_world (snd (?req b)) \<and>
      b_store (snd (confirm_request env c cb msg sp cx b)) = b_store (snd (?req b))"
    unfolding confirm_request_def by (rule after_attempt) (intro still.outputs keeps_control)
  then show ?thesis by (simp add: request_use_def in_world_def)
qed

text \<open>An attempt that was granted, and the state after it.\<close>

lemma acquire_granted:
  assumes "acquire key limit window s = (Inr v, s')" and "rl_allowed v"
  shows "int (length (kept key window s)) < limit"
  using assms(1) by (cases rule: acquireE) (use assms(2) in auto)

text \<open>
  A confirmed card: the preview store answered and the token is spent, or it raised and nothing else happened; the
  world changes only by the request the card stands for.
\<close>

definition confirmed_request :: "bot_env \<Rightarrow> tg_callback \<Rightarrow> string \<Rightarrow> download_spec \<Rightarrow> bot \<Rightarrow> bot \<Rightarrow> bool" where
  "confirmed_request env cb token sp b b' \<longleftrightarrow>
      (\<exists>cx msg. ps_live (b_store b) token = Some cx \<and> cb_message cb = Some msg \<and>
         int (length (kept (download_key (tg_id (cb_from cb))) 3600 (b_limiter b))) < rate_limit_downloads_per_hour (be_settings env) \<and>
         b_world b' = snd (provide_request_download (be_machine env) (be_policy env) (tg_id (cb_from cb)) (context_url cx) sp
             (context_extractor_key cx) (msg_chat_id msg) (msg_id msg) (b_world b)))"

text \<open>The rest of the handler, once the token is claimed.\<close>

definition after_claim :: "bot_env \<Rightarrow> i18n_context \<Rightarrow> tg_callback \<Rightarrow> download_spec \<Rightarrow> preview_context option \<Rightarrow> unit bio" where
  "after_claim env c cb sp claim =
     (case (claim, cb_message cb) of
        (Some cx, Some msg) \<Rightarrow> bindE (acquire_download env (tg_id (cb_from cb))) (\<lambda>verdict.
          if \<not> rl_allowed verdict then thenE (log_bot ''download_rate_limited'')
            (answer_callback (Some (format_retry_after (tr c) (rl_retry_after verdict))) True)
          else confirm_request env c cb msg sp cx)
      | _ \<Rightarrow> stale_preview c)"

lemma confirm_claimed:
  assumes run: "b' = snd (after_claim env c cb sp (ps_live (b_store b) token) (b\<lparr>b_store := st\<rparr>))"
  shows "b_store b' = st \<and> (b_world b' = b_world b \<or> confirmed_request env cb token sp b b')"
proof (cases "ps_live (b_store b) token = None \<or> cb_message cb = None")
  case True
  have "b_store (snd (stale_preview c b1)) = b_store b1 \<and> b_world (snd (stale_preview c b1)) = b_world b1" for b1
    using still_effect [OF still.keeps_output(7), of c b1] by simp
  then show ?thesis using True by (auto simp: run after_claim_def split: option.splits)
next
  case False
  let ?limit = "rate_limit_downloads_per_hour (be_settings env)" and ?key = "download_key (tg_id (cb_from cb))"
  obtain cx msg where some: "ps_live (b_store b) token = Some cx" "cb_message cb = Some msg" using False by auto
  obtain r lim where a: "acquire ?key ?limit 3600 (b_limiter b) = (r, lim)" by fastforce
  let ?b2 = "b\<lparr>b_store := st, b_limiter := lim\<rparr>"
  have run2: "b' = (case r of Inl e \<Rightarrow> ?b2 | Inr v \<Rightarrow> snd ((if \<not> rl_allowed v then thenE (log_bot ''download_rate_limited'')
         (answer_callback (Some (format_retry_after (tr c) (rl_retry_after v))) True)
       else confirm_request env c cb msg sp cx) ?b2))"
    using a by (simp add: run after_claim_def some bindE_def acquire_download_def in_limiter_def zoom_def split: sum.split)
  show ?thesis
  proof (cases r)
    case (Inl e)
    then show ?thesis by (simp add: run2)
  next
    case (Inr v)
    show ?thesis
    proof (cases "rl_allowed v")
      case False
      have "\<And>s t al. keeps (still s) (thenE (log_bot ''download_rate_limited'') (answer_callback t al))"
        by (intro still.outputs keeps_control)
      from still_effect [OF this] show ?thesis using False by (simp add: run2 Inr)
    next
      case True
      then show ?thesis
        using acquire_granted [OF a [unfolded Inr]] some confirm_request_run [of env c cb msg sp cx ?b2]
        by (simp add: run2 Inr confirmed_request_def)
    qed
  qed
qed

lemma confirm_cases:
  fixes b :: bot
  assumes good: "ps_good (b_store b)" and parse: "parse_confirm_callback (str_or_empty (cb_data cb)) = (token, sp)"
    and b': "b' = snd (handle_confirm_download env c cb b)"
  shows "ps_good (b_store b')"
    and "ps_live (b_store b') = (ps_live (b_store b))(token := None) \<or> b_world b' = b_world b \<and> ps_live (b_store b') = ps_live (b_store b)"
    and "link_up (ps_redis (b_store b)) \<Longrightarrow> ps_live (b_store b') token = None"
    and "b_world b' = b_world b \<or> confirmed_request env cb token sp b b'"
proof -
  obtain r st where pop: "ps_pop token (b_store b) = (r, st)" by fastforce
  note popped = redis_store.pop_law [OF good pop]
  let ?after = "\<lambda>b'. ps_good (b_store b') \<and>
    (ps_live (b_store b') = (ps_live (b_store b))(token := None) \<or> b_world b' = b_world b \<and> ps_live (b_store b') = ps_live (b_store b)) \<and>
    (link_up (ps_redis (b_store b)) \<longrightarrow> ps_live (b_store b') token = None) \<and>
    (b_world b' = b_world b \<or> confirmed_request env cb token sp b b')"
  have "?after b'"
  proof (cases r)
    case (Inl e)
    then have "b' = b\<lparr>b_store := st\<rparr>" "\<not> link_up (ps_redis (b_store b))"
      using pop redis_store.pop_answers [OF good _ pop]
      by (auto simp: b' handle_confirm_download_def parse bindE_def in_store_def zoom_def)
    then show ?thesis using popped Inl by auto
  next
    case (Inr claim)
    then have st: "claim = ps_live (b_store b) token" "ps_good st" "ps_live st = (ps_live (b_store b))(token := None)"
      using popped by auto
    have popped_bot: "in_store (ps_pop token) b = (Inr (ps_live (b_store b) token), b\<lparr>b_store := st\<rparr>)"
      using pop Inr st(1) by (simp add: in_store_def zoom_def)
    have "b' = snd (after_claim env c cb sp (ps_live (b_store b) token) (b\<lparr>b_store := st\<rparr>))"
      by (simp add: b' handle_confirm_download_def after_claim_def parse bindE_def [of "in_store _"] popped_bot)
    from confirm_claimed [OF this] show ?thesis using st by auto
  qed
  then show "ps_good (b_store b')"
    and "ps_live (b_store b') = (ps_live (b_store b))(token := None) \<or> b_world b' = b_world b \<and> ps_live (b_store b') = ps_live (b_store b)"
    and "link_up (ps_redis (b_store b)) \<Longrightarrow> ps_live (b_store b') token = None"
    and "b_world b' = b_world b \<or> confirmed_request env cb token sp b b'" by blast+
qed

text \<open>C4: who confirms a card gets what the card stands for and nothing else: a tap changes the database or the
  queue only if its token was live, the card is still reachable and the sender's hour had a free slot, and the token is
  spent then; the only download requested is the stored link's, from the stored source, for the sender, with progress on this
  card; if a job is enqueued, exactly one pending row for a format the policy allows was committed before it.  While
  the preview store answers, every tap spends its token.\<close>

theorem confirmed_download_is_entitled:
  assumes "ps_good (b_store b)" and "parse_confirm_callback (str_or_empty (cb_data cb)) = (token, sp)"
    and "handle_confirm_download env c cb b = (r, b')"
  shows "(link_up (ps_redis (b_store b)) \<longrightarrow> ps_live (b_store b') token = None) \<and>
    (b_world b' = b_world b \<or>
     ps_live (b_store b') token = None \<and>
     (\<exists>cx msg. ps_live (b_store b) token = Some cx \<and> cb_message cb = Some msg \<and>
        int (length (kept (download_key (tg_id (cb_from cb))) 3600 (b_limiter b))) < rate_limit_downloads_per_hour (be_settings env) \<and>
        (download_jobs b' = download_jobs b \<or>
         (\<exists>row. is_allowed (be_policy env) (context_extractor_key cx) sp \<and>
            validate_url (mc_bracketed_ok (be_machine env)) (context_url cx) = Inr (row_source_url row) \<and>
            db_requests (w_db (b_world b')) = db_requests (w_db (b_world b)) @ [row] \<and> row_status row = ''pending'' \<and>
            user_row_at (tg_id (cb_from cb)) (row_user_id row) (w_db (b_world b')) \<and>
            download_jobs b' = download_jobs b @ [DownloadArgs (row_id row) (msg_chat_id msg) (msg_id msg)]))))"
proof -
  have "b' = snd (handle_confirm_download env c cb b)" using assms(3) by simp
  note cases = confirm_cases [OF assms(1,2) this]
  show ?thesis
  proof (cases "b_world b' = b_world b")
    case True
    then show ?thesis using cases(3) by blast
  next
    case False
    then obtain cx msg where live: "ps_live (b_store b) token = Some cx" "cb_message cb = Some msg"
        "int (length (kept (download_key (tg_id (cb_from cb))) 3600 (b_limiter b))) < rate_limit_downloads_per_hour (be_settings env)"
      and w: "b_world b' = snd (provide_request_download (be_machine env) (be_policy env) (tg_id (cb_from cb)) (context_url cx) sp
             (context_extractor_key cx) (msg_chat_id msg) (msg_id msg) (b_world b))"
      using cases(4) unfolding confirmed_request_def by blast
    have spent: "ps_live (b_store b') token = None" using cases(2) False by auto
    obtain q where run: "provide_request_download (be_machine env) (be_policy env) (tg_id (cb_from cb)) (context_url cx) sp
             (context_extractor_key cx) (msg_chat_id msg) (msg_id msg) (b_world b) = (q, b_world b')"
      using w by (metis prod.collapse)
    show ?thesis using provide_request_cases [OF run] spent live
      by (auto simp: download_jobs_def world_jobs_def is_download_def split: sum.splits)
  qed
qed

section \<open>Several taps on one card\<close>

lemma dispatch_confirm:
  assumes "data_starts_with CB_CONFIRM_PREFIX cb"
  shows "snd (dispatch env (CallbackUpdate cb) b) = b \<or>
    (\<exists>c. snd (dispatch env (CallbackUpdate cb) b) = snd (handle_confirm_download env c cb b))"
proof -
  obtain d where "cb_data cb = Some d" "prefix ''dl:'' d"
    using assms by (auto simp: data_starts_with_def CB_CONFIRM_PREFIX_def split: option.splits)
  then have route: "route env c (CallbackUpdate cb) = handle_confirm_download env c cb" for c
    by (auto simp: route_def callback_handlers_def data_starts_with_def cb_defs prefix_def)
  have same: "snd (get_locale m u lc) = lc" for m u lc by (rule get_locale_same)
  show ?thesis
    using same [of "be_manager env" "Some (cb_from cb)" "b_locales b"]
    by (auto simp: dispatch_def bindE_def in_locales_def zoom_def update_sender_def route split: prod.split sum.split)
qed

lemma request_rows:
  "length (db_requests (w_db (snd (provide_request_download mc p tid url sp ek chat_id message_id w))))
     \<le> length (db_requests (w_db w)) + 1 \<and>
   length (world_jobs (snd (provide_request_download mc p tid url sp ek chat_id message_id w))) \<le> length (world_jobs w) + 1"
proof -
  obtain r w' where run: "provide_request_download mc p tid url sp ek chat_id message_id w = (r, w')" by fastforce
  show ?thesis using provide_request_cases [OF run] run
    by (auto simp: world_jobs_def is_download_def split: sum.splits)
qed

definition tap_on :: "string \<Rightarrow> tg_callback \<Rightarrow> bool" where
  "tap_on token cb \<longleftrightarrow> data_starts_with CB_CONFIRM_PREFIX cb \<and> fst (parse_confirm_callback (str_or_empty (cb_data cb))) = token"

lemma tap_step:
  fixes b :: bot
  assumes good: "ps_good (b_store b)" and tap: "tap_on token cb" and b': "b' = snd (dispatch env (CallbackUpdate cb) b)"
  shows "ps_good (b_store b')" and "ps_live (b_store b') token \<in> {None, ps_live (b_store b) token}"
    and "b_world b' = b_world b \<or>
      (ps_live (b_store b) token \<noteq> None \<and> ps_live (b_store b') token = None \<and>
       length (download_jobs b') \<le> length (download_jobs b) + 1 \<and>
       length (db_requests (w_db (b_world b'))) \<le> length (db_requests (w_db (b_world b))) + 1)"
proof -
  obtain sp where parse: "parse_confirm_callback (str_or_empty (cb_data cb)) = (token, sp)"
    using tap by (metis prod.collapse tap_on_def)
  have "b' = b \<or> (\<exists>c. b' = snd (handle_confirm_download env c cb b))"
    using dispatch_confirm [of cb env b] tap by (simp add: tap_on_def b')
  then have "ps_good (b_store b') \<and> ps_live (b_store b') token \<in> {None, ps_live (b_store b) token} \<and>
      (b_world b' = b_world b \<or>
      (ps_live (b_store b) token \<noteq> None \<and> ps_live (b_store b') token = None \<and>
       length (download_jobs b') \<le> length (download_jobs b) + 1 \<and>
       length (db_requests (w_db (b_world b'))) \<le> length (db_requests (w_db (b_world b))) + 1))"
  proof (elim disjE exE)
    fix c assume "b' = snd (handle_confirm_download env c cb b)"
    note cases = confirm_cases [OF good parse this]
    show ?thesis using cases(1,2,4) request_rows by (auto simp: download_jobs_def confirmed_request_def)
  qed (use good in simp)
  then show "ps_good (b_store b')" "ps_live (b_store b') token \<in> {None, ps_live (b_store b) token}"
    "b_world b' = b_world b \<or>
      (ps_live (b_store b) token \<noteq> None \<and> ps_live (b_store b') token = None \<and>
       length (download_jobs b') \<le> length (download_jobs b) + 1 \<and>
       length (db_requests (w_db (b_world b'))) \<le> length (db_requests (w_db (b_world b))) + 1)"
    by blast+
qed

definition dispatch_all :: "bot_env \<Rightarrow> update list \<Rightarrow> bot \<Rightarrow> bot" where
  "dispatch_all env us b = fold (\<lambda>u b. snd (dispatch env u b)) us b"

lemma taps_bounded:
  assumes "ps_good (b_store b)" and "list_all (tap_on token) cbs"
  shows "length (download_jobs (dispatch_all env (map CallbackUpdate cbs) b))
      \<le> length (download_jobs b) + (if ps_live (b_store b) token = None then 0 else 1) \<and>
    length (db_requests (w_db (b_world (dispatch_all env (map CallbackUpdate cbs) b))))
      \<le> length (db_requests (w_db (b_world b))) + (if ps_live (b_store b) token = None then 0 else 1)"
  using assms
proof (induction cbs arbitrary: b)
  case (Cons cb cbs)
  let ?b = "snd (dispatch env (CallbackUpdate cb) b)"
  have tap: "tap_on token cb" using Cons.prems(2) by simp
  note step = tap_step [OF Cons.prems(1) tap refl, of env]
  have "list_all (tap_on token) cbs" using Cons.prems(2) by simp
  from Cons.IH [OF step(1) this] have ih: "length (download_jobs (dispatch_all env (map CallbackUpdate (cb # cbs)) b))
      \<le> length (download_jobs ?b) + (if ps_live (b_store ?b) token = None then 0 else 1) \<and>
    length (db_requests (w_db (b_world (dispatch_all env (map CallbackUpdate (cb # cbs)) b))))
      \<le> length (db_requests (w_db (b_world ?b))) + (if ps_live (b_store ?b) token = None then 0 else 1)"
    by (simp add: dispatch_all_def)
  from step(3) show ?case
  proof
    assume "b_world ?b = b_world b"
    then show ?thesis using ih step(2) by (auto simp: download_jobs_def split: if_splits)
  next
    assume "ps_live (b_store b) token \<noteq> None \<and> ps_live (b_store ?b) token = None \<and>
       length (download_jobs ?b) \<le> length (download_jobs b) + 1 \<and>
       length (db_requests (w_db (b_world ?b))) \<le> length (db_requests (w_db (b_world b))) + 1"
    then show ?thesis using ih by auto
  qed
qed (simp add: dispatch_all_def)


section \<open>Operational commands\<close>

text \<open>C14: for everyone who is no admin the operational commands do not exist: whatever the conversation's state,
  the update is consumed, nothing is sent, and no state changes but the log.\<close>

theorem admin_commands_are_silent:
  assumes "list_ex (is_command env msg) ADMIN_COMMANDS" and "\<not> AdminOnly (be_settings env) msg"
  shows "\<exists>l. snd (dispatch env (MessageUpdate msg) b) = b\<lparr>b_log := l\<rparr>"
proof -
  have route: "run_first (message_handlers env c st msg) = handle_admin_command_denied msg" for c st
    using assms by (simp add: message_handlers_def admin_handlers_def)
  have same: "b\<lparr>b_locales := snd (get_locale m u (b_locales b))\<rparr> = b" for m u
    by (simp add: get_locale_same)
  have "\<exists>l. snd (handle_admin_command_denied msg b) = b\<lparr>b_log := l\<rparr>"
    by (auto simp: handle_admin_command_denied_def raiseE_def log_bot_def tellE_def intro: exI [of _ "b_log b"])
  moreover have "\<exists>l. b = b\<lparr>b_log := l\<rparr>" by (rule exI [of _ "b_log b"]) simp
  ultimately show ?thesis
    using same [of "be_manager env" "msg_from msg"]
    by (auto simp: dispatch_def bindE_def in_locales_def zoom_def update_sender_def route_def askE_def route
        split: prod.split sum.split)
qed

section \<open>Refused links\<close>

lemma send_message_done:
  "chat_done (snd (send_message cid t m c)) \<in> {chat_done c, chat_done c @ [SendText cid t m]}"
proof -
  obtain r c' where run: "chat_call (SendText cid t m) c = (r, c')" by fastforce
  show ?thesis using chat_call_cases [OF run] run
    by (auto simp: send_message_def thenE_def bindE_def askE_def tellE_def retE_def split: sum.split)
qed

definition only_told :: "tg_message \<Rightarrow> string \<Rightarrow> bot \<Rightarrow> bot \<Rightarrow> bool" where
  "only_told msg t b b' \<longleftrightarrow> (\<exists>x. b' = b\<lparr>b_chat := x\<rparr> \<and>
     chat_done x \<in> {chat_done (b_chat b), chat_done (b_chat b) @ [SendText (msg_chat_id msg) t NoMarkup]})"

lemma respond_only: "only_told msg t b (snd (respond msg t NoMarkup b))"
proof -
  have "snd (respond msg t NoMarkup b) = b\<lparr>b_chat := snd (send_message (msg_chat_id msg) t NoMarkup (b_chat b))\<rparr>"
    by (simp add: respond_def reply_def in_chat_def zoom_def bindE_def retE_def split_beta split: sum.split)
  then show ?thesis using send_message_done unfolding only_told_def by blast
qed


text \<open>
  The preview command asks neither: it runs whatever the settings allow and whatever the limits say.
\<close>

lemma preview_command_is_unchecked:
  "handle_preview (env\<lparr>be_settings := s\<rparr>) c msg = handle_preview env c msg"
  "b_limiter (snd (handle_preview env c msg b)) = b_limiter b"
proof -
  have same: "preview_use_case (env\<lparr>be_settings := s\<rparr>) = preview_use_case env" by (simp add: preview_use_case_def fun_eq_iff)
  show "handle_preview (env\<lparr>be_settings := s\<rparr>) c msg = handle_preview env c msg" unfolding handle_preview_def same ..
  have "keeps (still t) (handle_preview env c msg)" for t
    unfolding handle_preview_def Let_def by (intro still.outputs preview_keeps keeps_control)
  from still_effect [OF this] show "b_limiter (snd (handle_preview env c msg b)) = b_limiter b" by simp
qed

section \<open>The menu\<close>

definition plain_label :: "(string \<Rightarrow> string option) \<Rightarrow> string \<Rightarrow> bool" where
  "plain_label command label \<longleftrightarrow> label \<noteq> [] \<and> command label = None \<and> \<not> prefix ''/'' label"

text \<open>C16: a tap on the main menu is never taken for a link or a command: rendered in whatever locale, and in
  whatever state the conversation is, the download label starts the flow and the help label answers with help,
  as long as the translations are no commands and differ.\<close>

theorem menu_taps_reach_their_handlers:
  assumes env: "bot_environment s mc l core command = Inr env" and lang: "locale \<in> set SUPPORTED_LOCALES"
    and plain: "plain_label command (core locale BTN_KEY_DOWNLOAD [])" "plain_label command (core locale BTN_KEY_HELP [])"
    and differ: "\<not> button_matches BTN_KEY_DOWNLOAD (collect_button_translations core) (Some (core locale BTN_KEY_HELP []))"
  shows "(msg_text msg = Some (core locale BTN_KEY_DOWNLOAD []) \<longrightarrow> route env c (MessageUpdate msg) = handle_download_reply_button c msg) \<and>
    (msg_text msg = Some (core locale BTN_KEY_HELP []) \<longrightarrow> route env c (MessageUpdate msg) = handle_help_reply_button env c msg)"
proof -
  let ?c = "\<lparr>ctx_core = core, ctx_locale = locale\<rparr>"
  have env_fields: "be_buttons env = collect_button_translations core" "be_command env = command"
    using env by (auto simp: bot_environment_def split: sum.splits)
  have buttons: "button_matches BTN_KEY_DOWNLOAD (be_buttons env) (Some (core locale BTN_KEY_DOWNLOAD []))"
    "button_matches BTN_KEY_HELP (be_buttons env) (Some (core locale BTN_KEY_HELP []))"
    using menu_labels [of ?c None] lang by (auto simp: env_fields main_menu_keyboard_def Let_def)
  have flow: "run_first (message_handlers env c st msg) = run_first (flow_handlers env c st msg)"
    if "msg_text msg = Some label" "label \<in> {core locale BTN_KEY_DOWNLOAD [], core locale BTN_KEY_HELP []}" for label st
  proof -
    note label = that
    have plain_label: "plain_label command label" using plain that(2) by auto
    have "\<not> is_command env msg name" for name
      using plain_label that(1) by (simp add: plain_label_def is_command_def str_or_empty_def env_fields)
    moreover obtain x xs where "label = x # xs" "x \<noteq> CHR ''/''"
      using plain_label by (cases label) (auto simp: plain_label_def prefix_def)
    ultimately show ?thesis
      using that(1) by (simp add: message_handlers_def admin_handlers_def command_handlers_def ADMIN_COMMANDS_def
          text_starts_with_def)
  qed
  have "route env c (MessageUpdate msg) = handle_download_reply_button c msg"
    if "msg_text msg = Some (core locale BTN_KEY_DOWNLOAD [])"
    using flow [OF that] buttons that by (intro ext) (simp add: route_def flow_handlers_def bindE_def askE_def)
  moreover have "route env c (MessageUpdate msg) = handle_help_reply_button env c msg"
    if "msg_text msg = Some (core locale BTN_KEY_HELP [])"
    using flow [OF that] buttons differ that env_fields
    by (intro ext) (simp add: route_def flow_handlers_def bindE_def askE_def)
  ultimately show ?thesis by blast
qed

section \<open>The command for a download\<close>

text \<open>What a preview answers does not depend on the bot's state.\<close>

definition preview_outcome :: "bot_env \<Rightarrow> string \<Rightarrow> exn + media_preview" where
  "preview_outcome env url =
     (case validate_url (mc_bracketed_ok (be_machine env)) url of
        Inl e \<Rightarrow> Inl e
      | Inr u \<Rightarrow> get_preview (mc_spawn_preview (be_machine env)) (cx_preview_timeout_seconds (be_ctx env)) u)"

lemma preview_use_case_eq: "preview_use_case env url b = (preview_outcome env url, b)"
  by (simp add: preview_use_case_def in_world_def zoom_def provide_preview_download_def preview_download_def preview_outcome_def
      world_downloader_def bindE_def liftE_def split: sum.split)

lemma start_download_run:
  "b_world (snd (start_download env c msg tid url status b)) = b_world b \<or>
   (\<exists>p. preview_outcome env url = Inr p \<and> b_world (snd (start_download env c msg tid url status b)) =
      snd (provide_request_download (be_machine env) (be_policy env) tid url (default_video_spec p) (preview_extractor_key p)
        (msg_chat_id msg) status (b_world b)))"
proof (cases "preview_outcome env url")
  case (Inl e)
  let ?m = "if is_unsupported_url_error e then edit_text (msg_chat_id msg) status (bad_url c e) NoMarkup
    else if is_extraction_error e then edit_text (msg_chat_id msg) status (format_download_error (tr c) e) NoMarkup else raiseE e"
  have "\<And>s. keeps (still s) ?m" by (intro still.outputs keeps_control)
  from still_effect [OF this, of b] show ?thesis
    using Inl by (simp add: start_download_def bindE_def attempt_def preview_use_case_eq)
next
  case (Inr p)
  let ?req = "request_use env tid url (default_video_spec p) (preview_extractor_key p) (msg_chat_id msg) status"
  let ?f = "\<lambda>requested. case requested of
                   Inl e \<Rightarrow>
                     if is_unsupported_url_error e then edit_text (msg_chat_id msg) status (bad_url c e) NoMarkup
                     else if e = FormatNotAllowedError \<or> e = DownloadEnqueueError
                          then edit_text (msg_chat_id msg) status (format_download_error (tr c) e) NoMarkup
                     else raiseE e
                 | Inr r \<Rightarrow> log_bot ''download_requested''"
  have "b_world (snd (bindE (attempt ?req) ?f b)) = b_world (snd (?req b))"
    by (rule after_attempt [THEN conjunct1]) (intro still.outputs keeps_control)
  moreover have "start_download env c msg tid url status b = bindE (attempt ?req) ?f b"
    using Inr by (simp add: start_download_def bindE_def [of "attempt (preview_use_case env url)"] attempt_def preview_use_case_eq)
  ultimately show ?thesis using Inr by (simp add: request_use_def in_world_def)
qed

lemma download_cases:
  "b_world (snd (handle_download env c msg b)) = b_world b \<or>
   (\<exists>u cmd argument url p status. msg_from msg = Some u \<and> split_once (str_or_empty (msg_text msg)) = [cmd, argument] \<and>
      check_link env (py_strip argument) = Inr url \<and>
      int (length (kept (download_key (tg_id u)) 3600 (b_limiter b))) < rate_limit_downloads_per_hour (be_settings env) \<and>
      preview_outcome env url = Inr p \<and>
      b_world (snd (handle_download env c msg b)) = snd (provide_request_download (be_machine env) (be_policy env) (tg_id u) url
        (default_video_spec p) (preview_extractor_key p) (msg_chat_id msg) status (b_world b)))"
proof -
  let ?parts = "split_once (str_or_empty (msg_text msg))" and ?limit = "rate_limit_downloads_per_hour (be_settings env)"
  have two: "length xs < 2 \<or> (\<exists>x y. xs = [x, y])" if "xs = (if P then [] else if Q then [w] else [w', r])"
    for xs :: "string list" and P Q w w' r using that by simp
  have parts: "length ?parts < 2 \<or> (\<exists>cmd argument. ?parts = [cmd, argument])"
    using two [OF split_once_def [unfolded Let_def, of "str_or_empty (msg_text msg)"]] by blast
  have told: "b_world (snd (respond msg t m b)) = b_world b" for t m b
    using still_effect [OF still.keeps_output(2)] by simp
  show ?thesis
  proof (cases "\<exists>u cmd argument url. msg_from msg = Some u \<and> ?parts = [cmd, argument] \<and> check_link env (py_strip argument) = Inr url")
    case False
    have "handle_download env c msg \<in> {retE ()} \<union> range raiseE \<union> {respond msg t m |t m. True}"
    proof (cases "msg_from msg")
      case None
      then show ?thesis by (simp add: handle_download_def)
    next
      case (Some u)
      show ?thesis
      proof (cases "length ?parts < 2")
        case True
        then show ?thesis using Some by (auto simp: handle_download_def)
      next
        case args: False
        then obtain cmd argument where ca: "?parts = [cmd, argument]" using parts by blast
        then obtain e where "check_link env (py_strip argument) = Inl e"
          using False Some by (cases "check_link env (py_strip argument)") auto
        then show ?thesis using Some ca by (cases "is_unsupported_url_error e") (auto simp: handle_download_def)
      qed
    qed
    then have "b_world (snd (handle_download env c msg b)) = b_world b"
      using told by (auto simp: retE_def raiseE_def)
    then show ?thesis by blast
  next
    case True
    then obtain u cmd argument url where ok: "msg_from msg = Some u" "?parts = [cmd, argument]" "check_link env (py_strip argument) = Inr url"
      by blast
    obtain r lim where a: "acquire (download_key (tg_id u)) ?limit 3600 (b_limiter b) = (r, lim)" by fastforce
    let ?b = "b\<lparr>b_limiter := lim\<rparr>"
    have run: "snd (handle_download env c msg b) = ?b" if "r = Inl e" for e
      using a ok that by (simp add: handle_download_def bindE_def acquire_download_def in_limiter_def zoom_def)
    show ?thesis
    proof (cases r)
      case (Inl e)
      then show ?thesis by (simp add: run)
    next
      case (Inr v)
      have run: "handle_download env c msg b = (if \<not> rl_allowed v
          then thenE (log_bot ''download_rate_limited'') (respond msg (format_retry_after (tr c) (rl_retry_after v)) NoMarkup)
          else bindE (reply msg (tr c ''download-started'' []) NoMarkup) (start_download env c msg (tg_id u) url)) ?b"
        using a ok Inr by (simp add: handle_download_def bindE_def acquire_download_def in_limiter_def zoom_def)
      show ?thesis
      proof (cases "rl_allowed v")
        case False
        have "\<And>s t m. keeps (still s) (thenE (log_bot ''download_rate_limited'') (respond msg t m))"
          by (intro still.outputs keeps_control)
        from still_effect [OF this] show ?thesis using False by (simp add: run)
      next
        case True
        obtain r1 b1 where rep: "reply msg (tr c ''download-started'' []) NoMarkup ?b = (r1, b1)" by fastforce
        have b1: "b_world b1 = b_world b"
          using still_effect [OF still.keeps_output(1), of msg "tr c ''download-started'' []" NoMarkup ?b] rep by simp
        show ?thesis
        proof (cases r1)
          case (Inl e)
          then show ?thesis using True rep b1 by (simp add: run bindE_def)
        next
          case (Inr status)
          then show ?thesis
            using True rep b1 ok acquire_granted [OF a [unfolded \<open>r = Inr v\<close>] True] start_download_run [of env c msg "tg_id u" url status b1]
            by (auto simp: run bindE_def [of "reply msg (tr c ''download-started'' []) NoMarkup"])
        qed
      qed
    qed
  qed
qed

text \<open>C10: the command is no way around the checks: if \<open>/download\<close> changes the database or the queue at all, the
  link passed the allowlist, the sender's hour had a free slot and a preview told where the link leads; and a
  job is enqueued only for the default format of that preview, if the policy allows it for that source.\<close>

theorem download_command_is_checked:
  assumes "handle_download env c msg b = (r, b')"
  shows "b_world b' = b_world b \<or>
   (\<exists>u cmd argument url p. msg_from msg = Some u \<and> split_once (str_or_empty (msg_text msg)) = [cmd, argument] \<and>
      check_link env (py_strip argument) = Inr url \<and>
      int (length (kept (download_key (tg_id u)) 3600 (b_limiter b))) < rate_limit_downloads_per_hour (be_settings env) \<and>
      preview_outcome env url = Inr p \<and>
      (download_jobs b' = download_jobs b \<or>
       (\<exists>row status. is_allowed (be_policy env) (preview_extractor_key p) (default_video_spec p) \<and>
          db_requests (w_db (b_world b')) = db_requests (w_db (b_world b)) @ [row] \<and> row_status row = ''pending'' \<and>
          validate_url (mc_bracketed_ok (be_machine env)) url = Inr (row_source_url row) \<and>
          user_row_at (tg_id u) (row_user_id row) (w_db (b_world b')) \<and>
          download_jobs b' = download_jobs b @ [DownloadArgs (row_id row) (msg_chat_id msg) status])))"
proof -
  have b': "b' = snd (handle_download env c msg b)" using assms by simp
  show ?thesis
  proof (cases "b_world b' = b_world b")
    case False
    then obtain u cmd argument url p status where ok: "msg_from msg = Some u"
        "split_once (str_or_empty (msg_text msg)) = [cmd, argument]" "check_link env (py_strip argument) = Inr url"
        "int (length (kept (download_key (tg_id u)) 3600 (b_limiter b))) < rate_limit_downloads_per_hour (be_settings env)"
        "preview_outcome env url = Inr p"
      and w: "b_world b' = snd (provide_request_download (be_machine env) (be_policy env) (tg_id u) url
        (default_video_spec p) (preview_extractor_key p) (msg_chat_id msg) status (b_world b))"
      using download_cases [of env c msg b] unfolding b' by blast
    obtain q where run: "provide_request_download (be_machine env) (be_policy env) (tg_id u) url
        (default_video_spec p) (preview_extractor_key p) (msg_chat_id msg) status (b_world b) = (q, b_world b')"
      using w by (metis prod.collapse)
    show ?thesis using provide_request_cases [OF run] ok
      by (auto simp: download_jobs_def world_jobs_def is_download_def split: sum.splits)
  qed simp
qed

section \<open>The two steps of a card\<close>

lemma chat_call_done: "chat_done (snd (chat_call a ch)) \<in> {chat_done ch, chat_done ch @ [a]}"
proof -
  obtain r c' where "chat_call a ch = (r, c')" by fastforce
  from chat_call_cases [OF this] this show ?thesis by auto
qed

text \<open>Swapping a card's markup, the common shape of the two handlers.\<close>

definition swap_markup :: "i18n_context \<Rightarrow> tg_callback \<Rightarrow> string \<Rightarrow> (preview_context \<Rightarrow> keyboard) \<Rightarrow> unit bio" where
  "swap_markup c cb token markup_of =
     bindE (in_store (ps_get token)) (\<lambda>found. case found of
         None \<Rightarrow> stale_preview c
       | Some cx \<Rightarrow> thenE (on_card cb (\<lambda>msg. edit_reply_markup msg (markup_of cx))) (answer_callback None False))"

definition new_actions :: "bot \<Rightarrow> bot \<Rightarrow> bot_action list" where
  "new_actions b b' = drop (length (chat_done (b_chat b))) (chat_done (b_chat b'))"

lemma swap_markup_effect:
  fixes b :: bot
  assumes "ps_good (b_store b)" and b': "b' = snd (swap_markup c cb token markup_of b)"
  shows "b_world b' = b_world b \<and> b_limiter b' = b_limiter b \<and> ps_live (b_store b') = ps_live (b_store b) \<and>
    (\<forall>cid mid k. EditMarkup cid mid k \<in> set (new_actions b b') \<longrightarrow>
       (\<exists>cx. ps_live (b_store b) token = Some cx \<and> k = markup_of cx))"
proof -
  obtain g st where get: "ps_get token (b_store b) = (g, st)" by fastforce
  note law = redis_store.get_law [OF assms(1) get]
  then have st: "ps_live st = ps_live (b_store b)" by blast
  let ?b = "b\<lparr>b_store := st\<rparr>"
  have answer: "\<exists>x. snd (answer_callback t al b0) = b0\<lparr>b_chat := x\<rparr> \<and>
      chat_done x \<in> {chat_done (b_chat b0), chat_done (b_chat b0) @ [AnswerCallback t al]}" for t al and b0 :: bot
    using chat_call_done by (auto simp: answer_callback_def in_chat_def)
  consider (raised) e where "g = Inl e" | (missing) "g = Inr None" "ps_live (b_store b) token = None"
    | (found) cx where "g = Inr (Some cx)" "ps_live (b_store b) token = Some cx"
    using law by (cases "ps_live (b_store b) token") auto
  then show ?thesis
  proof cases
    case raised
    then have "b' = ?b" using get by (simp add: b' swap_markup_def bindE_def in_store_def zoom_def)
    then show ?thesis by (simp add: st new_actions_def)
  next
    case missing
    then have "b' = snd (stale_preview c ?b)"
      using get by (simp add: b' swap_markup_def bindE_def in_store_def zoom_def)
    then show ?thesis using answer [of "Some (tr c ''flow-preview-stale'' [])" True ?b]
      by (auto simp: stale_preview_def new_actions_def st)
  next
    case (found cx)
    let ?show = "on_card cb (\<lambda>msg. edit_reply_markup msg (markup_of cx))"
    obtain r b1 where run: "?show ?b = (r, b1)" by fastforce
    have b': "b' = (case r of Inl e \<Rightarrow> b1 | Inr _ \<Rightarrow> snd (answer_callback None False b1))"
      using get found run by (simp add: b' swap_markup_def bindE_def thenE_def in_store_def zoom_def split: sum.split)
    have "\<exists>x new. b1 = ?b\<lparr>b_chat := x\<rparr> \<and> chat_done x = chat_done (b_chat b) @ new \<and>
        (\<forall>cid mid k. EditMarkup cid mid k \<in> set new \<longrightarrow> k = markup_of cx)"
    proof (cases "cb_message cb")
      case None
      then have "b1 = ?b" using run by (simp add: on_card_def retE_def)
      also have "?b = ?b\<lparr>b_chat := b_chat b\<rparr>" by simp
      finally show ?thesis by (intro exI [of _ "b_chat b"] exI [of _ "[]"]) simp
    next
      case (Some msg)
      let ?x = "snd (chat_call (EditMarkup (msg_chat_id msg) (msg_id msg) (markup_of cx)) (b_chat b))"
      have "b1 = ?b\<lparr>b_chat := ?x\<rparr>"
        using run Some by (simp add: on_card_def edit_reply_markup_def in_chat_def zoom_def split: prod.splits)
      then show ?thesis
        using chat_call_done [of "EditMarkup (msg_chat_id msg) (msg_id msg) (markup_of cx)" "b_chat b"]
        by (intro exI [of _ ?x]) auto
    qed
    then obtain x new where b1: "b1 = ?b\<lparr>b_chat := x\<rparr>" "chat_done x = chat_done (b_chat b) @ new"
        "\<forall>cid mid k. EditMarkup cid mid k \<in> set new \<longrightarrow> k = markup_of cx" by blast
    then show ?thesis using found answer [of None False b1] b'
      by (cases r) (auto simp: new_actions_def st)
  qed
qed

lemma picker_buttons:
  assumes "btn \<in> set (buttons (picker_markup env c token cx)) \<union>
             set (buttons (preview_confirm_keyboard (tr c) token (choices_of env cx)))"
    and "prefix CB_CONFIRM_PREFIX (callback_data btn)"
  shows "\<exists>sp. parse_confirm_callback (callback_data btn) = (token, sp) \<and>
     is_allowed (be_policy env) (context_extractor_key cx) sp"
proof -
  have "btn \<in> set (card_buttons (tr c) token (choices_of env cx) (context_max_side cx))"
    using assms(1) by (auto simp: picker_markup_def card_buttons_def Let_def split: if_splits)
  from card_button_cases [OF this [unfolded choices_of_def]] show ?thesis
    using assms(2) by (auto simp: parse_confirm cb_defs)
qed

text \<open>C17: opening the quality picker and going back consume nothing, so the user can change his mind until the
  preview expires; and each tap renders the buttons anew from the policy of the moment: whatever the card showed
  before, every confirm button it shows then carries this card's token and a format that is allowed now.\<close>

theorem picker_is_live_and_free:
  assumes "ps_good (b_store b)"
    and "(token, b') \<in> {(payload_after CB_QUALITY_PREFIX cb, snd (handle_open_quality_picker env c cb b)),
                        (payload_after CB_BACK_PREFIX cb, snd (handle_back_to_format env c cb b))}"
  shows "b_world b' = b_world b \<and> b_limiter b' = b_limiter b \<and> ps_live (b_store b') = ps_live (b_store b) \<and>
    (\<forall>cid mid k btn. EditMarkup cid mid k \<in> set (new_actions b b') \<and> btn \<in> set (buttons k) \<and>
         prefix CB_CONFIRM_PREFIX (callback_data btn) \<longrightarrow>
       (\<exists>cx sp. ps_live (b_store b) token = Some cx \<and> parse_confirm_callback (callback_data btn) = (token, sp) \<and>
          is_allowed (be_policy env) (context_extractor_key cx) sp))"
proof -
  have forms: "handle_open_quality_picker env c cb =
      swap_markup c cb (payload_after CB_QUALITY_PREFIX cb) (picker_markup env c (payload_after CB_QUALITY_PREFIX cb))"
    "handle_back_to_format env c cb =
      swap_markup c cb (payload_after CB_BACK_PREFIX cb)
        (\<lambda>cx. preview_confirm_keyboard (tr c) (payload_after CB_BACK_PREFIX cb) (choices_of env cx))"
    by (simp_all add: handle_open_quality_picker_def handle_back_to_format_def swap_markup_def Let_def)
  have "b' = snd (swap_markup c cb token (picker_markup env c token) b) \<or>
      b' = snd (swap_markup c cb token (\<lambda>cx. preview_confirm_keyboard (tr c) token (choices_of env cx)) b)"
    using assms(2) forms by auto
  then show ?thesis
    using swap_markup_effect [OF assms(1), of b' c cb token] picker_buttons by (elim disjE) blast+
qed

section \<open>Downloads per hour\<close>

text \<open>C3: nobody starts more downloads than configured: through whatever mixture of commands, links and buttons a
  user goes, whatever the other users, the worker and the clock do in between, the updates of one user, handled one after
  another, enqueue at most \<open>rate_limit_downloads_per_hour\<close> downloads in any window of an hour.\<close>

theorem downloads_per_hour_are_bounded:
  assumes "sorted (map fst us)" and "0 \<le> rate_limit_downloads_per_hour (be_settings env)"
    and "stored (download_key tid) (b_limiter b) = []" and "\<forall>m \<in> (fst \<circ> snd) ` set us. keeps_hour tid m"
  shows "int (length (filter (in_window 3600 x) (download_times env tid us b))) \<le> rate_limit_downloads_per_hour (be_settings env)"
proof (cases us)
  case (Cons u us')
  have "key_ok (download_key tid) (rate_limit_downloads_per_hour (be_settings env)) 3600 (fst u) (b_limiter b)"
    using assms(3) by (simp add: key_ok_def)
  moreover have "sorted (fst u # map fst us)" using assms(1) Cons by simp
  ultimately show ?thesis using download_times_window [of tid env "fst u" b us x] assms by simp
qed (use assms in simp)

section \<open>Witnesses\<close>

text \<open>A bot with two cards in the store, one download per hour, and a user who is no admin.\<close>

definition example_card :: preview_context where
  "example_card = \<lparr>context_url = ''https://youtu.be/x'', context_extractor_key = ''Youtube'', context_max_side = Some 1080\<rparr>"

definition example_core :: "string \<Rightarrow> i18n" where
  "example_core = (\<lambda>l k args. l @ k)"

definition example_env :: bot_env where
  "example_env =
     \<lparr>be_settings = (default_settings ''123:abc'')\<lparr>rate_limit_downloads_per_hour := 1\<rparr>, be_policy = example_policy,
      be_machine = example_machine dying_child, be_ctx = example_ctx, be_core = example_core,
      be_buttons = collect_button_translations example_core, be_manager = create_i18n_manager True,
      be_command = (\<lambda>t. if t = ''/health'' then Some ''health'' else None)\<rparr>"

definition example_bot :: bot where
  "example_bot =
     \<lparr>b_world = example_world None, b_chat = \<lparr>chat_done = [], chat_calls = 0, chat_answer = (\<lambda>_. None), chat_next_message = 70\<rparr>,
      b_store = \<lparr>ps_entries = (\<lambda>k. if k = ''umd:preview:t1'' \<or> k = ''umd:preview:t2''
                                 then Some (Decoded (JsonText (encode_context example_card)), 600) else None),
                 ps_now = 0, ps_uuid = 5, ps_log = [], ps_redis = reliable_link\<rparr>,
      b_limiter = fresh_limiter, b_locales = \<lparr>lc_values = (\<lambda>_. None), lc_down = None\<rparr>,
      b_strings = \<lparr>rs_values = (\<lambda>_. None), rs_now_isoformat = ''2024''\<rparr>, b_fsm = (\<lambda>_. None),
      b_postgres = \<lparr>pr_connect = None, pr_query = None, pr_close = None\<rparr>,
      b_redis = \<lparr>pr_connect = None, pr_query = None, pr_close = None\<rparr>, b_log = []\<rparr>"

definition example_message :: "string \<Rightarrow> tg_message" where
  "example_message t = \<lparr>msg_chat_id = 100, msg_id = 60, msg_text = Some t, msg_caption = None,
     msg_from = Some \<lparr>tg_id = 100, tg_language_code = Some ''en''\<rparr>\<rparr>"

definition example_tap :: "string \<Rightarrow> tg_callback" where
  "example_tap payload = \<lparr>cb_from = \<lparr>tg_id = 100, tg_language_code = Some ''en''\<rparr>, cb_data = Some payload,
     cb_message = Some (example_message ''card''), cb_chat_id = 100\<rparr>"

lemmas example_bot_defs = example_bot_def example_env_def example_message_def example_tap_def example_core_def

lemma example_tap_enqueues:
  "length (download_jobs (snd (dispatch example_env (CallbackUpdate (example_tap ''dl:t1:v720'')) example_bot))) = 1"
  by code_simp

abbreviation example_context :: i18n_context where
  "example_context \<equiv> \<lparr>ctx_core = example_core, ctx_locale = ''en''\<rparr>"

lemma example_confirm:
  "length (download_jobs (snd (handle_confirm_download example_env example_context (example_tap ''dl:t1:v720'') example_bot))) = 1"
  by code_simp

lemma example_bot_good: "ps_good (b_store example_bot)"
  by (simp add: ps_good_def example_bot_def)

lemma example_bot_idle: "download_jobs example_bot = []"
  by (simp add: download_jobs_def world_jobs_def example_bot_def example_world_def)

lemma example_taps: "tap_on ''t1'' (example_tap ''dl:t1:v720'')" "tap_on ''t1'' (example_tap ''dl:t1:a'')"
  "parse_confirm_callback (str_or_empty (cb_data (example_tap ''dl:t1:v720''))) = (''t1'', VideoSpec P720)"
  by code_simp+

text \<open>A child that reports a video of Youtube after a second.\<close>

definition preview_child :: child where
  "preview_child = \<lparr>ch_exit = Some 1, ch_exit_code = 0, ch_progress = [],
     ch_result = Some (1, (''ok'', PyObj (PDict [(''title'', PStr ''t''), (''media_type'', PStr ''video''),
       (''extractor_key'', PStr ''Youtube''), (''max_compatible_short_side'', PInt 1080)]))),
     ch_result_fits = True, ch_sigterm = None\<rparr>"

definition preview_env :: bot_env where
  "preview_env = example_env\<lparr>be_machine := (example_machine dying_child)\<lparr>mc_spawn_preview := (\<lambda>_. preview_child)\<rparr>\<rparr>"

lemma example_preview: "map_sum id preview_extractor_key (preview_outcome preview_env ''https://youtu.be/x'') = Inr ''Youtube''"
  by code_simp

lemma example_download:
  "length (download_jobs (snd (handle_download preview_env example_context (example_message ''/download https://youtu.be/x'') example_bot))) = 1"
  by code_simp

lemma example_refused:
  "(case check_link example_env ''https://a.b'' of Inl (UnsupportedURLError r) \<Rightarrow> True | _ \<Rightarrow> False)"
  "split_once ''/download https://a.b'' = [''/download'', ''https://a.b'']" "py_strip ''https://a.b'' = ''https://a.b''"
  by code_simp+


theorem download_command_is_checked_witness:
  "\<exists>p row. preview_outcome preview_env ''https://youtu.be/x'' = Inr p \<and> is_allowed example_policy ''Youtube'' (default_video_spec p) \<and>
     db_requests (w_db (b_world (snd (handle_download preview_env example_context
       (example_message ''/download https://youtu.be/x'') example_bot)))) = db_requests example_db @ [row]"
proof -
  let ?b' = "snd (handle_download preview_env example_context (example_message ''/download https://youtu.be/x'') example_bot)"
  have parts: "split_once (str_or_empty (msg_text (example_message ''/download https://youtu.be/x''))) = [''/download'', ''https://youtu.be/x'']"
    and link: "check_link preview_env (py_strip ''https://youtu.be/x'') = Inr ''https://youtu.be/x''" by code_simp+
  obtain p where p: "preview_outcome preview_env ''https://youtu.be/x'' = Inr p" "preview_extractor_key p = ''Youtube''"
    using example_preview by (cases "preview_outcome preview_env ''https://youtu.be/x''") auto
  have jobs: "download_jobs ?b' \<noteq> download_jobs example_bot"
    using example_download unfolding example_bot_idle by auto
  then have "b_world ?b' \<noteq> b_world example_bot" by (auto simp: download_jobs_def)
  with download_command_is_checked [OF surjective_pairing, of preview_env example_context "example_message ''/download https://youtu.be/x''" example_bot]
    jobs obtain cmd argument url p' row where got: "[''/download'', ''https://youtu.be/x''] = [cmd, argument]"
      "check_link preview_env (py_strip argument) = Inr url" "preview_outcome preview_env url = Inr p'"
      "is_allowed (be_policy preview_env) (preview_extractor_key p') (default_video_spec p')"
      "db_requests (w_db (b_world ?b')) = db_requests (w_db (b_world example_bot)) @ [row]"
    unfolding parts by blast
  have "url = ''https://youtu.be/x''" using got(1,2) link by simp
  moreover from this have "p' = p" using got(3) p(1) by simp
  ultimately show ?thesis using got(4,5) p
    by (auto simp: preview_env_def example_env_def example_bot_def example_world_def)
qed

theorem menu_taps_reach_their_handlers_witness:
  "\<exists>env. bot_environment (default_settings ''123:abc'') (example_machine dying_child) (cx_localizer example_ctx) example_core (\<lambda>_. None) = Inr env \<and>
     route env example_context (MessageUpdate (example_message ''rubtn-download'')) =
       handle_download_reply_button example_context (example_message ''rubtn-download'')"
proof -
  obtain env where env: "bot_environment (default_settings ''123:abc'') (example_machine dying_child) (cx_localizer example_ctx)
      example_core (\<lambda>_. None) = Inr env"
    by (simp add: bot_environment_def bot_policy_def default_settings_def)
  have "\<not> button_matches BTN_KEY_DOWNLOAD (collect_button_translations example_core) (Some (example_core ''ru'' BTN_KEY_HELP []))"
    by code_simp
  from menu_taps_reach_their_handlers [OF env _ _ _ this, of "example_message ''rubtn-download''" example_context]
  show ?thesis using env
    by (auto simp: plain_label_def example_core_def BTN_KEY_DOWNLOAD_def BTN_KEY_HELP_def SUPPORTED_LOCALES_def example_message_def)
qed

theorem picker_is_live_and_free_witness:
  "ps_live (b_store (snd (handle_open_quality_picker example_env example_context (example_tap ''q:t1'') example_bot))) =
     ps_live (b_store example_bot)"
  using picker_is_live_and_free [OF example_bot_good, of "payload_after CB_QUALITY_PREFIX (example_tap ''q:t1'')"
      "snd (handle_open_quality_picker example_env example_context (example_tap ''q:t1'') example_bot)" "example_tap ''q:t1''"
      example_env example_context] by simp

theorem confirmed_download_is_entitled_witness:
  "\<exists>row. is_allowed example_policy ''Youtube'' (VideoSpec P720) \<and> row_status row = ''pending'' \<and>
     db_requests (w_db (b_world (snd (handle_confirm_download example_env example_context (example_tap ''dl:t1:v720'') example_bot))))
       = db_requests example_db @ [row]"
proof -
  let ?h = "handle_confirm_download example_env example_context (example_tap ''dl:t1:v720'')"
  have live: "ps_live (b_store example_bot) ''t1'' = Some example_card" by code_simp
  have jobs: "download_jobs (snd (?h example_bot)) \<noteq> download_jobs example_bot"
    using example_confirm unfolding example_bot_idle by auto
  then have "b_world (snd (?h example_bot)) \<noteq> b_world example_bot" by (auto simp: download_jobs_def)
  with confirmed_download_is_entitled [OF example_bot_good example_taps(3) surjective_pairing, of example_env example_context]
    jobs live show ?thesis by (auto simp: example_card_def example_env_def example_bot_def example_world_def)
qed


theorem admin_commands_are_silent_witness:
  "\<exists>l. snd (dispatch example_env (MessageUpdate (example_message ''/health'')) example_bot) = example_bot\<lparr>b_log := l\<rparr>"
  by (rule admin_commands_are_silent)
    (simp_all add: ADMIN_COMMANDS_def is_command_def str_or_empty_def AdminOnly_def is_admin_def default_settings_def
      example_message_def example_env_def)

theorem downloads_per_hour_are_bounded_witness:
  "length (filter (in_window 3600 1) (download_times example_env 100
     [(0, id, CallbackUpdate (example_tap ''dl:t1:v720'')), (1, id, CallbackUpdate (example_tap ''dl:t2:v720''))] example_bot)) \<le> 1"
  using downloads_per_hour_are_bounded [of
      "[(0, id, CallbackUpdate (example_tap ''dl:t1:v720'')), (1, id, CallbackUpdate (example_tap ''dl:t2:v720''))]"
      example_env 100 example_bot 1]
  by (simp add: example_env_def stored_def example_bot_def fresh_limiter_def keeps_hour_def own_hour_def
      del: download_times.simps)

end
