(* ===== verification/Migrations.thy ===== *)
theory Migrations
  imports DatabaseFacts
begin

text \<open>
  The schema migrations (\<open>infra/alembic/versions\<close>) and the schema the ORM models declare
  (\<open>src/infrastructure/database/models.py\<close>), over the DDL statements they use.  A table is its columns, checks,
  indexes and rows; a row maps column names to values.  Primary keys, uniqueness and references are kept as
  declarations: no migration inserts rows.
\<close>

section \<open>Tables\<close>

datatype sql_value = SqlNull | SqlText string | SqlInt int | SqlBool bool | SqlTime time | SqlUuid uuid

datatype sql_type = UuidType | BigIntType | BoolType | TimestampType | Varchar nat

datatype sql_default = NoDefault | DefaultValue sql_value | DefaultNow

record column =
  col_name :: string
  col_type :: sql_type
  col_nullable :: bool
  col_default :: sql_default
  col_primary_key :: bool
  col_unique :: bool
  col_references :: "string option"

type_synonym sql_row = "string \<Rightarrow> sql_value option"

datatype sql_expr = Literal sql_value | CaseOf string sql_value sql_expr sql_expr | Coalesce string string

datatype sql_cond = EqText string string | IsNotNull string | Agree sql_cond sql_cond | InTexts string "string list" | Always

record sql_index =
  index_name :: string
  index_columns :: "string list"
  index_where :: "sql_cond option"

record sql_table =
  tbl_columns :: "column list"
  tbl_checks :: "(string \<times> sql_cond) list"
  tbl_indexes :: "sql_index list"
  tbl_rows :: "sql_row list"

type_synonym sql_schema = "string \<Rightarrow> sql_table option"

definition row_value :: "sql_row \<Rightarrow> string \<Rightarrow> sql_value" where
  "row_value r c = (case r c of None \<Rightarrow> SqlNull | Some v \<Rightarrow> v)"

text \<open>SQL's three-valued conditions: \<open>None\<close> is unknown.\<close>

fun eval_cond :: "sql_row \<Rightarrow> sql_cond \<Rightarrow> bool option" where
  "eval_cond r (EqText c t) = (case row_value r c of SqlNull \<Rightarrow> None | SqlText u \<Rightarrow> Some (u = t) | _ \<Rightarrow> Some False)"
| "eval_cond r (IsNotNull c) = Some (row_value r c \<noteq> SqlNull)"
| "eval_cond r (Agree a b) = (case (eval_cond r a, eval_cond r b) of (Some x, Some y) \<Rightarrow> Some (x = y) | _ \<Rightarrow> None)"
| "eval_cond r (InTexts c ts) = (case row_value r c of SqlNull \<Rightarrow> None | SqlText u \<Rightarrow> Some (u \<in> set ts) | _ \<Rightarrow> Some False)"
| "eval_cond r Always = Some True"

fun eval_expr :: "sql_row \<Rightarrow> sql_expr \<Rightarrow> sql_value" where
  "eval_expr r (Literal v) = v"
| "eval_expr r (CaseOf c v a b) = (if row_value r c = v \<and> v \<noteq> SqlNull then eval_expr r a else eval_expr r b)"
| "eval_expr r (Coalesce a b) = (if row_value r a \<noteq> SqlNull then row_value r a else row_value r b)"

fun fits_type :: "sql_type \<Rightarrow> sql_value \<Rightarrow> bool" where
  "fits_type _ SqlNull = True"
| "fits_type (Varchar n) (SqlText t) = (length t \<le> n)"
| "fits_type UuidType (SqlUuid _) = True"
| "fits_type BigIntType (SqlInt i) = (- (2 ^ 63) \<le> i \<and> i < 2 ^ 63)"
| "fits_type BoolType (SqlBool _) = True"
| "fits_type TimestampType (SqlTime _) = True"
| "fits_type _ _ = False"

definition column_admits :: "column \<Rightarrow> sql_value \<Rightarrow> bool" where
  "column_admits c v \<longleftrightarrow> fits_type (col_type c) v \<and> (col_nullable c \<or> v \<noteq> SqlNull)"

definition find_column :: "sql_table \<Rightarrow> string \<Rightarrow> column option" where
  "find_column t c = find (\<lambda>x. col_name x = c) (tbl_columns t)"

text \<open>A row of a table: a value for every column and no other, and no check is false.\<close>

definition row_conforms :: "sql_table \<Rightarrow> sql_row \<Rightarrow> bool" where
  "row_conforms t r \<longleftrightarrow> (\<forall>c \<in> set (tbl_columns t). r (col_name c) \<noteq> None \<and> column_admits c (row_value r (col_name c))) \<and>
     dom r \<subseteq> col_name ` set (tbl_columns t) \<and> (\<forall>(_, e) \<in> set (tbl_checks t). eval_cond r e \<noteq> Some False)"

section \<open>Statements\<close>

datatype ddl =
    CreateTable string "column list"
  | DropTable string
  | AddColumn string column
  | DropColumn string string
  | UpdateRows string string sql_expr sql_cond
  | AddCheck string string sql_cond
  | DropCheck string string
  | SetDefault string string sql_default
  | SetNotNull string string
  | CreateIndex string sql_index
  | DropIndex string string

definition sql_error :: "string \<Rightarrow> exn + 'a" where
  "sql_error m = Inl (LibraryError ''ProgrammingError'' m)"

definition default_value :: "time \<Rightarrow> sql_default \<Rightarrow> sql_value" where
  "default_value now d = (case d of NoDefault \<Rightarrow> SqlNull | DefaultValue v \<Rightarrow> v | DefaultNow \<Rightarrow> SqlTime now)"

fun cond_columns :: "sql_cond \<Rightarrow> string list" where
  "cond_columns (EqText c _) = [c]"
| "cond_columns (IsNotNull c) = [c]"
| "cond_columns (Agree a b) = cond_columns a @ cond_columns b"
| "cond_columns (InTexts c _) = [c]"
| "cond_columns Always = []"

text \<open>Existing rows get the default; PostgreSQL refuses a column that may not be null but would be.\<close>

definition add_column :: "time \<Rightarrow> column \<Rightarrow> sql_table \<Rightarrow> exn + sql_table" where
  "add_column now c t =
     (let v = default_value now (col_default c)
      in if find_column t (col_name c) \<noteq> None then sql_error ''column already exists''
         else if \<not> column_admits c v \<and> tbl_rows t \<noteq> [] then sql_error ''column contains null values''
         else Inr (t\<lparr>tbl_columns := tbl_columns t @ [c], tbl_rows := map (\<lambda>r. r(col_name c \<mapsto> v)) (tbl_rows t)\<rparr>))"

text \<open>With a column go the checks and indexes that mention it.\<close>

definition drop_column :: "string \<Rightarrow> sql_table \<Rightarrow> exn + sql_table" where
  "drop_column c t =
     (if find_column t c = None then sql_error ''column does not exist''
      else Inr (t\<lparr>tbl_columns := filter (\<lambda>x. col_name x \<noteq> c) (tbl_columns t),
                  tbl_checks := filter (\<lambda>(_, e). c \<notin> set (cond_columns e)) (tbl_checks t),
                  tbl_indexes := filter (\<lambda>i. c \<notin> set (index_columns i)) (tbl_indexes t),
                  tbl_rows := map (\<lambda>r. r(c := None)) (tbl_rows t)\<rparr>))"

definition update_rows :: "string \<Rightarrow> sql_expr \<Rightarrow> sql_cond \<Rightarrow> sql_table \<Rightarrow> exn + sql_table" where
  "update_rows c e cond t =
     (case find_column t c of
        None \<Rightarrow> sql_error ''column does not exist''
      | Some col \<Rightarrow>
          let rows = map (\<lambda>r. if eval_cond r cond = Some True then r(c \<mapsto> eval_expr r e) else r) (tbl_rows t)
          in if list_all (\<lambda>r. column_admits col (row_value r c) \<and> list_all (\<lambda>(_, k). eval_cond r k \<noteq> Some False) (tbl_checks t)) rows
             then Inr (t\<lparr>tbl_rows := rows\<rparr>) else sql_error ''row violates a constraint'')"

definition add_check :: "string \<Rightarrow> sql_cond \<Rightarrow> sql_table \<Rightarrow> exn + sql_table" where
  "add_check name e t =
     (if list_all (\<lambda>r. eval_cond r e \<noteq> Some False) (tbl_rows t) then Inr (t\<lparr>tbl_checks := tbl_checks t @ [(name, e)]\<rparr>)
      else sql_error ''check constraint is violated by some row'')"

definition drop_check :: "string \<Rightarrow> sql_table \<Rightarrow> exn + sql_table" where
  "drop_check name t =
     (if name \<notin> fst ` set (tbl_checks t) then sql_error ''constraint does not exist''
      else Inr (t\<lparr>tbl_checks := filter (\<lambda>(n, _). n \<noteq> name) (tbl_checks t)\<rparr>))"

definition alter_column :: "string \<Rightarrow> (column \<Rightarrow> column) \<Rightarrow> sql_table \<Rightarrow> exn + sql_table" where
  "alter_column c f t =
     (if find_column t c = None then sql_error ''column does not exist''
      else Inr (t\<lparr>tbl_columns := map (\<lambda>x. if col_name x = c then f x else x) (tbl_columns t)\<rparr>))"

definition set_not_null :: "string \<Rightarrow> sql_table \<Rightarrow> exn + sql_table" where
  "set_not_null c t =
     (if list_ex (\<lambda>r. row_value r c = SqlNull) (tbl_rows t) then sql_error ''column contains null values''
      else alter_column c (\<lambda>x. x\<lparr>col_nullable := False\<rparr>) t)"

definition on_table :: "string \<Rightarrow> (sql_table \<Rightarrow> exn + sql_table) \<Rightarrow> sql_schema \<Rightarrow> exn + sql_schema" where
  "on_table name f s =
     (case s name of
        None \<Rightarrow> sql_error ''relation does not exist''
      | Some t \<Rightarrow> (case f t of Inl e \<Rightarrow> Inl e | Inr t' \<Rightarrow> Inr (s(name \<mapsto> t'))))"

fun run_ddl :: "time \<Rightarrow> ddl \<Rightarrow> sql_schema \<Rightarrow> exn + sql_schema" where
  "run_ddl now (CreateTable name cols) s =
     (if s name \<noteq> None then sql_error ''relation already exists''
      else Inr (s(name \<mapsto> \<lparr>tbl_columns = cols, tbl_checks = [], tbl_indexes = [], tbl_rows = []\<rparr>)))"
| "run_ddl now (DropTable name) s = (if s name = None then sql_error ''relation does not exist'' else Inr (s(name := None)))"
| "run_ddl now (AddColumn name c) s = on_table name (add_column now c) s"
| "run_ddl now (DropColumn name c) s = on_table name (drop_column c) s"
| "run_ddl now (UpdateRows name c e cond) s = on_table name (update_rows c e cond) s"
| "run_ddl now (AddCheck name k e) s = on_table name (add_check k e) s"
| "run_ddl now (DropCheck name k) s = on_table name (drop_check k) s"
| "run_ddl now (SetDefault name c d) s = on_table name (alter_column c (\<lambda>x. x\<lparr>col_default := d\<rparr>)) s"
| "run_ddl now (SetNotNull name c) s = on_table name (set_not_null c) s"
| "run_ddl now (CreateIndex name i) s = on_table name (\<lambda>t. Inr (t\<lparr>tbl_indexes := tbl_indexes t @ [i]\<rparr>)) s"
| "run_ddl now (DropIndex name i) s =
     on_table name (\<lambda>t. if i \<notin> index_name ` set (tbl_indexes t) then sql_error ''index does not exist''
                        else Inr (t\<lparr>tbl_indexes := filter (\<lambda>x. index_name x \<noteq> i) (tbl_indexes t)\<rparr>)) s"

fun run_ddls :: "time \<Rightarrow> ddl list \<Rightarrow> sql_schema \<Rightarrow> exn + sql_schema" where
  "run_ddls now [] s = Inr s"
| "run_ddls now (op # ops) s = (case run_ddl now op s of Inl e \<Rightarrow> Inl e | Inr s' \<Rightarrow> run_ddls now ops s')"

section \<open>The migrations\<close>

definition col :: "string \<Rightarrow> sql_type \<Rightarrow> bool \<Rightarrow> sql_default \<Rightarrow> column" where
  "col name ty nullable d =
     \<lparr>col_name = name, col_type = ty, col_nullable = nullable, col_default = d, col_primary_key = False, col_unique = False,
      col_references = None\<rparr>"

definition index :: "string \<Rightarrow> string list \<Rightarrow> sql_index" where
  "index name cols = \<lparr>index_name = name, index_columns = cols, index_where = None\<rparr>"

definition upgrade_0001 :: "ddl list" where
  "upgrade_0001 =
     [CreateTable ''users''
        [(col ''id'' UuidType False NoDefault)\<lparr>col_primary_key := True\<rparr>,
         (col ''telegram_id'' BigIntType True NoDefault)\<lparr>col_unique := True\<rparr>,
         col ''is_premium'' BoolType False (DefaultValue (SqlBool False)),
         col ''created_at'' TimestampType False DefaultNow],
      CreateIndex ''users'' (index ''ix_users_telegram_id'' [''telegram_id'']),
      CreateTable ''download_requests''
        [(col ''id'' UuidType False NoDefault)\<lparr>col_primary_key := True\<rparr>,
         (col ''user_id'' UuidType False NoDefault)\<lparr>col_references := Some ''users.id''\<rparr>,
         col ''source_url'' (Varchar 2048) False NoDefault,
         col ''media_type'' (Varchar 20) False (DefaultValue (SqlText ''unknown'')),
         col ''status'' (Varchar 20) False (DefaultValue (SqlText ''pending'')),
         col ''created_at'' TimestampType False DefaultNow,
         col ''completed_at'' TimestampType True NoDefault],
      CreateIndex ''download_requests'' (index ''ix_download_requests_user_id'' [''user_id''])]"

definition downgrade_0001 :: "ddl list" where
  "downgrade_0001 =
     [DropIndex ''download_requests'' ''ix_download_requests_user_id'', DropTable ''download_requests'',
      DropIndex ''users'' ''ix_users_telegram_id'', DropTable ''users'']"

definition upgrade_0002 :: "ddl list" where
  "upgrade_0002 = [AddColumn ''users'' (col ''language'' (Varchar 8) True NoDefault)]"

definition downgrade_0002 :: "ddl list" where
  "downgrade_0002 = [DropColumn ''users'' ''language'']"

definition upgrade_0003 :: "ddl list" where
  "upgrade_0003 = [AddColumn ''download_requests'' (col ''format_kind'' (Varchar 20) False (DefaultValue (SqlText ''video'')))]"

definition downgrade_0003 :: "ddl list" where
  "downgrade_0003 = [DropColumn ''download_requests'' ''format_kind'']"

definition upgrade_0004 :: "ddl list" where
  "upgrade_0004 = [AddColumn ''download_requests'' (col ''quality_kind'' (Varchar 16) False (DefaultValue (SqlText ''hd_720'')))]"

definition downgrade_0004 :: "ddl list" where
  "downgrade_0004 = [DropColumn ''download_requests'' ''quality_kind'']"

definition CHECK_NAME :: string where
  "CHECK_NAME = ''ck_download_requests_video_tier_kind''"

text \<open>\<open>(format_kind = 'video') = (video_tier IS NOT NULL)\<close>\<close>

definition tier_kind_condition :: sql_cond where
  "tier_kind_condition = Agree (EqText ''format_kind'' ''video'') (IsNotNull ''video_tier'')"

definition upgrade_0005 :: "ddl list" where
  "upgrade_0005 =
     [AddColumn ''download_requests'' (col ''video_tier'' (Varchar 10) True NoDefault),
      UpdateRows ''download_requests'' ''video_tier''
        (CaseOf ''quality_kind'' (SqlText ''hd_1080'') (Literal (SqlText ''p1080'')) (Literal (SqlText ''p720'')))
        (EqText ''format_kind'' ''video''),
      AddCheck ''download_requests'' CHECK_NAME tier_kind_condition,
      SetDefault ''download_requests'' ''format_kind'' NoDefault,
      DropColumn ''download_requests'' ''quality_kind'']"

definition downgrade_0005 :: "ddl list" where
  "downgrade_0005 =
     [AddColumn ''download_requests'' (col ''quality_kind'' (Varchar 16) False (DefaultValue (SqlText ''hd_720''))),
      UpdateRows ''download_requests'' ''quality_kind'' (Literal (SqlText ''hd_1080'')) (EqText ''video_tier'' ''p1080''),
      DropCheck ''download_requests'' CHECK_NAME,
      SetDefault ''download_requests'' ''format_kind'' (DefaultValue (SqlText ''video'')),
      DropColumn ''download_requests'' ''video_tier'']"

definition INDEX_NAME :: string where
  "INDEX_NAME = ''ix_download_requests_active_updated_at''"

definition upgrade_0006 :: "ddl list" where
  "upgrade_0006 =
     [AddColumn ''download_requests'' (col ''updated_at'' TimestampType True DefaultNow),
      UpdateRows ''download_requests'' ''updated_at'' (Coalesce ''completed_at'' ''created_at'') Always,
      SetNotNull ''download_requests'' ''updated_at'',
      CreateIndex ''download_requests'' \<lparr>index_name = INDEX_NAME, index_columns = [''updated_at''],
        index_where = Some (InTexts ''status'' [''pending'', ''processing''])\<rparr>]"

definition downgrade_0006 :: "ddl list" where
  "downgrade_0006 = [DropIndex ''download_requests'' INDEX_NAME, DropColumn ''download_requests'' ''updated_at'']"

record migration =
  revision :: string
  down_revision :: "string option"
  upgrade :: "ddl list"
  downgrade :: "ddl list"

definition MIGRATIONS :: "migration list" where
  "MIGRATIONS =
     [\<lparr>revision = ''0001_initial'', down_revision = None, upgrade = upgrade_0001, downgrade = downgrade_0001\<rparr>,
      \<lparr>revision = ''0002_user_language'', down_revision = Some ''0001_initial'', upgrade = upgrade_0002, downgrade = downgrade_0002\<rparr>,
      \<lparr>revision = ''0003_format_kind'', down_revision = Some ''0002_user_language'', upgrade = upgrade_0003, downgrade = downgrade_0003\<rparr>,
      \<lparr>revision = ''0004_quality_kind'', down_revision = Some ''0003_format_kind'', upgrade = upgrade_0004, downgrade = downgrade_0004\<rparr>,
      \<lparr>revision = ''0005_video_tier'', down_revision = Some ''0004_quality_kind'', upgrade = upgrade_0005, downgrade = downgrade_0005\<rparr>,
      \<lparr>revision = ''0006_updated_at'', down_revision = Some ''0005_video_tier'', upgrade = upgrade_0006, downgrade = downgrade_0006\<rparr>]"

text \<open>
  \<open>alembic upgrade head\<close> (\<open>do_run_migrations\<close> of \<open>env.py\<close>): from the recorded version along the
  \<open>down_revision\<close> chain, in one transaction; the version table is a \<open>VARCHAR(32)\<close>.
\<close>

record versioned =
  vs_version :: "string option"
  vs_schema :: sql_schema

definition next_migration :: "string option \<Rightarrow> migration option" where
  "next_migration version = find (\<lambda>m. down_revision m = version) MIGRATIONS"

fun upgrade_steps :: "nat \<Rightarrow> time \<Rightarrow> versioned \<Rightarrow> exn + versioned" where
  "upgrade_steps 0 now v = Inr v"
| "upgrade_steps (Suc n) now v =
     (case next_migration (vs_version v) of
        None \<Rightarrow> Inr v
      | Some m \<Rightarrow>
          (case run_ddls now (upgrade m) (vs_schema v) of
             Inl e \<Rightarrow> Inl e
           | Inr s \<Rightarrow>
               if 32 < length (revision m) then sql_error ''value too long for type character varying(32)''
               else upgrade_steps n now \<lparr>vs_version = Some (revision m), vs_schema = s\<rparr>))"

definition upgrade_head :: "time \<Rightarrow> versioned \<Rightarrow> exn + versioned" where
  "upgrade_head now v = upgrade_steps (length MIGRATIONS) now v"

section \<open>What the models declare\<close>

definition users_table :: sql_table where
  "users_table =
     \<lparr>tbl_columns =
        [(col ''id'' UuidType False NoDefault)\<lparr>col_primary_key := True\<rparr>,
         (col ''telegram_id'' BigIntType True NoDefault)\<lparr>col_unique := True\<rparr>,
         col ''is_premium'' BoolType False (DefaultValue (SqlBool False)),
         col ''language'' (Varchar 8) True NoDefault,
         col ''created_at'' TimestampType False DefaultNow],
      tbl_checks = [], tbl_indexes = [index ''ix_users_telegram_id'' [''telegram_id'']], tbl_rows = []\<rparr>"

definition download_requests_table :: sql_table where
  "download_requests_table =
     \<lparr>tbl_columns =
        [(col ''id'' UuidType False NoDefault)\<lparr>col_primary_key := True\<rparr>,
         (col ''user_id'' UuidType False NoDefault)\<lparr>col_references := Some ''users.id''\<rparr>,
         col ''source_url'' (Varchar 2048) False NoDefault,
         col ''media_type'' (Varchar 20) False (DefaultValue (SqlText (media_type_value MUnknown))),
         col ''status'' (Varchar 20) False (DefaultValue (SqlText (status_value PENDING))),
         col ''format_kind'' (Varchar 20) False NoDefault,
         col ''video_tier'' (Varchar 10) True NoDefault,
         col ''created_at'' TimestampType False DefaultNow,
         col ''completed_at'' TimestampType True NoDefault,
         col ''updated_at'' TimestampType False DefaultNow],
      tbl_checks = [(CHECK_NAME, tier_kind_condition)],
      tbl_indexes = [index ''ix_download_requests_user_id'' [''user_id''],
        \<lparr>index_name = INDEX_NAME, index_columns = [''updated_at''], index_where = Some (InTexts ''status'' [''pending'', ''processing''])\<rparr>],
      tbl_rows = []\<rparr>"

end
