(* ===== verification/MigrationFacts.thy ===== *)
theory MigrationFacts
  imports Migrations
begin

text \<open>
  The migrations build the schema the models declare, make readable requests of old rows, and what
  the migration of the quality column loses on the way back.
\<close>

section \<open>The schema\<close>

definition requests_0004 :: "sql_row list \<Rightarrow> sql_table" where
  "requests_0004 rows =
     \<lparr>tbl_columns =
        [(col ''id'' UuidType False NoDefault)\<lparr>col_primary_key := True\<rparr>,
         (col ''user_id'' UuidType False NoDefault)\<lparr>col_references := Some ''users.id''\<rparr>,
         col ''source_url'' (Varchar 2048) False NoDefault,
         col ''media_type'' (Varchar 20) False (DefaultValue (SqlText ''unknown'')),
         col ''status'' (Varchar 20) False (DefaultValue (SqlText ''pending'')),
         col ''created_at'' TimestampType False DefaultNow,
         col ''completed_at'' TimestampType True NoDefault,
         col ''format_kind'' (Varchar 20) False (DefaultValue (SqlText ''video'')),
         col ''quality_kind'' (Varchar 16) False (DefaultValue (SqlText ''hd_720''))],
      tbl_checks = [], tbl_indexes = [index ''ix_download_requests_user_id'' [''user_id'']], tbl_rows = rows\<rparr>"

definition requests_0005 :: "sql_row list \<Rightarrow> sql_table" where
  "requests_0005 rows =
     \<lparr>tbl_columns =
        [(col ''id'' UuidType False NoDefault)\<lparr>col_primary_key := True\<rparr>,
         (col ''user_id'' UuidType False NoDefault)\<lparr>col_references := Some ''users.id''\<rparr>,
         col ''source_url'' (Varchar 2048) False NoDefault,
         col ''media_type'' (Varchar 20) False (DefaultValue (SqlText ''unknown'')),
         col ''status'' (Varchar 20) False (DefaultValue (SqlText ''pending'')),
         col ''created_at'' TimestampType False DefaultNow,
         col ''completed_at'' TimestampType True NoDefault,
         col ''format_kind'' (Varchar 20) False NoDefault,
         col ''video_tier'' (Varchar 10) True NoDefault],
      tbl_checks = [(CHECK_NAME, tier_kind_condition)],
      tbl_indexes = [index ''ix_download_requests_user_id'' [''user_id'']], tbl_rows = rows\<rparr>"

definition requests_0006 :: "sql_row list \<Rightarrow> sql_table" where
  "requests_0006 rows =
     (requests_0005 rows)\<lparr>tbl_columns := tbl_columns (requests_0005 rows) @ [col ''updated_at'' TimestampType False DefaultNow],
        tbl_indexes := tbl_indexes (requests_0005 rows) @
          [\<lparr>index_name = INDEX_NAME, index_columns = [''updated_at''], index_where = Some (InTexts ''status'' [''pending'', ''processing''])\<rparr>]\<rparr>"

definition users_0002 :: "sql_row list \<Rightarrow> sql_table" where
  "users_0002 rows =
     \<lparr>tbl_columns =
        [(col ''id'' UuidType False NoDefault)\<lparr>col_primary_key := True\<rparr>,
         (col ''telegram_id'' BigIntType True NoDefault)\<lparr>col_unique := True\<rparr>,
         col ''is_premium'' BoolType False (DefaultValue (SqlBool False)),
         col ''created_at'' TimestampType False DefaultNow,
         col ''language'' (Varchar 8) True NoDefault],
      tbl_checks = [], tbl_indexes = [index ''ix_users_telegram_id'' [''telegram_id'']], tbl_rows = rows\<rparr>"

lemmas statement_defs = on_table_def add_column_def drop_column_def update_rows_def add_check_def drop_check_def alter_column_def
  set_not_null_def find_column_def col_def index_def default_value_def column_admits_def

lemmas upgrade_defs = upgrade_0001_def upgrade_0002_def upgrade_0003_def upgrade_0004_def

lemma run_ddls_append:
  "run_ddls now (a @ b) s = (case run_ddls now a s of Inl e \<Rightarrow> Inl e | Inr s' \<Rightarrow> run_ddls now b s')"
  by (induction a arbitrary: s) (auto split: sum.split)

section \<open>The quality column\<close>

definition is_video :: "sql_row \<Rightarrow> bool" where
  "is_video r \<longleftrightarrow> row_value r ''format_kind'' = SqlText ''video''"

definition tier_of_quality :: "sql_row \<Rightarrow> sql_value" where
  "tier_of_quality r =
     (if \<not> is_video r then SqlNull else if row_value r ''quality_kind'' = SqlText ''hd_1080'' then SqlText ''p1080'' else SqlText ''p720'')"

definition up_0005 :: "sql_row \<Rightarrow> sql_row" where
  "up_0005 r = r(''video_tier'' \<mapsto> tier_of_quality r, ''quality_kind'' := None)"

lemma eval_text: "eval_cond r (EqText c t) = Some True \<longleftrightarrow> row_value r c = SqlText t"
  by (auto split: sql_value.split)

lemma row_value_upd [simp]: "row_value (r(c \<mapsto> v)) c = v" "c \<noteq> d \<Longrightarrow> row_value (r(d := x)) c = row_value r c"
  by (simp_all add: row_value_def)

lemma tier_check_upgraded: "eval_cond (r(''video_tier'' \<mapsto> tier_of_quality r)) tier_kind_condition \<noteq> Some False"
  by (auto simp: tier_kind_condition_def tier_of_quality_def is_video_def split: sql_value.split option.split)

text \<open>The table between the statements of revision 0005.\<close>

definition requests_both :: "(string \<times> sql_cond) list \<Rightarrow> sql_row list \<Rightarrow> sql_table" where
  "requests_both ks rows = (requests_0004 rows)\<lparr>tbl_columns := tbl_columns (requests_0004 rows) @ [col ''video_tier'' (Varchar 10) True NoDefault],
     tbl_checks := ks\<rparr>"

lemma find_column_both [simp]:
  "find_column (requests_both ks rows) ''video_tier'' = Some (col ''video_tier'' (Varchar 10) True NoDefault)"
  "find_column (requests_both ks rows) ''quality_kind'' = Some (col ''quality_kind'' (Varchar 16) False (DefaultValue (SqlText ''hd_720'')))"
  "find_column (requests_0004 rows) ''video_tier'' = None"
  by (simp_all add: requests_both_def requests_0004_def find_column_def col_def)

lemma requests_both_fields [simp]:
  "tbl_rows (requests_both ks rows) = rows" "tbl_checks (requests_both ks rows) = ks"
  "(requests_both ks rows)\<lparr>tbl_rows := rows'\<rparr> = requests_both ks rows'"
  "(requests_both ks rows)\<lparr>tbl_checks := ks'\<rparr> = requests_both ks' rows"
  by (simp_all add: requests_both_def requests_0004_def)

lemma add_tier_column:
  "add_column now (col ''video_tier'' (Varchar 10) True NoDefault) (requests_0004 rows) =
     Inr (requests_both [] (map (\<lambda>r. r(''video_tier'' \<mapsto> SqlNull)) rows))"
  by (simp add: add_column_def column_admits_def default_value_def col_def Let_def requests_both_def)
     (simp_all add: requests_0004_def find_column_def col_def)

lemma fill_tier_column:
  "update_rows ''video_tier''
     (CaseOf ''quality_kind'' (SqlText ''hd_1080'') (Literal (SqlText ''p1080'')) (Literal (SqlText ''p720'')))
     (EqText ''format_kind'' ''video'') (requests_both [] (map (\<lambda>r. r(''video_tier'' \<mapsto> SqlNull)) rows)) =
   Inr (requests_both [] (map (\<lambda>r. r(''video_tier'' \<mapsto> tier_of_quality r)) rows))"
proof -
  have fits: "column_admits (col ''video_tier'' (Varchar 10) True NoDefault) (tier_of_quality r)" for r
    by (simp add: tier_of_quality_def column_admits_def col_def)
  have filled: "(if eval_cond (r(''video_tier'' \<mapsto> SqlNull)) (EqText ''format_kind'' ''video'') = Some True
      then (r(''video_tier'' \<mapsto> SqlNull))(''video_tier'' \<mapsto> eval_expr (r(''video_tier'' \<mapsto> SqlNull))
        (CaseOf ''quality_kind'' (SqlText ''hd_1080'') (Literal (SqlText ''p1080'')) (Literal (SqlText ''p720''))))
      else r(''video_tier'' \<mapsto> SqlNull)) = r(''video_tier'' \<mapsto> tier_of_quality r)" for r
    unfolding eval_text by (simp add: tier_of_quality_def is_video_def)
  show ?thesis
    unfolding update_rows_def Let_def requests_both_fields map_map comp_def filled
    by (simp add: list_all_length fits)
qed

lemma add_tier_check:
  "add_check CHECK_NAME tier_kind_condition (requests_both [] (map (\<lambda>r. r(''video_tier'' \<mapsto> tier_of_quality r)) rows)) =
     Inr (requests_both [(CHECK_NAME, tier_kind_condition)] (map (\<lambda>r. r(''video_tier'' \<mapsto> tier_of_quality r)) rows))"
  using tier_check_upgraded by (simp add: add_check_def list_all_iff)

lemma drop_quality_column:
  "drop_column ''quality_kind'' (requests_both ks rows) =
     Inr ((requests_both ks rows)\<lparr>tbl_columns := filter (\<lambda>x. col_name x \<noteq> ''quality_kind'') (tbl_columns (requests_both ks rows)),
        tbl_checks := filter (\<lambda>(_, e). ''quality_kind'' \<notin> set (cond_columns e)) ks,
        tbl_rows := map (\<lambda>r. r(''quality_kind'' := None)) rows\<rparr>)"
  by (simp add: drop_column_def) (simp add: requests_both_def requests_0004_def index_def)

lemma drop_format_default:
  "\<exists>t. alter_column ''format_kind'' (\<lambda>x. x\<lparr>col_default := NoDefault\<rparr>) (requests_both [(CHECK_NAME, tier_kind_condition)] rows) = Inr t \<and>
     drop_column ''quality_kind'' t = Inr (requests_0005 (map (\<lambda>r. r(''quality_kind'' := None)) rows))"
  by (simp add: alter_column_def drop_column_def requests_both_def requests_0004_def requests_0005_def find_column_def col_def
      index_def tier_kind_condition_def)

lemma upgrade_0005_eq:
  assumes "s ''download_requests'' = Some (requests_0004 rows)"
  shows "run_ddls now upgrade_0005 s = Inr (s(''download_requests'' \<mapsto> requests_0005 (map up_0005 rows)))"
proof -
  let ?filled = "map (\<lambda>r. r(''video_tier'' \<mapsto> tier_of_quality r)) rows"
  obtain t where t: "alter_column ''format_kind'' (\<lambda>x. x\<lparr>col_default := NoDefault\<rparr>)
       (requests_both [(CHECK_NAME, tier_kind_condition)] ?filled) = Inr t"
     "drop_column ''quality_kind'' t = Inr (requests_0005 (map (\<lambda>r. r(''quality_kind'' := None)) ?filled))"
    using drop_format_default by blast
  have up: "map (\<lambda>r. r(''quality_kind'' := None)) ?filled = map up_0005 rows"
    by (simp add: up_0005_def fun_eq_iff)
  show ?thesis
    unfolding upgrade_0005_def run_ddls.simps run_ddl.simps
    by (simp add: assms on_table_def add_tier_column fill_tier_column add_tier_check t up del: map_map)
qed

section \<open>The activity timestamp\<close>

definition up_0006 :: "sql_row \<Rightarrow> sql_row" where
  "up_0006 r = r(''updated_at'' \<mapsto> (if row_value r ''completed_at'' \<noteq> SqlNull then row_value r ''completed_at'' else row_value r ''created_at''))"

definition requests_stamped :: "bool \<Rightarrow> sql_row list \<Rightarrow> sql_table" where
  "requests_stamped nullable rows =
     (requests_0005 rows)\<lparr>tbl_columns := tbl_columns (requests_0005 rows) @ [col ''updated_at'' TimestampType nullable DefaultNow]\<rparr>"

lemma requests_stamped_fields [simp]:
  "tbl_rows (requests_stamped b rows) = rows" "tbl_checks (requests_stamped b rows) = [(CHECK_NAME, tier_kind_condition)]"
  "(requests_stamped b rows)\<lparr>tbl_rows := rows'\<rparr> = requests_stamped b rows'"
  "find_column (requests_stamped b rows) ''updated_at'' = Some (col ''updated_at'' TimestampType b DefaultNow)"
  by (simp_all add: requests_stamped_def requests_0005_def find_column_def col_def)

lemma up_0006_timestamp:
  assumes "row_conforms (requests_0005 []) r"
  shows "\<exists>t. row_value (up_0006 r) ''updated_at'' = SqlTime t"
proof -
  have "column_admits (col ''created_at'' TimestampType False DefaultNow) (row_value r ''created_at'')"
    "column_admits (col ''completed_at'' TimestampType True NoDefault) (row_value r ''completed_at'')"
    using assms by (simp_all add: row_conforms_def requests_0005_def col_def)
  then show ?thesis
    by (cases "row_value r ''created_at''"; cases "row_value r ''completed_at''")
      (simp_all add: up_0006_def column_admits_def col_def)
qed

lemma tier_check_stamped: "eval_cond (r(''updated_at'' \<mapsto> v)) tier_kind_condition = eval_cond r tier_kind_condition"
  by (simp add: tier_kind_condition_def)

lemma add_stamp_column:
  "add_column now (col ''updated_at'' TimestampType True DefaultNow) (requests_0005 rows) =
     Inr (requests_stamped True (map (\<lambda>r. r(''updated_at'' \<mapsto> SqlTime now)) rows))"
  by (simp add: add_column_def column_admits_def default_value_def col_def Let_def requests_stamped_def)
     (simp add: requests_0005_def find_column_def col_def)

lemma fill_stamp_column:
  assumes "\<forall>r \<in> set rows. row_conforms (requests_0005 []) r"
  shows "update_rows ''updated_at'' (Coalesce ''completed_at'' ''created_at'') Always
      (requests_stamped True (map (\<lambda>r. r(''updated_at'' \<mapsto> SqlTime now)) rows)) = Inr (requests_stamped True (map up_0006 rows))"
proof -
  have rows: "map (\<lambda>r. if eval_cond r Always = Some True then r(''updated_at'' \<mapsto> eval_expr r (Coalesce ''completed_at'' ''created_at'')) else r)
      (map (\<lambda>r. r(''updated_at'' \<mapsto> SqlTime now)) rows) = map up_0006 rows"
    by (simp add: up_0006_def)
  have "column_admits (col ''updated_at'' TimestampType True DefaultNow) (row_value (up_0006 r) ''updated_at'') \<and>
      eval_cond (up_0006 r) tier_kind_condition \<noteq> Some False" if "r \<in> set rows" for r
  proof -
    have "eval_cond r tier_kind_condition \<noteq> Some False"
      using assms that by (simp add: row_conforms_def requests_0005_def)
    then show ?thesis
      using up_0006_timestamp [of r] assms that
      by (auto simp: column_admits_def col_def up_0006_def tier_check_stamped simp del: eval_cond.simps)
  qed
  then show ?thesis
    unfolding update_rows_def Let_def requests_stamped_fields rows by (simp add: list_all_iff)
qed

lemma stamp_not_null:
  assumes "\<forall>r \<in> set rows. row_conforms (requests_0005 []) r"
  shows "set_not_null ''updated_at'' (requests_stamped True (map up_0006 rows)) = Inr (requests_stamped False (map up_0006 rows))"
proof -
  have "\<not> list_ex (\<lambda>r. row_value r ''updated_at'' = SqlNull) (map up_0006 rows)"
    using up_0006_timestamp assms by (fastforce simp: list_ex_iff)
  then show ?thesis
    unfolding set_not_null_def alter_column_def requests_stamped_fields
    by (simp add: requests_stamped_def requests_0005_def col_def)
qed

lemma upgrade_0006_eq:
  assumes "s ''download_requests'' = Some (requests_0005 rows)"
    and "\<forall>r \<in> set rows. row_conforms (requests_0005 []) r"
  shows "run_ddls now upgrade_0006 s = Inr (s(''download_requests'' \<mapsto> requests_0006 (map up_0006 rows)))"
  unfolding upgrade_0006_def run_ddls.simps run_ddl.simps
  using assms
  by (simp add: on_table_def add_stamp_column fill_stamp_column stamp_not_null)
     (simp add: requests_stamped_def requests_0006_def requests_0005_def)

section \<open>Going back\<close>

definition down_tier :: "sql_row \<Rightarrow> sql_value" where
  "down_tier r = SqlText (if row_value r ''video_tier'' = SqlText ''p1080'' then ''hd_1080'' else ''hd_720'')"

definition down_0005 :: "sql_row \<Rightarrow> sql_row" where
  "down_0005 r = r(''quality_kind'' \<mapsto> down_tier r, ''video_tier'' := None)"

definition requests_back :: "(string \<times> sql_cond) list \<Rightarrow> sql_row list \<Rightarrow> sql_table" where
  "requests_back ks rows = (requests_0005 rows)\<lparr>
     tbl_columns := tbl_columns (requests_0005 rows) @ [col ''quality_kind'' (Varchar 16) False (DefaultValue (SqlText ''hd_720''))],
     tbl_checks := ks\<rparr>"

lemma requests_back_fields [simp]:
  "tbl_rows (requests_back ks rows) = rows" "tbl_checks (requests_back ks rows) = ks"
  "(requests_back ks rows)\<lparr>tbl_rows := rows'\<rparr> = requests_back ks rows'"
  "(requests_back ks rows)\<lparr>tbl_checks := ks'\<rparr> = requests_back ks' rows"
  "find_column (requests_back ks rows) ''quality_kind'' = Some (col ''quality_kind'' (Varchar 16) False (DefaultValue (SqlText ''hd_720'')))"
  by (simp_all add: requests_back_def requests_0005_def find_column_def col_def)

lemma tier_check_quality: "eval_cond (r(''quality_kind'' \<mapsto> v)) tier_kind_condition = eval_cond r tier_kind_condition"
  by (simp add: tier_kind_condition_def)

lemma add_quality_column:
  "add_column now (col ''quality_kind'' (Varchar 16) False (DefaultValue (SqlText ''hd_720''))) (requests_0005 rows) =
     Inr (requests_back [(CHECK_NAME, tier_kind_condition)] (map (\<lambda>r. r(''quality_kind'' \<mapsto> SqlText ''hd_720'')) rows))"
  by (simp add: add_column_def column_admits_def default_value_def col_def Let_def requests_back_def)
     (simp add: requests_0005_def find_column_def col_def)

lemma fill_quality_column:
  assumes "\<forall>r \<in> set rows. eval_cond r tier_kind_condition \<noteq> Some False"
  shows "update_rows ''quality_kind'' (Literal (SqlText ''hd_1080'')) (EqText ''video_tier'' ''p1080'')
      (requests_back [(CHECK_NAME, tier_kind_condition)] (map (\<lambda>r. r(''quality_kind'' \<mapsto> SqlText ''hd_720'')) rows)) =
    Inr (requests_back [(CHECK_NAME, tier_kind_condition)] (map (\<lambda>r. r(''quality_kind'' \<mapsto> down_tier r)) rows))"
proof -
  have filled: "(if eval_cond (r(''quality_kind'' \<mapsto> SqlText ''hd_720'')) (EqText ''video_tier'' ''p1080'') = Some True
      then (r(''quality_kind'' \<mapsto> SqlText ''hd_720''))(''quality_kind'' \<mapsto>
        eval_expr (r(''quality_kind'' \<mapsto> SqlText ''hd_720'')) (Literal (SqlText ''hd_1080'')))
      else r(''quality_kind'' \<mapsto> SqlText ''hd_720'')) = r(''quality_kind'' \<mapsto> down_tier r)" for r
    unfolding eval_text by (simp add: down_tier_def)
  have "column_admits (col ''quality_kind'' (Varchar 16) False (DefaultValue (SqlText ''hd_720''))) (down_tier r)" for r
    by (simp add: down_tier_def column_admits_def col_def)
  then show ?thesis
    unfolding update_rows_def Let_def requests_back_fields map_map comp_def filled
    using assms by (simp add: list_all_iff tier_check_quality)
qed

lemma drop_tier_column:
  "\<exists>t u. drop_check CHECK_NAME (requests_back [(CHECK_NAME, tier_kind_condition)] rows) = Inr t \<and>
     alter_column ''format_kind'' (\<lambda>x. x\<lparr>col_default := DefaultValue (SqlText ''video'')\<rparr>) t = Inr u \<and>
     drop_column ''video_tier'' u = Inr (requests_0004 (map (\<lambda>r. r(''video_tier'' := None)) rows))"
  by (simp add: drop_check_def alter_column_def drop_column_def requests_back_def requests_0004_def requests_0005_def find_column_def
      col_def index_def)

lemma downgrade_0005_eq:
  assumes "s ''download_requests'' = Some (requests_0005 rows)"
    and "\<forall>r \<in> set rows. eval_cond r tier_kind_condition \<noteq> Some False"
  shows "run_ddls now downgrade_0005 s = Inr (s(''download_requests'' \<mapsto> requests_0004 (map down_0005 rows)))"
proof -
  let ?filled = "map (\<lambda>r. r(''quality_kind'' \<mapsto> down_tier r)) rows"
  obtain t u where t: "drop_check CHECK_NAME (requests_back [(CHECK_NAME, tier_kind_condition)] ?filled) = Inr t"
    "alter_column ''format_kind'' (\<lambda>x. x\<lparr>col_default := DefaultValue (SqlText ''video'')\<rparr>) t = Inr u"
    "drop_column ''video_tier'' u = Inr (requests_0004 (map (\<lambda>r. r(''video_tier'' := None)) ?filled))"
    using drop_tier_column by blast
  have down: "map (\<lambda>r. r(''video_tier'' := None)) ?filled = map down_0005 rows"
    by (simp add: down_0005_def fun_eq_iff)
  show ?thesis
    unfolding downgrade_0005_def run_ddls.simps run_ddl.simps
    using assms by (simp add: on_table_def add_quality_column fill_quality_column t down del: map_map)
qed

section \<open>Reading a row\<close>

fun uuid_of :: "sql_value \<Rightarrow> uuid option" where
  "uuid_of (SqlUuid u) = Some u"
| "uuid_of _ = None"

fun text_of :: "sql_value \<Rightarrow> string option" where
  "text_of (SqlText t) = Some t"
| "text_of _ = None"

fun time_of :: "sql_value \<Rightarrow> time option" where
  "time_of (SqlTime t) = Some t"
| "time_of _ = None"

text \<open>The row of \<open>DownloadRequestModel\<close> a stored row is loaded as; a nullable column loads as an option.\<close>

definition request_of_sql :: "sql_row \<Rightarrow> request_row option" where
  "request_of_sql r =
     Option.bind (uuid_of (row_value r ''id'')) (\<lambda>i.
     Option.bind (uuid_of (row_value r ''user_id'')) (\<lambda>u.
     Option.bind (text_of (row_value r ''source_url'')) (\<lambda>url.
     Option.bind (text_of (row_value r ''media_type'')) (\<lambda>mt.
     Option.bind (text_of (row_value r ''status'')) (\<lambda>st.
     Option.bind (text_of (row_value r ''format_kind'')) (\<lambda>fk.
     Option.bind (time_of (row_value r ''created_at'')) (\<lambda>created.
     Option.bind (time_of (row_value r ''updated_at'')) (\<lambda>updated.
       Some \<lparr>row_id = i, row_user_id = u, row_source_url = url, row_media_type = mt, row_status = st, row_format_kind = fk,
             row_video_tier = text_of (row_value r ''video_tier''), row_created_at = created,
             row_completed_at = time_of (row_value r ''completed_at''), row_updated_at = updated\<rparr>))))))))"

lemma admitted:
  "fits_type UuidType v \<Longrightarrow> v \<noteq> SqlNull \<Longrightarrow> \<exists>u. v = SqlUuid u"
  "fits_type (Varchar n) v \<Longrightarrow> v \<noteq> SqlNull \<Longrightarrow> \<exists>t. v = SqlText t \<and> length t \<le> n"
  "fits_type TimestampType v \<Longrightarrow> v \<noteq> SqlNull \<Longrightarrow> \<exists>t. v = SqlTime t"
  by (cases v; simp)+

lemma conforming_0004:
  assumes "row_conforms (requests_0004 []) r"
  obtains i u url mt st created fk qk where
    "row_value r ''id'' = SqlUuid i" "row_value r ''user_id'' = SqlUuid u" "row_value r ''source_url'' = SqlText url"
    "row_value r ''media_type'' = SqlText mt" "row_value r ''status'' = SqlText st" "row_value r ''created_at'' = SqlTime created"
    "row_value r ''format_kind'' = SqlText fk" "row_value r ''quality_kind'' = SqlText qk"
    "length url \<le> 2048" "length mt \<le> 20" "length st \<le> 20" "length fk \<le> 20"
    "fits_type TimestampType (row_value r ''completed_at'')" "r ''video_tier'' = None" "r ''updated_at'' = None"
proof -
  have columns: "fits_type UuidType (row_value r ''id'')" "row_value r ''id'' \<noteq> SqlNull"
    "fits_type UuidType (row_value r ''user_id'')" "row_value r ''user_id'' \<noteq> SqlNull"
    "fits_type (Varchar 2048) (row_value r ''source_url'')" "row_value r ''source_url'' \<noteq> SqlNull"
    "fits_type (Varchar 20) (row_value r ''media_type'')" "row_value r ''media_type'' \<noteq> SqlNull"
    "fits_type (Varchar 20) (row_value r ''status'')" "row_value r ''status'' \<noteq> SqlNull"
    "fits_type TimestampType (row_value r ''created_at'')" "row_value r ''created_at'' \<noteq> SqlNull"
    "fits_type (Varchar 20) (row_value r ''format_kind'')" "row_value r ''format_kind'' \<noteq> SqlNull"
    "fits_type (Varchar 16) (row_value r ''quality_kind'')" "row_value r ''quality_kind'' \<noteq> SqlNull"
    "fits_type TimestampType (row_value r ''completed_at'')"
    using assms unfolding row_conforms_def requests_0004_def column_admits_def by (simp_all add: col_def)
  have "''video_tier'' \<notin> dom r" "''updated_at'' \<notin> dom r"
    using assms unfolding row_conforms_def requests_0004_def by (auto simp: col_def)
  then have "r ''video_tier'' = None" "r ''updated_at'' = None" by auto
  then show ?thesis
    using that columns admitted by metis
qed

lemma conforming_columns:
  "row_conforms (requests_0004 []) r \<longleftrightarrow>
     (\<forall>c \<in> set (tbl_columns (requests_0004 [])). r (col_name c) \<noteq> None \<and> column_admits c (row_value r (col_name c))) \<and>
     dom r \<subseteq> col_name ` set (tbl_columns (requests_0004 []))"
  by (simp add: row_conforms_def requests_0004_def)

lemma conforms_0005:
  assumes "row_conforms (requests_0004 []) r"
  shows "row_conforms (requests_0005 []) (up_0005 r)"
proof -
  have "eval_cond (up_0005 r) tier_kind_condition \<noteq> Some False"
    using tier_check_upgraded [of r] by (simp add: up_0005_def tier_kind_condition_def)
  moreover have "dom (up_0005 r) \<subseteq> col_name ` set (tbl_columns (requests_0005 []))"
  proof -
    have "dom (up_0005 r) = insert ''video_tier'' (dom r) - {''quality_kind''}" by (auto simp: up_0005_def split: if_splits)
    also have "\<dots> \<subseteq> insert ''video_tier'' (col_name ` set (tbl_columns (requests_0004 []))) - {''quality_kind''}"
      using assms unfolding conforming_columns by blast
    also have "\<dots> \<subseteq> col_name ` set (tbl_columns (requests_0005 []))"
      by (simp add: requests_0004_def requests_0005_def col_def insert_Diff_if)
    finally show ?thesis .
  qed
  moreover have "\<forall>c \<in> set (tbl_columns (requests_0005 [])). up_0005 r (col_name c) \<noteq> None \<and> column_admits c (row_value (up_0005 r) (col_name c))"
    using assms unfolding conforming_columns unfolding requests_0004_def requests_0005_def
    by (simp add: up_0005_def col_def column_admits_def tier_of_quality_def)
  ultimately show ?thesis by (simp add: row_conforms_def requests_0005_def del: eval_cond.simps)
qed

lemma conforms_0006:
  assumes r: "row_conforms (requests_0005 []) r"
  shows "row_conforms (requests_0006 []) (up_0006 r)"
proof -
  obtain t where t: "row_value (up_0006 r) ''updated_at'' = SqlTime t" using up_0006_timestamp r by blast
  have kept: "row_value (up_0006 r) c = row_value r c" "up_0006 r c = r c" if "c \<noteq> ''updated_at''" for c
    using that by (simp_all add: up_0006_def)
  have names: "col_name c \<noteq> ''updated_at''" if "c \<in> set (tbl_columns (requests_0005 []))" for c
    using that by (auto simp: requests_0005_def col_def)
  have columns: "tbl_columns (requests_0006 []) = tbl_columns (requests_0005 []) @ [col ''updated_at'' TimestampType False DefaultNow]"
    and checks: "tbl_checks (requests_0006 []) = tbl_checks (requests_0005 [])"
    by (simp_all add: requests_0006_def requests_0005_def)
  have stamp: "up_0006 r ''updated_at'' \<noteq> None" "col_name (col ''updated_at'' TimestampType False DefaultNow) = ''updated_at''"
    "column_admits (col ''updated_at'' TimestampType False DefaultNow) (row_value (up_0006 r) ''updated_at'')"
    using t by (simp_all add: up_0006_def col_def column_admits_def)
  have "\<forall>c \<in> set (tbl_columns (requests_0006 [])). up_0006 r (col_name c) \<noteq> None \<and> column_admits c (row_value (up_0006 r) (col_name c))"
    using r stamp names kept unfolding columns row_conforms_def by simp
  moreover have "dom (up_0006 r) \<subseteq> col_name ` set (tbl_columns (requests_0006 []))"
    using r stamp(2) unfolding columns row_conforms_def by (auto simp: up_0006_def split: if_splits)
  moreover have "\<forall>(_, e) \<in> set (tbl_checks (requests_0006 [])). eval_cond (up_0006 r) e \<noteq> Some False"
    using r tier_check_stamped unfolding checks row_conforms_def by (simp add: requests_0005_def up_0006_def)
  ultimately show ?thesis unfolding row_conforms_def by blast
qed

section \<open>The whole chain\<close>

lemma upgrade_steps_Suc:
  "next_migration (vs_version v) = Some m \<Longrightarrow> run_ddls now (upgrade m) (vs_schema v) = Inr s \<Longrightarrow> length (revision m) \<le> 32 \<Longrightarrow>
   upgrade_steps (Suc n) now v = upgrade_steps n now \<lparr>vs_version = Some (revision m), vs_schema = s\<rparr>"
  by simp

lemmas next_defs = next_migration_def MIGRATIONS_def

lemma head_is_last: "upgrade_steps n now \<lparr>vs_version = Some ''0006_updated_at'', vs_schema = s\<rparr> = Inr \<lparr>vs_version = Some ''0006_updated_at'', vs_schema = s\<rparr>"
  by (cases n) (simp_all add: next_defs)

lemma upgrade_from_0004:
  assumes s: "s ''download_requests'' = Some (requests_0004 rows)"
    and rows: "\<forall>r \<in> set rows. row_conforms (requests_0004 []) r"
  shows "upgrade_steps (Suc (Suc n)) now \<lparr>vs_version = Some ''0004_quality_kind'', vs_schema = s\<rparr> =
    Inr \<lparr>vs_version = Some ''0006_updated_at'',
         vs_schema = s(''download_requests'' \<mapsto> requests_0006 (map (up_0006 \<circ> up_0005) rows))\<rparr>"
proof -
  let ?s5 = "s(''download_requests'' \<mapsto> requests_0005 (map up_0005 rows))"
  have five: "run_ddls now upgrade_0005 s = Inr ?s5" using upgrade_0005_eq s by blast
  have six: "run_ddls now upgrade_0006 ?s5 = Inr (?s5(''download_requests'' \<mapsto> requests_0006 (map up_0006 (map up_0005 rows))))"
    by (rule upgrade_0006_eq) (use rows conforms_0005 in auto)
  have "next_migration (Some ''0004_quality_kind'') = Some (MIGRATIONS ! 4)" "upgrade (MIGRATIONS ! 4) = upgrade_0005"
    "next_migration (Some ''0005_video_tier'') = Some (MIGRATIONS ! 5)" "upgrade (MIGRATIONS ! 5) = upgrade_0006"
    "revision (MIGRATIONS ! 4) = ''0005_video_tier''" "revision (MIGRATIONS ! 5) = ''0006_updated_at''"
    by (simp_all add: next_defs)
  then show ?thesis
    using five six by (simp add: head_is_last del: fun_upd_apply)
qed

lemma run_first_four:
  "upgrade_steps (Suc (Suc (Suc (Suc n)))) now \<lparr>vs_version = None, vs_schema = \<lambda>_. None\<rparr> =
     upgrade_steps n now \<lparr>vs_version = Some ''0004_quality_kind'',
       vs_schema = [''users'' \<mapsto> users_0002 [], ''download_requests'' \<mapsto> requests_0004 []]\<rparr>"
  by (simp add: next_defs upgrade_defs statement_defs Let_def users_0002_def requests_0004_def
      fun_upd_twist [of "''download_requests''" "''users''"])

text \<open>Two tables have the same columns, checks and indexes, in whatever order they were added.\<close>

definition same_shape :: "sql_table \<Rightarrow> sql_table \<Rightarrow> bool" where
  "same_shape a b \<longleftrightarrow> set (tbl_columns a) = set (tbl_columns b) \<and> length (tbl_columns a) = length (tbl_columns b) \<and>
     set (tbl_checks a) = set (tbl_checks b) \<and> set (tbl_indexes a) = set (tbl_indexes b)"


text \<open>What an old row asked for, and when it is last known to have changed.\<close>

definition old_spec :: "sql_row \<Rightarrow> download_spec" where
  "old_spec r =
     (if \<not> is_video r then AudioSpec MP3 else if row_value r ''quality_kind'' = SqlText ''hd_1080'' then VideoSpec P1080 else VideoSpec P720)"

definition last_change :: "sql_row \<Rightarrow> time option" where
  "last_change r = (case time_of (row_value r ''completed_at'') of None \<Rightarrow> time_of (row_value r ''created_at'') | Some t \<Rightarrow> Some t)"

definition upgraded_row :: "sql_row \<Rightarrow> sql_row \<Rightarrow> bool" where
  "upgraded_row old new \<longleftrightarrow> row_conforms download_requests_table new \<and>
     (\<exists>m. request_of_sql new = Some m \<and> tier_kind_check m \<and> request_columns_fit m \<and> parse_spec m = Inr (old_spec old) \<and>
          Some (row_updated_at m) = last_change old \<and>
          row_value old ''id'' = SqlUuid (row_id m) \<and> row_value old ''user_id'' = SqlUuid (row_user_id m) \<and>
          row_value old ''source_url'' = SqlText (row_source_url m) \<and> row_value old ''status'' = SqlText (row_status m) \<and>
          time_of (row_value old ''completed_at'') = row_completed_at m)"

lemma conforms_models: "row_conforms (requests_0006 []) r \<Longrightarrow> row_conforms download_requests_table r"
proof -
  assume r: "row_conforms (requests_0006 []) r"
  have same: "set (tbl_columns (requests_0006 [])) = set (tbl_columns download_requests_table)"
    "tbl_checks (requests_0006 []) = tbl_checks download_requests_table"
    unfolding requests_0006_def requests_0005_def download_requests_table_def by auto
  show ?thesis using r unfolding row_conforms_def same .
qed

lemma upgraded_row_up:
  assumes r: "row_conforms (requests_0004 []) r"
    and kind: "row_value r ''format_kind'' \<in> {SqlText ''video'', SqlText ''audio''}"
  shows "upgraded_row r (up_0006 (up_0005 r))"
proof -
  obtain i u url mt st created fk qk where v: "row_value r ''id'' = SqlUuid i" "row_value r ''user_id'' = SqlUuid u"
      "row_value r ''source_url'' = SqlText url" "row_value r ''media_type'' = SqlText mt" "row_value r ''status'' = SqlText st"
      "row_value r ''created_at'' = SqlTime created" "row_value r ''format_kind'' = SqlText fk"
      "length url \<le> 2048" "length mt \<le> 20" "length st \<le> 20" "length fk \<le> 20"
      "fits_type TimestampType (row_value r ''completed_at'')"
    using r by (rule conforming_0004)
  let ?n = "up_0006 (up_0005 r)"
  have kept: "row_value ?n c = row_value r c" if "c \<notin> {''video_tier'', ''quality_kind'', ''updated_at''}" for c
    using that by (simp add: up_0006_def up_0005_def)
  have tier: "row_value ?n ''video_tier'' = tier_of_quality r" by (simp add: up_0006_def up_0005_def)
  obtain now where now: "row_value ?n ''updated_at'' = SqlTime now" "last_change r = Some now"
    using v(6,12) by (cases "row_value r ''completed_at''") (simp_all add: up_0006_def up_0005_def last_change_def)
  let ?m = "\<lparr>row_id = i, row_user_id = u, row_source_url = url, row_media_type = mt, row_status = st, row_format_kind = fk,
    row_video_tier = text_of (tier_of_quality r), row_created_at = created,
    row_completed_at = time_of (row_value r ''completed_at''), row_updated_at = now\<rparr>"
  have m: "request_of_sql ?n = Some ?m" by (simp add: request_of_sql_def kept tier now v)
  have fk: "fk = ''video'' \<or> fk = ''audio''" using kind v(7) by auto
  have "tier_kind_check ?m" "request_columns_fit ?m" "parse_spec ?m = Inr (old_spec r)"
    using fk v by (auto simp: tier_kind_check_def request_columns_fit_def parse_spec_def old_spec_def tier_of_quality_def is_video_def
        spec_from_parts_def format_kind_of_def tier_of_def)
  moreover have "row_conforms download_requests_table ?n"
    using r conforms_0005 conforms_0006 conforms_models by blast
  ultimately show ?thesis using m now v unfolding upgraded_row_def by simp
qed

text \<open>C24: upgrading a database of revision 0004 whose requests are video or audio keeps every request: the upgrade
  succeeds and row by row, in order, the new row meets the declared columns and check, loads as a row of the model that the
  repository reads back, with the tier the request had (1080 for \<open>hd_1080\<close>, 720 otherwise; audio without a tier), the same
  owner, link, status and completion, and the time it is last known to have changed as \<open>updated_at\<close>.\<close>

theorem upgraded_requests_are_readable:
  assumes "s ''download_requests'' = Some (requests_0004 rows)"
    and "\<forall>r \<in> set rows. row_conforms (requests_0004 []) r \<and> row_value r ''format_kind'' \<in> {SqlText ''video'', SqlText ''audio''}"
  shows "\<exists>v t. upgrade_head now \<lparr>vs_version = Some ''0004_quality_kind'', vs_schema = s\<rparr> = Inr v \<and>
     vs_version v = Some ''0006_updated_at'' \<and> vs_schema v = s(''download_requests'' \<mapsto> t) \<and>
     same_shape t download_requests_table \<and> list_all2 upgraded_row rows (tbl_rows t)"
proof -
  let ?t = "requests_0006 (map (up_0006 \<circ> up_0005) rows)"
  have conform: "\<forall>r \<in> set rows. row_conforms (requests_0004 []) r" using assms(2) by blast
  have six: "length MIGRATIONS = Suc (Suc 4)" by (simp add: MIGRATIONS_def)
  have "upgrade_head now \<lparr>vs_version = Some ''0004_quality_kind'', vs_schema = s\<rparr> =
      Inr \<lparr>vs_version = Some ''0006_updated_at'', vs_schema = s(''download_requests'' \<mapsto> ?t)\<rparr>"
    unfolding upgrade_head_def six by (rule upgrade_from_0004 [where s = s and rows = rows, OF assms(1) conform])
  moreover have "same_shape ?t download_requests_table"
    unfolding same_shape_def requests_0006_def requests_0005_def download_requests_table_def by auto
  moreover have "list_all2 upgraded_row rows (tbl_rows ?t)"
    using assms(2) upgraded_row_up by (auto simp: requests_0006_def requests_0005_def list_all2_map2 intro!: list_all2_refl list.rel_refl_strong)
  ultimately show ?thesis by (intro exI [of _ "\<lparr>vs_version = Some ''0006_updated_at'', vs_schema = s(''download_requests'' \<mapsto> ?t)\<rparr>"] exI [of _ ?t]) simp
qed

lemma upgraded_requests_are_readable_witness:
  "let r = [''id'' \<mapsto> SqlUuid 7, ''user_id'' \<mapsto> SqlUuid 1, ''source_url'' \<mapsto> SqlText ''https://youtu.be/x'', ''media_type'' \<mapsto> SqlText ''video'',
        ''status'' \<mapsto> SqlText ''done'', ''created_at'' \<mapsto> SqlTime 50, ''completed_at'' \<mapsto> SqlTime 60, ''format_kind'' \<mapsto> SqlText ''video'',
        ''quality_kind'' \<mapsto> SqlText ''hd_1080''];
       s = [''download_requests'' \<mapsto> requests_0004 [r]]
   in (\<exists>v t. upgrade_head 100 \<lparr>vs_version = Some ''0004_quality_kind'', vs_schema = s\<rparr> = Inr v \<and>
        vs_version v = Some ''0006_updated_at'' \<and> vs_schema v = s(''download_requests'' \<mapsto> t) \<and>
        same_shape t download_requests_table \<and> list_all2 upgraded_row [r] (tbl_rows t)) \<and> old_spec r = VideoSpec P1080 \<and> last_change r = Some 60"
proof -
  let ?r = "[''id'' \<mapsto> SqlUuid 7, ''user_id'' \<mapsto> SqlUuid 1, ''source_url'' \<mapsto> SqlText ''https://youtu.be/x'', ''media_type'' \<mapsto> SqlText ''video'',
        ''status'' \<mapsto> SqlText ''done'', ''created_at'' \<mapsto> SqlTime 50, ''completed_at'' \<mapsto> SqlTime 60, ''format_kind'' \<mapsto> SqlText ''video'',
        ''quality_kind'' \<mapsto> SqlText ''hd_1080'']"
  let ?s = "[''download_requests'' \<mapsto> requests_0004 [?r]]"
  have "row_conforms (requests_0004 []) ?r \<and> row_value ?r ''format_kind'' \<in> {SqlText ''video'', SqlText ''audio''}"
    by (simp add: row_conforms_def requests_0004_def col_def column_admits_def row_value_def)
  then have "\<exists>v t. upgrade_head 100 \<lparr>vs_version = Some ''0004_quality_kind'', vs_schema = ?s\<rparr> = Inr v \<and>
     vs_version v = Some ''0006_updated_at'' \<and> vs_schema v = ?s(''download_requests'' \<mapsto> t) \<and>
     same_shape t download_requests_table \<and> list_all2 upgraded_row [?r] (tbl_rows t)"
    by (intro upgraded_requests_are_readable) simp_all
  moreover have "old_spec ?r = VideoSpec P1080 \<and> last_change ?r = Some 60"
    by (simp add: old_spec_def is_video_def last_change_def row_value_def)
  ultimately show ?thesis unfolding Let_def by blast
qed

text \<open>The tier of a row after a downgrade and an upgrade: 1080 survives, every other video tier is 720, no tier stays none.\<close>

definition tier_round_trip :: "sql_row \<Rightarrow> sql_row" where
  "tier_round_trip r = r(''video_tier'' \<mapsto>
     (if \<not> is_video r then SqlNull else if row_value r ''video_tier'' = SqlText ''p1080'' then SqlText ''p1080'' else SqlText ''p720''))"

definition quality_round_trip :: "sql_row \<Rightarrow> sql_row" where
  "quality_round_trip r = r(''quality_kind'' \<mapsto>
     (if is_video r \<and> row_value r ''quality_kind'' = SqlText ''hd_1080'' then SqlText ''hd_1080'' else SqlText ''hd_720''))"

lemma down_up_row: "r ''video_tier'' = None \<Longrightarrow> down_0005 (up_0005 r) = quality_round_trip r"
  by (auto simp: down_0005_def up_0005_def quality_round_trip_def down_tier_def tier_of_quality_def fun_eq_iff)

lemma up_down_row:
  assumes "r ''quality_kind'' = None"
  shows "up_0005 (down_0005 r) = tier_round_trip r"
proof -
  have "is_video (down_0005 r) = is_video r" by (simp add: is_video_def down_0005_def)
  then show ?thesis
    using assms by (auto simp: down_0005_def up_0005_def tier_round_trip_def down_tier_def tier_of_quality_def fun_eq_iff)
qed

text \<open>C25: revision 0005 and its downgrade restore the table itself (columns, defaults, checks, indexes) in both orders and
  lose of the rows exactly what the migration says: up and down, a row keeps everything, its quality too when it is
  \<open>hd_1080\<close> on a video, and is \<open>hd_720\<close> otherwise; down and up, a 1080 video keeps its tier and any other video,
  \<open>best\<close> included, comes back as \<open>p720\<close>.\<close>

theorem tier_migration_round_trips:
  assumes "s ''download_requests'' = Some (requests_0004 rows)" and "\<forall>r \<in> set rows. row_conforms (requests_0004 []) r"
    and "s' ''download_requests'' = Some (requests_0005 rows')" and "\<forall>r \<in> set rows'. row_conforms (requests_0005 []) r"
  shows "run_ddls now (upgrade_0005 @ downgrade_0005) s = Inr (s(''download_requests'' \<mapsto> requests_0004 (map quality_round_trip rows))) \<and>
    run_ddls now (downgrade_0005 @ upgrade_0005) s' = Inr (s'(''download_requests'' \<mapsto> requests_0005 (map tier_round_trip rows')))"
proof (rule conjI)
  have fresh: "r ''video_tier'' = None" if "r \<in> set rows" for r
    using assms(2) that by (blast elim: conforming_0004)
  have checked: "\<forall>r \<in> set (map up_0005 rows). eval_cond r tier_kind_condition \<noteq> Some False"
    using assms(2) conforms_0005 by (auto simp: row_conforms_def requests_0005_def simp del: eval_cond.simps)
  have there_and_back: "map (down_0005 \<circ> up_0005) rows = map quality_round_trip rows"
    using down_up_row fresh by simp
  show "run_ddls now (upgrade_0005 @ downgrade_0005) s = Inr (s(''download_requests'' \<mapsto> requests_0004 (map quality_round_trip rows)))"
    unfolding run_ddls_append upgrade_0005_eq [where s = s and rows = rows, OF assms(1)]
    using downgrade_0005_eq [where s = "s(''download_requests'' \<mapsto> requests_0005 (map up_0005 rows))", OF _ checked] there_and_back by simp
next
  have checked': "\<forall>r \<in> set rows'. eval_cond r tier_kind_condition \<noteq> Some False"
    using assms(4) by (auto simp: row_conforms_def requests_0005_def simp del: eval_cond.simps)
  have "r ''quality_kind'' = None" if "r \<in> set rows'" for r
  proof -
    have "dom r \<subseteq> col_name ` set (tbl_columns (requests_0005 []))" using assms(4) that unfolding row_conforms_def by blast
    then have "''quality_kind'' \<notin> dom r" by (auto simp: requests_0005_def col_def)
    then show ?thesis by auto
  qed
  then have forth: "map (up_0005 \<circ> down_0005) rows' = map tier_round_trip rows'"
    using up_down_row by simp
  show "run_ddls now (downgrade_0005 @ upgrade_0005) s' = Inr (s'(''download_requests'' \<mapsto> requests_0005 (map tier_round_trip rows')))"
    unfolding run_ddls_append downgrade_0005_eq [where s = s' and rows = rows', OF assms(3) checked']
    by (simp only: sum.case upgrade_0005_eq [where rows = "map down_0005 rows'"] fun_upd_same list.map_comp forth fun_upd_upd)
qed

lemma tier_migration_round_trips_witness:
  "let r = [''id'' \<mapsto> SqlUuid 7, ''user_id'' \<mapsto> SqlUuid 1, ''source_url'' \<mapsto> SqlText ''u'', ''media_type'' \<mapsto> SqlText ''video'',
        ''status'' \<mapsto> SqlText ''done'', ''created_at'' \<mapsto> SqlTime 50, ''completed_at'' \<mapsto> SqlNull, ''format_kind'' \<mapsto> SqlText ''video''];
       old = r(''quality_kind'' \<mapsto> SqlText ''hd_1080''); new = r(''video_tier'' \<mapsto> SqlText ''best'');
       s = [''download_requests'' \<mapsto> requests_0004 [old]]; s' = [''download_requests'' \<mapsto> requests_0005 [new]]
   in run_ddls 9 (upgrade_0005 @ downgrade_0005) s = Inr (s(''download_requests'' \<mapsto> requests_0004 [old])) \<and>
      run_ddls 9 (downgrade_0005 @ upgrade_0005) s' =
        Inr (s'(''download_requests'' \<mapsto> requests_0005 [r(''video_tier'' \<mapsto> SqlText ''p720'')]))"
proof -
  let ?r = "[''id'' \<mapsto> SqlUuid 7, ''user_id'' \<mapsto> SqlUuid 1, ''source_url'' \<mapsto> SqlText ''u'', ''media_type'' \<mapsto> SqlText ''video'',
        ''status'' \<mapsto> SqlText ''done'', ''created_at'' \<mapsto> SqlTime 50, ''completed_at'' \<mapsto> SqlNull, ''format_kind'' \<mapsto> SqlText ''video'']"
  let ?old = "?r(''quality_kind'' \<mapsto> SqlText ''hd_1080'')" and ?new = "?r(''video_tier'' \<mapsto> SqlText ''best'')"
  let ?s = "[''download_requests'' \<mapsto> requests_0004 [?old]]" and ?s' = "[''download_requests'' \<mapsto> requests_0005 [?new]]"
  have "row_conforms (requests_0004 []) ?old"
    by (simp add: row_conforms_def requests_0004_def col_def column_admits_def row_value_def)
  moreover have "row_conforms (requests_0005 []) ?new"
    by (simp add: row_conforms_def requests_0005_def col_def column_admits_def row_value_def tier_kind_condition_def)
  ultimately have trips: "run_ddls 9 (upgrade_0005 @ downgrade_0005) ?s = Inr (?s(''download_requests'' \<mapsto> requests_0004 (map quality_round_trip [?old]))) \<and>
      run_ddls 9 (downgrade_0005 @ upgrade_0005) ?s' = Inr (?s'(''download_requests'' \<mapsto> requests_0005 (map tier_round_trip [?new])))"
    by (intro tier_migration_round_trips) simp_all
  have rows: "quality_round_trip ?old = ?old" "tier_round_trip ?new = ?r(''video_tier'' \<mapsto> SqlText ''p720'')"
    by (simp_all add: quality_round_trip_def tier_round_trip_def is_video_def row_value_def)
  show ?thesis using trips unfolding list.map rows Let_def .
qed

end
