(* ===== verification/Observability.thy ===== *)
theory Observability
  imports Settings Downloader
begin

text \<open>
  \<open>src/shared/logging.py\<close> and \<open>src/infrastructure/observability/sentry.py\<close>: which handlers the root logger
  has, the context bound to a task, and what becomes of an event before it is sent to Sentry.  Rendering, the
  processor chain of structlog and the Sentry SDK are not modelled; whether a log file opens is an answer of
  the state.
\<close>

section \<open>Logging\<close>

datatype log_renderer = ConsoleRenderer | JSONRenderer

datatype log_target = StdoutStream | RotatingFile string string int int | ForeignTarget string

record log_handler =
  lh_owned :: bool
  lh_target :: log_target
  lh_renderer :: "log_renderer option"

type_synonym log_context = "(string \<times> string) list"

text \<open>\<open>lg_open\<close> answers the \<open>mkdir\<close> and the opening of a log file; a warning is its event, directory and error.\<close>

record log_state =
  lg_handlers :: "log_handler list"
  lg_level :: string
  lg_structlog :: bool
  lg_warnings :: "(string \<times> string \<times> string) list"
  lg_context :: log_context
  lg_open :: "string \<Rightarrow> string \<Rightarrow> exn option"

type_synonym 'a lgio = "(log_state, exn, 'a) io"

record log_config =
  lc_log_level :: string
  lc_environment :: string
  lc_service :: string
  lc_log_dir :: "string option"
  lc_file_max_bytes :: int
  lc_file_backups :: int

text \<open>The level names \<open>setLevel\<close> knows; upper-casing matters on letters a to z only, no name has others.\<close>

definition LEVEL_NAMES :: "string list" where
  "LEVEL_NAMES = [''CRITICAL'', ''FATAL'', ''ERROR'', ''WARN'', ''WARNING'', ''INFO'', ''DEBUG'', ''NOTSET'']"

definition upper_char :: "char \<Rightarrow> char" where
  "upper_char c = (if CHR ''a'' \<le> c \<and> c \<le> CHR ''z'' then char_of (of_char c - (32 :: nat)) else c)"

definition set_level :: "string \<Rightarrow> unit lgio" where
  "set_level level =
     (if level \<in> set LEVEL_NAMES then tellE (\<lambda>s. s\<lparr>lg_level := level\<rparr>)
      else raiseE (ValueError (''Unknown level: '' @ level)))"

definition own_handler :: "log_target \<Rightarrow> log_renderer \<Rightarrow> log_handler" where
  "own_handler target renderer = \<lparr>lh_owned = True, lh_target = target, lh_renderer = Some renderer\<rparr>"

definition add_handler :: "log_handler \<Rightarrow> unit lgio" where
  "add_handler h = tellE (\<lambda>s. s\<lparr>lg_handlers := lg_handlers s @ [h]\<rparr>)"

definition is_os_error :: "exn \<Rightarrow> bool" where
  "is_os_error e = (case e of OSError _ \<Rightarrow> True | _ \<Rightarrow> False)"

text \<open>The file handler, or the \<open>OSError\<close> that keeps it from opening.\<close>

definition open_log_file :: "log_config \<Rightarrow> string \<Rightarrow> exn option lgio" where
  "open_log_file c dir =
     bindE (askE (\<lambda>s. lg_open s dir (lc_service c @ ''.log''))) (\<lambda>answer. case answer of
       Some e \<Rightarrow> if is_os_error e then retE (Some e) else raiseE e
     | None \<Rightarrow>
         thenE (add_handler (own_handler (RotatingFile dir (lc_service c @ ''.log'') (lc_file_max_bytes c) (lc_file_backups c)) JSONRenderer))
           (retE None))"

definition configure_logging :: "log_config \<Rightarrow> unit lgio" where
  "configure_logging c =
     thenE (tellE (\<lambda>s. s\<lparr>lg_handlers := filter (\<lambda>h. \<not> lh_owned h) (lg_handlers s)\<rparr>))
     (thenE (set_level (map upper_char (lc_log_level c)))
     (thenE (add_handler (own_handler StdoutStream (if lc_environment c = ''local'' then ConsoleRenderer else JSONRenderer)))
     (bindE (case lc_log_dir c of None \<Rightarrow> retE None | Some dir \<Rightarrow> open_log_file c dir) (\<lambda>file_error.
      thenE (tellE (\<lambda>s. s\<lparr>lg_structlog := True\<rparr>))
        (case (file_error, lc_log_dir c) of
           (Some e, Some dir) \<Rightarrow> tellE (\<lambda>s. s\<lparr>lg_warnings := lg_warnings s @ [(''log_file_unavailable'', dir, describe_error e)]\<rparr>)
         | _ \<Rightarrow> retE ())))))"

text \<open>What the two processes pass (\<open>main\<close> of \<open>main.py\<close>, \<open>startup\<close> of \<open>worker_settings.py\<close>).\<close>

definition process_logging :: "settings \<Rightarrow> string \<Rightarrow> log_config" where
  "process_logging s service =
     \<lparr>lc_log_level = log_level s, lc_environment = environment s, lc_service = service, lc_log_dir = log_dir s,
      lc_file_max_bytes = log_file_max_bytes s, lc_file_backups = log_file_backups s\<rparr>"

definition bind_log_context :: "(string \<times> string) list \<Rightarrow> unit lgio" where
  "bind_log_context values = tellE (\<lambda>s. s\<lparr>lg_context := fold (\<lambda>(k, v). dict_insert k v) values (lg_context s)\<rparr>)"

definition clear_log_context :: "unit lgio" where
  "clear_log_context = tellE (\<lambda>s. s\<lparr>lg_context := []\<rparr>)"

text \<open>The first two statements of each job (\<open>src/infrastructure/queue/jobs.py\<close>); the id is the job's argument.\<close>

definition download_job_context :: "string \<Rightarrow> unit lgio" where
  "download_job_context rid = thenE clear_log_context (bind_log_context [(''job'', ''download_job''), (''request_id'', rid)])"

definition cron_job_context :: "string \<Rightarrow> unit lgio" where
  "cron_job_context job_name = thenE clear_log_context (bind_log_context [(''job'', job_name)])"

section \<open>Sentry\<close>

definition TAG_KEYS :: "string list" where
  "TAG_KEYS = [''request_id'', ''error_key'', ''extractor_key'', ''job'']"

definition RECORD_META :: "string list" where
  "RECORD_META = [''event'', ''level'', ''logger'', ''timestamp'', ''exc_info'', ''stack_info'', ''_record'', ''_from_structlog'']"

text \<open>The parts of an event \<open>before_send\<close> reads or writes; the rest of it is kept.\<close>

record sentry_event =
  se_tags :: "(string \<times> string) list"
  se_extra :: py_dict
  se_logentry :: "string option"

text \<open>\<open>hint_record\<close> is the \<open>msg\<close> of a log record, \<open>hint_exc\<close> the exception of \<open>exc_info\<close>.\<close>

record sentry_hint =
  hint_record :: "pyval option"
  hint_exc :: "exn option"

text \<open>What Python does: \<open>repr\<close>, the text of a UUID, the attributes of exceptions of packages.\<close>

record sentry_env =
  sv_repr :: "pyval \<Rightarrow> string"
  sv_uuid_text :: "uuid \<Rightarrow> string"
  sv_attribute :: "string \<Rightarrow> string \<Rightarrow> pyval"

definition log_fields :: "sentry_hint \<Rightarrow> py_dict" where
  "log_fields hint = (case hint_record hint of Some (PDict d) \<Rightarrow> d | _ \<Rightarrow> [])"

text \<open>\<open>getattr(exc, key, None)\<close> for the keys of the tags.\<close>

definition exn_attribute :: "sentry_env \<Rightarrow> exn \<Rightarrow> string \<Rightarrow> pyval" where
  "exn_attribute env e key =
     (case e of
        LibraryError cls _ \<Rightarrow> sv_attribute env cls key
      | _ \<Rightarrow>
          if key = ''error_key'' then (case error_key e of None \<Rightarrow> PNone | Some k \<Rightarrow> PStr k)
          else if key = ''request_id'' then (case e of CorruptedRecordError _ _ rid _ \<Rightarrow> PStr (sv_uuid_text env rid) | _ \<Rightarrow> PNone)
          else PNone)"

definition tag_value :: "sentry_env \<Rightarrow> log_context \<Rightarrow> sentry_hint \<Rightarrow> string \<Rightarrow> pyval" where
  "tag_value env context hint key =
     (let own_value = (case map_of (log_fields hint) key of
            Some v \<Rightarrow> v
          | None \<Rightarrow> (case hint_exc hint of None \<Rightarrow> PNone | Some e \<Rightarrow> exn_attribute env e key))
      in if own_value = PNone then (case map_of context key of None \<Rightarrow> PNone | Some t \<Rightarrow> PStr t) else own_value)"

definition put_tag :: "sentry_env \<Rightarrow> log_context \<Rightarrow> sentry_hint \<Rightarrow> string \<Rightarrow> (string \<times> string) list \<Rightarrow> (string \<times> string) list" where
  "put_tag env context hint key tags =
     (let v = tag_value env context hint key in if v = PNone then tags else dict_insert key (py_str (sv_repr env) v) tags)"

definition before_send :: "sentry_env \<Rightarrow> string \<Rightarrow> log_context \<Rightarrow> sentry_event \<Rightarrow> sentry_hint \<Rightarrow> sentry_event" where
  "before_send env service context event hint =
     (let fields = log_fields hint;
          tags = fold (put_tag env context hint) TAG_KEYS (dict_insert ''service'' service (se_tags event));
          event = event\<lparr>se_tags := tags\<rparr>
      in if fields = [] then event
         else event\<lparr>se_logentry := Some (case map_of fields ''event'' of None \<Rightarrow> [] | Some v \<Rightarrow> py_str (sv_repr env) v),
                    se_extra := fold (\<lambda>(k, v). dict_insert k v)
                      (filter (\<lambda>(k, _). k \<notin> set RECORD_META \<and> k \<notin> set TAG_KEYS) fields) (se_extra event)\<rparr>)"

record sentry_init =
  so_dsn :: string
  so_environment :: string
  so_release :: "string option"
  so_include_local_variables :: bool
  so_traces_sample_rate :: rat
  so_breadcrumb_level :: string
  so_event_level :: string
  so_before_send :: "log_context \<Rightarrow> sentry_event \<Rightarrow> sentry_hint \<Rightarrow> sentry_event"

text \<open>\<open>version\<close> is the installed package's version, if it is installed.\<close>

definition release_name :: "string option \<Rightarrow> string option" where
  "release_name version = map_option (\<lambda>v. ''umd@'' @ v) version"

definition sentry_options :: "sentry_env \<Rightarrow> string option \<Rightarrow> settings \<Rightarrow> string \<Rightarrow> sentry_init option" where
  "sentry_options env version s service =
     (case sentry_dsn s of
        None \<Rightarrow> None
      | Some dsn \<Rightarrow>
          Some \<lparr>so_dsn = dsn, so_environment = environment s, so_release = release_name version, so_include_local_variables = False,
                so_traces_sample_rate = 0, so_breadcrumb_level = ''INFO'', so_event_level = ''ERROR'',
                so_before_send = before_send env service\<rparr>)"

text \<open>The options the SDK is initialised with, if any, and whether it is on.\<close>

definition init_sentry :: "sentry_env \<Rightarrow> string option \<Rightarrow> settings \<Rightarrow> string \<Rightarrow> (sentry_init option, exn, bool) io" where
  "init_sentry env version s service =
     (case sentry_options env version s service of
        None \<Rightarrow> retE False
      | Some options \<Rightarrow> thenE (tellE (\<lambda>_. Some options)) (retE True))"

section \<open>Facts\<close>

lemma put_tag_map:
  "map_of (put_tag env context hint key tags) k =
     (if k = key \<and> tag_value env context hint key \<noteq> PNone then Some (py_str (sv_repr env) (tag_value env context hint key))
      else map_of tags k)"
  by (simp add: put_tag_def Let_def dict_insert_map_of)

lemma put_tags_map:
  "distinct keys \<Longrightarrow> map_of (fold (put_tag env context hint) keys tags) k =
     (if k \<in> set keys \<and> tag_value env context hint k \<noteq> PNone then Some (py_str (sv_repr env) (tag_value env context hint k))
      else map_of tags k)"
  by (induction keys arbitrary: tags) (auto simp: put_tag_map)

lemma fold_dict_insert_map:
  "distinct (map fst d) \<Longrightarrow> map_of (fold (\<lambda>(k, v). dict_insert k v) d acc) = map_of acc ++ map_of d"
  using fold_dict_insert [of "\<lambda>x. x" d acc] by (simp add: map_of_rev_distinct)

lemma distinct_filter_fst: "distinct (map fst d) \<Longrightarrow> distinct (map fst (filter P d))"
  by (induction d) (auto simp: image_iff)

lemma before_send_tags:
  "map_of (se_tags (before_send env service context event hint)) k =
     (if k \<in> set TAG_KEYS \<and> tag_value env context hint k \<noteq> PNone then Some (py_str (sv_repr env) (tag_value env context hint k))
      else if k = ''service'' then Some service else map_of (se_tags event) k)"
proof -
  have "distinct TAG_KEYS" by (simp add: TAG_KEYS_def)
  then show ?thesis by (simp add: before_send_def Let_def put_tags_map dict_insert_map_of)
qed

lemma before_send_extra:
  assumes "distinct (map fst (log_fields hint))"
  shows "map_of (se_extra (before_send env service context event hint)) =
     map_of (se_extra event) ++ (map_of (log_fields hint) |` (- set RECORD_META - set TAG_KEYS))"
proof -
  have restrict: "map_of (filter (\<lambda>(k, _). k \<in> A) d) = map_of d |` A" for A and d :: py_dict
    by (induction d) (auto simp: restrict_map_def fun_eq_iff)
  have "map_of (filter (\<lambda>(k, _). k \<notin> set RECORD_META \<and> k \<notin> set TAG_KEYS) (log_fields hint)) =
      map_of (log_fields hint) |` (- set RECORD_META - set TAG_KEYS)"
    using restrict [of "- set RECORD_META - set TAG_KEYS"] by simp
  then show ?thesis
    using assms by (cases "log_fields hint = []") (simp_all add: before_send_def Let_def fold_dict_insert_map distinct_filter_fst)
qed


lemma example_log_fields: "log_fields \<lparr>hint_record = Some (PDict d), hint_exc = x\<rparr> = d"
  by (simp add: log_fields_def)


lemma download_job_context_eq:
  "snd (download_job_context rid s) = s\<lparr>lg_context := [(''job'', ''download_job''), (''request_id'', rid)]\<rparr>"
  by (simp add: download_job_context_def clear_log_context_def bind_log_context_def io_simps)

text \<open>A field that is logged as \<open>None\<close> hides the attribute of the exception; only the context is asked then.\<close>

lemma none_field_hides_exception:
  "map_of (se_tags (before_send env service [] \<lparr>se_tags = [], se_extra = [], se_logentry = None\<rparr>
      \<lparr>hint_record = Some (PDict [(''request_id'', PNone)]), hint_exc = Some (CorruptedRecordError c v rid uid)\<rparr>)) ''request_id'' = None"
  by (simp add: before_send_tags tag_value_def log_fields_def)



text \<open>What the second configuration leaves of the first: nothing but the handlers somebody else installed.\<close>

definition own_handlers :: "log_state \<Rightarrow> log_config \<Rightarrow> log_handler list" where
  "own_handlers s c =
     own_handler StdoutStream (if lc_environment c = ''local'' then ConsoleRenderer else JSONRenderer) #
     (case lc_log_dir c of None \<Rightarrow> [] | Some dir \<Rightarrow>
        if lg_open s dir (lc_service c @ ''.log'') = None
        then [own_handler (RotatingFile dir (lc_service c @ ''.log'') (lc_file_max_bytes c) (lc_file_backups c)) JSONRenderer] else [])"

lemma configure_logging_eq:
  assumes "map upper_char (lc_log_level c) \<in> set LEVEL_NAMES"
    and "\<forall>dir name e. lg_open s dir name = Some e \<longrightarrow> is_os_error e"
  shows "fst (configure_logging c s) = Inr () \<and>
     lg_handlers (snd (configure_logging c s)) = filter (\<lambda>h. \<not> lh_owned h) (lg_handlers s) @ own_handlers s c \<and>
     lg_level (snd (configure_logging c s)) = map upper_char (lc_log_level c) \<and> lg_open (snd (configure_logging c s)) = lg_open s \<and>
     lg_context (snd (configure_logging c s)) = lg_context s \<and>
     lg_warnings (snd (configure_logging c s)) = lg_warnings s @
       (case lc_log_dir c of None \<Rightarrow> [] | Some dir \<Rightarrow>
          (case lg_open s dir (lc_service c @ ''.log'') of None \<Rightarrow> []
           | Some e \<Rightarrow> [(''log_file_unavailable'', dir, describe_error e)]))"
  using assms
  by (auto simp: configure_logging_def set_level_def add_handler_def open_log_file_def own_handlers_def io_simps
      split: option.split)

text \<open>Configuring logging again, with whatever settings, is configuring it once: the handlers of the first time are replaced,
  not stacked, other people's stay in their order, and the level is the last one.  A log file that cannot be opened never
  stops the process: it logs to stdout and says so.\<close>

theorem logging_is_reconfigured:
  assumes "map upper_char (lc_log_level a) \<in> set LEVEL_NAMES" and "map upper_char (lc_log_level b) \<in> set LEVEL_NAMES"
    and "\<forall>dir name e. lg_open s dir name = Some e \<longrightarrow> is_os_error e"
    and "s1 = snd (configure_logging a s)" and "s2 = snd (configure_logging b s1)" and "t = snd (configure_logging b s)"
  shows "fst (configure_logging b s1) = Inr () \<and> lg_handlers s2 = lg_handlers t \<and> lg_level s2 = lg_level t \<and>
     filter (\<lambda>h. \<not> lh_owned h) (lg_handlers s2) = filter (\<lambda>h. \<not> lh_owned h) (lg_handlers s) \<and>
     length (filter lh_owned (lg_handlers s2)) \<in> {1, 2} \<and>
     (\<exists>h \<in> set (lg_handlers s2). lh_owned h \<and> lh_target h = StdoutStream) \<and>
     (\<forall>dir x. lc_log_dir b = Some dir \<and> lg_open s dir (lc_service b @ ''.log'') = Some x \<longrightarrow>
        last (lg_warnings s2) = (''log_file_unavailable'', dir, describe_error x))"
proof -
  note first = configure_logging_eq [OF assms(1,3), folded assms(4)]
  have answers: "\<forall>dir name e. lg_open s1 dir name = Some e \<longrightarrow> is_os_error e" using first assms(3) by simp
  note second = configure_logging_eq [OF assms(2) answers, folded assms(5)]
  note once = configure_logging_eq [OF assms(2,3), folded assms(6)]
  have answer: "lg_open s1 = lg_open s" using first by blast
  have "own_handlers s1 b = own_handlers s b" unfolding own_handlers_def answer ..
  moreover have owned: "filter lh_owned (own_handlers s c) = own_handlers s c" "filter (\<lambda>h. \<not> lh_owned h) (own_handlers s c) = []" for c
    by (auto simp: own_handlers_def own_handler_def split: option.split)
  moreover have "length (own_handlers s b) \<in> {1, 2}" "\<exists>h \<in> set (own_handlers s b). lh_owned h \<and> lh_target h = StdoutStream"
    by (auto simp: own_handlers_def own_handler_def split: option.split)
  moreover have "filter lh_owned (filter (\<lambda>h. \<not> lh_owned h) hs) = []" for hs by (induction hs) auto
  ultimately show ?thesis using first second once by auto
qed

lemma logging_is_reconfigured_witness:
  "let c = process_logging ((default_settings ''t'')\<lparr>log_dir := Some ''/logs''\<rparr>) ''bot'';
       s = \<lparr>lg_handlers = [\<lparr>lh_owned = False, lh_target = ForeignTarget ''pytest'', lh_renderer = None\<rparr>], lg_level = ''WARNING'',
            lg_structlog = False, lg_warnings = [], lg_context = [], lg_open = \<lambda>_ _. Some (OSError ''read-only'')\<rparr>;
       s2 = snd (configure_logging c (snd (configure_logging c s)))
   in length (filter lh_owned (lg_handlers s2)) \<in> {1, 2} \<and> lg_handlers s2 = lg_handlers (snd (configure_logging c s))"
proof -
  let ?c = "process_logging ((default_settings ''t'')\<lparr>log_dir := Some ''/logs''\<rparr>) ''bot''"
  let ?s = "\<lparr>lg_handlers = [\<lparr>lh_owned = False, lh_target = ForeignTarget ''pytest'', lh_renderer = None\<rparr>], lg_level = ''WARNING'',
            lg_structlog = False, lg_warnings = [], lg_context = [], lg_open = \<lambda>_ _. Some (OSError ''read-only'')\<rparr>"
  have level: "map upper_char (lc_log_level ?c) \<in> set LEVEL_NAMES"
    by (simp add: process_logging_def default_settings_def LEVEL_NAMES_def upper_char_def)
  have answers: "\<forall>dir name e. lg_open ?s dir name = Some e \<longrightarrow> is_os_error e" by (auto simp: is_os_error_def)
  show ?thesis
    unfolding Let_def using logging_is_reconfigured [OF level level answers refl refl refl] by blast
qed

end
