(* ===== verification/Process.thy ===== *)
theory Process
  imports Observability Flow ProgressListener Lifecycle
begin

text \<open>
  The two processes from start to end: \<open>main\<close> of \<open>src/main.py\<close>, and \<open>startup\<close>, \<open>shutdown\<close> and the class
  \<open>WorkerSettings\<close> of \<open>src/infrastructure/queue/worker_settings.py\<close>.  A call to a library that opens or closes
  something is its name and arguments; the state says which of them raise.  How polling ends and what has
  become of the listener's task by then are arguments.
\<close>

section \<open>Calls\<close>

datatype process_call =
    OpenEngine string
  | OpenPool string int int
  | OpenRedis string
  | LoadTexts
  | CreateBot bot_client
  | SetCommands "string option" "(string \<times> string) list"
  | StartListener
  | StartPolling
  | ClosePool
  | CloseRedis
  | DisposeEngine
  | CloseSession

record process =
  pr_calls :: "process_call list"
  pr_answer :: "process_call \<Rightarrow> exn option"
  pr_logging :: log_state
  pr_sentry :: "sentry_init option"

type_synonym 'a prio = "(process, exn, 'a) io"

definition call :: "process_call \<Rightarrow> unit prio" where
  "call c =
     bindE (askE (\<lambda>p. pr_answer p c)) (\<lambda>answer.
       case answer of Some e \<Rightarrow> raiseE e | None \<Rightarrow> tellE (\<lambda>p. p\<lparr>pr_calls := pr_calls p @ [c]\<rparr>))"

text \<open>What is open after a sequence of calls.\<close>

datatype resource = Engine | QueuePool | RedisConnection | BotSession

fun after_call :: "process_call \<Rightarrow> resource set \<Rightarrow> resource set" where
  "after_call (OpenEngine _) r = insert Engine r"
| "after_call (OpenPool _ _ _) r = insert QueuePool r"
| "after_call (OpenRedis _) r = insert RedisConnection r"
| "after_call (CreateBot _) r = insert BotSession r"
| "after_call ClosePool r = r - {QueuePool}"
| "after_call CloseRedis r = r - {RedisConnection}"
| "after_call DisposeEngine r = r - {Engine}"
| "after_call CloseSession r = r - {BotSession}"
| "after_call _ r = r"

definition open_resources :: "process \<Rightarrow> resource set" where
  "open_resources p = fold after_call (pr_calls p) {}"

section \<open>The bot\<close>

definition observe :: "sentry_env \<Rightarrow> string option \<Rightarrow> settings \<Rightarrow> string \<Rightarrow> unit prio" where
  "observe env version s service =
     thenE (zoom pr_logging (\<lambda>l p. p\<lparr>pr_logging := l\<rparr>) (configure_logging (process_logging s service)))
       (thenE (zoom pr_sentry (\<lambda>x p. p\<lparr>pr_sentry := x\<rparr>) (init_sentry env version s service)) (retE ()))"

definition set_menus :: "(string \<Rightarrow> i18n) \<Rightarrow> unit prio" where
  "set_menus core = forE (\<lambda>(language_code, commands). call (SetCommands language_code commands)) (menus core)"

text \<open>Everything \<open>main\<close> does before the \<open>try\<close> around the polling.\<close>

definition bot_start :: "sentry_env \<Rightarrow> string option \<Rightarrow> settings \<Rightarrow> (string \<Rightarrow> i18n) \<Rightarrow> unit prio" where
  "bot_start env version s core =
     thenE (observe env version s ''bot'')
     (thenE (call (OpenEngine (sqlalchemy_dsn s)))
     (thenE (call (OpenPool (redis_host s) (redis_port s) (redis_db s)))
     (thenE (call (OpenRedis (redis_dsn s)))
     (bindE (liftE (bot_policy s)) (\<lambda>policy.
      thenE (call LoadTexts)
     (thenE (call (CreateBot (create_telegram_bot s)))
     (thenE (set_menus core)
       (call StartListener))))))))"

text \<open>The task of the listener: still running (\<open>None\<close>, the cancellation ends it), or how it has ended.\<close>

type_synonym listener_task = "(exn + unit) option"

definition await_listener :: "listener_task \<Rightarrow> unit prio" where
  "await_listener task =
     (case task of
        Some (Inl e) \<Rightarrow> if e = CancelledError then retE () else raiseE e
      | _ \<Rightarrow> retE ())"

definition bot_shutdown :: "listener_task \<Rightarrow> unit prio" where
  "bot_shutdown task =
     thenE (await_listener task) (thenE (call ClosePool) (thenE (call CloseRedis) (call DisposeEngine)))"

text \<open>\<open>start_polling\<close> closes the session of its bot when it ends.\<close>

definition poll :: "exn + unit \<Rightarrow> unit prio" where
  "poll outcome = thenE (call StartPolling) (thenE (call CloseSession) (liftE outcome))"

definition bot_main ::
    "sentry_env \<Rightarrow> string option \<Rightarrow> settings \<Rightarrow> (string \<Rightarrow> i18n) \<Rightarrow> exn + unit \<Rightarrow> listener_task \<Rightarrow> unit prio" where
  "bot_main env version s core polling task =
     thenE (bot_start env version s core) (finallyE (poll polling) (bot_shutdown task))"

section \<open>The worker\<close>

definition worker_start :: "sentry_env \<Rightarrow> string option \<Rightarrow> settings \<Rightarrow> fluent_localizer \<Rightarrow> worker_ctx prio" where
  "worker_start env version s localizer =
     thenE (observe env version s ''worker'')
     (thenE (call (OpenEngine (sqlalchemy_dsn s)))
     (thenE (call LoadTexts)
     (thenE (call (CreateBot (create_telegram_bot s)))
       (retE (worker_startup s localizer)))))"

definition worker_shutdown :: "unit prio" where
  "worker_shutdown = thenE (call CloseSession) (call DisposeEngine)"

datatype worker_function = PingFunction | DownloadFunction

datatype cron_function = CleanupExpiredDownloads | ReapStaleRequests

record worker_class =
  wc_functions :: "worker_function list"
  wc_cron_jobs :: "(cron_function \<times> int list) list"
  wc_redis :: "string \<times> int \<times> int"
  wc_job_timeout :: int
  wc_health_check_interval :: int

definition worker_settings :: "settings \<Rightarrow> worker_class" where
  "worker_settings s =
     \<lparr>wc_functions = [PingFunction, DownloadFunction],
      wc_cron_jobs = [(CleanupExpiredDownloads, [0, 15, 30, 45]), (ReapStaleRequests, map (\<lambda>i. 5 * int i) [0..<12])],
      wc_redis = (redis_host s, redis_port s, redis_db s), wc_job_timeout = JOB_TIMEOUT_SECONDS, wc_health_check_interval = 60\<rparr>"

text \<open>arq runs a cron job once in every minute of its set; a time is in microseconds.\<close>

definition cron_minute :: "settings \<Rightarrow> cron_function \<Rightarrow> time \<Rightarrow> bool" where
  "cron_minute s f t \<longleftrightarrow>
     (case map_of (wc_cron_jobs (worker_settings s)) f of None \<Rightarrow> False | Some minutes \<Rightarrow> t div 60000000 mod 60 \<in> set minutes)"

section \<open>Facts\<close>

lemma call_cases:
  "call c p = (case pr_answer p c of Some e \<Rightarrow> (Inl e, p) | None \<Rightarrow> (Inr (), p\<lparr>pr_calls := pr_calls p @ [c]\<rparr>))"
  by (simp add: call_def io_simps split: option.split)

lemma call_Inr: "call c p = (Inr x, p') \<longleftrightarrow> pr_answer p c = None \<and> p' = p\<lparr>pr_calls := pr_calls p @ [c]\<rparr>"
  by (auto simp: call_cases split: option.splits)

lemma thenE_Inr: "thenE m n w = (Inr y, w') \<longleftrightarrow> (\<exists>x v. m w = (Inr x, v) \<and> n v = (Inr y, w'))"
  by (auto simp: thenE_def bindE_def split: prod.splits sum.splits)

lemma bindE_liftE_Inr: "bindE (liftE r) f w = (Inr y, w') \<longleftrightarrow> (\<exists>x. r = Inr x \<and> f x w = (Inr y, w'))"
  by (auto simp: bindE_def liftE_def split: sum.splits)

lemma keeps_observe: "keeps (\<lambda>p. pr_calls p = cs \<and> pr_answer p = a) (observe env version s service)"
  unfolding observe_def by (intro keeps_thenE keeps_retE keepsI) simp_all

lemma observe_calls: "observe env version s service p = (r, p') \<Longrightarrow> pr_calls p' = pr_calls p \<and> pr_answer p' = pr_answer p"
proof -
  assume run: "observe env version s service p = (r, p')"
  have "pr_calls (snd (observe env version s service p)) = pr_calls p \<and> pr_answer (snd (observe env version s service p)) = pr_answer p"
    using keepsD [OF keeps_observe [where cs = "pr_calls p" and a = "pr_answer p"], where w = p] by blast
  then show ?thesis unfolding run snd_conv .
qed

lemma forE_calls:
  "forE (\<lambda>x. call (f x)) xs p = (Inr (), p') \<Longrightarrow> pr_calls p' = pr_calls p @ map f xs \<and> pr_answer p' = pr_answer p"
proof (induction xs arbitrary: p)
  case (Cons x xs)
  then obtain v where "call (f x) p = (Inr (), v)" "forE (\<lambda>x. call (f x)) xs v = (Inr (), p')"
    by (auto simp: thenE_Inr)
  then show ?case using Cons.IH by (auto simp: call_Inr)
qed (simp add: retE_def)

lemma after_menus: "fold after_call (map (\<lambda>(l, cs). SetCommands l cs) xs) r = r"
proof (induction xs)
  case (Cons x xs)
  then show ?case by (cases x) simp
qed simp

lemma bot_start_opens:
  assumes "bot_start env version s core p = (Inr (), p1)" and "pr_calls p = []"
  shows "open_resources p1 = {Engine, QueuePool, RedisConnection, BotSession} \<and> pr_answer p1 = pr_answer p"
proof -
  have menus: "set_menus core v = (Inr (), w) \<Longrightarrow>
      pr_calls w = pr_calls v @ map (\<lambda>(l, cs). SetCommands l cs) (menus core) \<and> pr_answer w = pr_answer v" for v w
    using forE_calls [of "\<lambda>(l, cs). SetCommands l cs" "menus core"] by (simp add: set_menus_def case_prod_unfold)
  show ?thesis
    using assms unfolding bot_start_def thenE_Inr bindE_liftE_Inr call_Inr
    by (auto dest!: observe_calls menus simp: open_resources_def after_menus)
qed

lemma open_after: "open_resources (p\<lparr>pr_calls := pr_calls p @ cs\<rparr>) = fold after_call cs (open_resources p)"
  by (simp add: open_resources_def)

definition listener_failed :: "listener_task \<Rightarrow> exn option" where
  "listener_failed task = (case task of Some (Inl e) \<Rightarrow> if e = CancelledError then None else Some e | _ \<Rightarrow> None)"

lemma await_listener_eq: "await_listener task p = (case listener_failed task of None \<Rightarrow> (Inr (), p) | Some e \<Rightarrow> (Inl e, p))"
  by (auto simp: await_listener_def listener_failed_def io_simps split: option.split sum.split)

lemma bot_shutdown_outcome_core:
  assumes "bot_start env version s core p = (Inr (), p1)" and "pr_calls p = []"
    and "\<forall>c \<in> {StartPolling, CloseSession, ClosePool, CloseRedis, DisposeEngine}. pr_answer p c = None"
  shows "\<exists>p2. bot_main env version s core polling task p =
       ((case listener_failed task of None \<Rightarrow> polling | Some e \<Rightarrow> Inl e), p2) \<and>
     open_resources p2 = (case listener_failed task of None \<Rightarrow> {} | Some e \<Rightarrow> {Engine, QueuePool, RedisConnection})"
proof -
  have start: "open_resources p1 = {Engine, QueuePool, RedisConnection, BotSession}" and answer: "pr_answer p1 = pr_answer p"
    using bot_start_opens [OF assms(1,2)] by simp_all
  let ?poll = "p1\<lparr>pr_calls := pr_calls p1 @ [StartPolling, CloseSession]\<rparr>"
  have poll: "poll polling p1 = (polling, ?poll)"
    using assms(3) answer by (simp add: poll_def thenE_def bindE_def liftE_def call_cases)
  have polled: "open_resources ?poll = {Engine, QueuePool, RedisConnection}"
    by (simp only: open_after start) auto
  show ?thesis
  proof (cases "listener_failed task")
    case None
    let ?done = "?poll\<lparr>pr_calls := pr_calls ?poll @ [ClosePool, CloseRedis, DisposeEngine]\<rparr>"
    have "bot_shutdown task ?poll = (Inr (), ?done)"
      using None assms(3) answer by (simp add: bot_shutdown_def thenE_def bindE_def await_listener_eq call_cases)
    then have "bot_main env version s core polling task p = (polling, ?done)"
      by (simp add: bot_main_def thenE_def bindE_def assms(1) finallyE_def poll)
    moreover have "open_resources ?done = {}" by (simp only: open_after start) auto
    ultimately show ?thesis unfolding None by simp
  next
    case (Some e)
    have "bot_shutdown task ?poll = (Inl e, ?poll)"
      using Some by (simp add: bot_shutdown_def thenE_def bindE_def await_listener_eq)
    then have "bot_main env version s core polling task p = (Inl e, ?poll)"
      by (simp add: bot_main_def thenE_def bindE_def assms(1) finallyE_def poll)
    then show ?thesis using polled unfolding Some by simp
  qed
qed

text \<open>An edit of the listener that failed while the bot was polling is what the process ends with.\<close>

lemma failed_edit_ends_the_process:
  assumes "run_listener cfg messages l = (Inl e, l')" and "e \<noteq> CancelledError"
    and "bot_start env version s core p = (Inr (), p1)" and "pr_calls p = []"
    and "\<forall>c \<in> {StartPolling, CloseSession, ClosePool, CloseRedis, DisposeEngine}. pr_answer p c = None"
  shows "fst (bot_main env version s core polling (Some (fst (run_listener cfg messages l))) p) = Inl e"
proof -
  let ?task = "Some (fst (run_listener cfg messages l))"
  have failed: "listener_failed ?task = Some e" unfolding assms(1) by (simp add: listener_failed_def assms(2))
  obtain p2 where "bot_main env version s core polling ?task p = ((case listener_failed ?task of None \<Rightarrow> polling | Some e \<Rightarrow> Inl e), p2)"
    using bot_shutdown_outcome_core [OF assms(3-5), of polling ?task] by blast
  then show ?thesis unfolding failed by (simp only: fst_conv option.case)
qed


lemma forE_call_ok:
  "\<forall>c. pr_answer p c = None \<Longrightarrow> forE (\<lambda>x. call (f x)) xs p = (Inr (), p\<lparr>pr_calls := pr_calls p @ map f xs\<rparr>)"
  by (induction xs arbitrary: p) (simp_all add: thenE_def bindE_def call_cases retE_def)

definition example_process :: process where
  "example_process = \<lparr>pr_calls = [], pr_answer = \<lambda>_. None,
     pr_logging = \<lparr>lg_handlers = [], lg_level = ''WARNING'', lg_structlog = False, lg_warnings = [], lg_context = [], lg_open = \<lambda>_ _. None\<rparr>,
     pr_sentry = None\<rparr>"

lemma example_start:
  "\<exists>p1. bot_start \<lparr>sv_repr = \<lambda>_. [], sv_uuid_text = show_nat, sv_attribute = \<lambda>_ _. PNone\<rparr> None (default_settings ''t'')
     (\<lambda>locale key args. key) example_process = (Inr (), p1)"
proof -
  let ?env = "\<lparr>sv_repr = \<lambda>_. [], sv_uuid_text = show_nat, sv_attribute = \<lambda>_ _. PNone\<rparr>" and ?s = "default_settings ''t''"
  have level: "map upper_char (lc_log_level (process_logging ?s ''bot'')) \<in> set LEVEL_NAMES"
    by (simp add: process_logging_def default_settings_def LEVEL_NAMES_def upper_char_def)
  have "fst (configure_logging (process_logging ?s ''bot'') (pr_logging example_process)) = Inr ()"
    using configure_logging_eq [OF level, of "pr_logging example_process"] by (simp add: example_process_def)
  then obtain p0 where p0: "observe ?env None ?s ''bot'' example_process = (Inr (), p0)"
    by (cases "configure_logging (process_logging ?s ''bot'') (pr_logging example_process)")
      (simp add: observe_def thenE_def bindE_def zoom_def retE_def init_sentry_def sentry_options_def default_settings_def)
  have ok: "pr_answer p0 c = None" for c using observe_calls [OF p0] by (simp add: example_process_def)
  have policy: "bot_policy ?s = Inr (FormatPolicy [])" by (simp add: bot_policy_def default_settings_def)
  have menus: "\<forall>c. pr_answer q c = None \<Longrightarrow> fst (set_menus core q) = Inr () \<and> pr_answer (snd (set_menus core q)) = pr_answer q" for q core
    using forE_call_ok [of q "\<lambda>(l, cs). SetCommands l cs" "menus core"] by (simp add: set_menus_def case_prod_unfold)
  let ?q = "p0\<lparr>pr_calls := pr_calls p0 @ [OpenEngine (sqlalchemy_dsn ?s), OpenPool (redis_host ?s) (redis_port ?s) (redis_db ?s),
     OpenRedis (redis_dsn ?s), LoadTexts, CreateBot (create_telegram_bot ?s)]\<rparr>"
  obtain q where q: "set_menus (\<lambda>locale key args. key) ?q = (Inr (), q)" "pr_answer q = pr_answer ?q"
    using menus [of ?q "\<lambda>locale key args. key"] ok by (cases "set_menus (\<lambda>locale key args. key) ?q") auto
  show ?thesis
    unfolding bot_start_def thenE_def by (simp add: bindE_def p0 call_cases ok liftE_def policy q)
qed


text \<open>The schedule of the reaper: a tick at most five minutes after any moment, and an hour's sweep of old files four times.\<close>

lemma reaper_runs_every_five_minutes:
  "\<exists>t'. t \<le> t' \<and> t' < t + 300000000 \<and> cron_minute s ReapStaleRequests t'"
proof -
  let ?m = "t div 60000000"
  define k where "k = (- ?m) mod 5"
  have k: "0 \<le> k" "k < 5" by (simp_all add: k_def)
  let ?t = "if k = 0 then t else (?m + k) * 60000000"
  have div: "?t div 60000000 = ?m + k" by simp
  have five: "(?m + k) mod 5 = 0" unfolding k_def by (simp add: mod_simps)
  let ?u = "(?m + k) mod 60"
  have "?u mod 5 = 0" using five by (simp add: mod_mod_cancel)
  then obtain i where i: "?u = 5 * i" by (metis dvdE mod_0_imp_dvd)
  have "0 \<le> ?u" "?u < 60" by simp_all
  then have "?u = 5 * int (nat i) \<and> nat i < 12" using i by auto
  then have "?u \<in> set (map (\<lambda>i. 5 * int i) [0..<12])" by (auto intro!: image_eqI [of _ _ "nat i"])
  then have "cron_minute s ReapStaleRequests ?t" unfolding cron_minute_def div by (simp add: worker_settings_def)
  moreover have "t \<le> ?t" "?t < t + 300000000" using k by (auto simp: field_simps)
  ultimately show ?thesis by blast
qed

end
