(* ===== verification/Language.thy ===== *)
theory Language
  imports BotProperties
begin

text \<open>
  The choice of a language across the two processes: \<open>handlers/language.py\<close> writes it to the locale cache in
  Redis, which the bot's next updates read (\<open>i18n.py\<close>), and to the user's row, which the worker reads for its
  messages (\<open>process_download.py\<close>).
\<close>

lemma telegram_ids_Cons:
  "telegram_ids (u # us) = (case urow_telegram_id u of None \<Rightarrow> [] | Some t \<Rightarrow> [t]) @ telegram_ids us"
  by (simp add: telegram_ids_def map_filter_def split: option.split)

lemma one_user_per_telegram_id:
  "distinct (telegram_ids us) \<Longrightarrow> length (filter (\<lambda>u. urow_telegram_id u = Some tid) us) \<le> 1"
proof (induction us)
  case (Cons u us)
  have rest: "distinct (telegram_ids us)"
    using Cons.prems by (simp add: telegram_ids_Cons)
  show ?case
  proof (cases "urow_telegram_id u = Some tid")
    case True
    then have "tid \<notin> set (telegram_ids us)"
      using Cons.prems by (simp add: telegram_ids_Cons)
    then have "filter (\<lambda>u. urow_telegram_id u = Some tid) us = []"
      by (auto simp: set_telegram_ids filter_empty_conv)
    then show ?thesis using True by simp
  next
    case False
    then show ?thesis using Cons.IH [OF rest] by simp
  qed
qed simp

lemma users_by_telegram_id_cases:
  assumes "db_ok d"
  obtains (none) "users_by_telegram_id tid d = []" | (one) m where "users_by_telegram_id tid d = [m]" "m \<in> set (db_users d)"
proof -
  have "length (users_by_telegram_id tid d) \<le> 1"
    using assms one_user_per_telegram_id by (simp add: users_by_telegram_id_def db_ok_def)
  then consider "users_by_telegram_id tid d = []" | m where "users_by_telegram_id tid d = [m]"
    by (cases "users_by_telegram_id tid d") auto
  then show ?thesis
  proof cases
    case 1
    then show ?thesis by (rule none)
  next
    case 2
    have "m \<in> set (users_by_telegram_id tid d)" unfolding 2 by simp
    then have "m \<in> set (db_users d)" unfolding users_by_telegram_id_def by simp
    with 2 show ?thesis by (rule one)
  qed
qed

definition with_language :: "user_row \<Rightarrow> string \<Rightarrow> db \<Rightarrow> db" where
  "with_language m l d = update_users (\<lambda>u. urow_id u = urow_id m) (\<lambda>u. u\<lparr>urow_language := Some l\<rparr>) d"

lemma set_language_run:
  assumes "db_ok d" and "length l \<le> 8"
  shows "session_scope (set_user_language session_users tid (Some l)) d =
     (case users_by_telegram_id tid d of
        [] \<Rightarrow> (Inr None, d)
      | m # _ \<Rightarrow> (Inr (Some ((to_user m)\<lparr>user_language := Some l\<rparr>)), with_language m l d))"
  using assms(1)
proof (cases rule: users_by_telegram_id_cases [of _ tid])
  case none
  then show ?thesis
    by (simp add: session_scope_def set_user_language_def session_users_def sql_user_set_language_def io_simps one_or_none_def)
next
  case (one m)
  have "user_columns_fit m" using assms(1) one(2) by (auto simp: db_ok_def list_all_iff)
  then have "user_columns_fit (m\<lparr>urow_language := Some l\<rparr>)" using assms(2) by (simp add: user_columns_fit_def)
  then show ?thesis using one(1)
    by (simp add: session_scope_def set_user_language_def session_users_def sql_user_set_language_def io_simps one_or_none_def
        with_language_def to_user_def)
qed

lemma read_back:
  assumes "m \<in> set (db_users d)" and "distinct (map urow_id (db_users d))"
  shows "fst (tx_user_get_by_id (urow_id m) (with_language m l d)) = Inr (Some ((to_user m)\<lparr>user_language := Some l\<rparr>))"
proof -
  have "find_user (urow_id m) d = Some m"
    using assms by (auto simp: find_user_def find_Some_iff distinct_map inj_on_def set_conv_nth nth_eq_iff_index_eq distinct_conv_nth)
  then have "find_user (urow_id m) (with_language m l d) = Some (m\<lparr>urow_language := Some l\<rparr>)"
    by (simp add: find_user_def with_language_def update_users_def find_map_same_key)
  then show ?thesis
    by (simp add: tx_user_get_by_id_def sql_user_get_by_id_def session_scope_def askE_def to_user_def)
qed

section \<open>The handler\<close>

text \<open>What the handler does after the language was stored: it tells the user, and that touches neither store.\<close>

lemma keeps_confirmation:
  "keeps (\<lambda>b. b_world b = w \<and> b_locales b = lc)
     (thenE (log_bot e)
     (thenE (on_card cb (\<lambda>msg. respond msg (txt msg) (mk msg))) (answer_callback t a)))"
proof -
  have send: "keeps (\<lambda>b. b_world b = w \<and> b_locales b = lc) (in_chat m)" for m :: "int chatio"
    by (rule keepsI) (simp add: in_chat_def)
  have tell: "keeps (\<lambda>b. b_world b = w \<and> b_locales b = lc) (in_chat m)" for m :: "unit chatio"
    by (rule keepsI) (simp add: in_chat_def)
  have log: "keeps (\<lambda>b. b_world b = w \<and> b_locales b = lc) (log_bot e)"
    by (rule keepsI) (simp add: log_bot_def tellE_def)
  show ?thesis
    unfolding on_card_def respond_def reply_def answer_callback_def
    by (intro keeps_thenE keeps_bindE keeps_option keeps_retE send tell log)
qed


text \<open>The row is never read for the bot's locale: when Redis has lost the entry, the reported language counts again.\<close>

lemma eviction_forgets_the_choice:
  assumes "be_manager env = create_i18n_manager True" and "lc_down lc = None" and "lc_values lc (locale_key u) = None"
  shows "fst (get_locale (be_manager env) (Some u) lc) = Inr (reported_locale (be_manager env) (Some u))"
proof -
  have "lm_redis (be_manager env)" by (simp add: assms(1) create_i18n_manager_def)
  then show ?thesis using assms(2,3) by (simp add: get_locale_eq locale_of_def normalize_locale_def)
qed


end
