(* ===== verification/RateLimiterRace.thy ===== *)
theory RateLimiterRace
  imports RateLimiter
begin

text \<open>
  Attempts on one key that overlap.  An attempt of \<open>RedisRateLimiter.acquire\<close> is two transactions on Redis, and
  updates are handled as concurrent tasks, so other attempts may run between them.  A schedule says which
  transaction of which attempt runs when, and any of them may fail; with attempts one after the other it is \<open>acquire\<close>.
\<close>

datatype slot_event = BeginSlot nat | FinishSlot nat

record race =
  rc_limiter :: limiter
  rc_pending :: "(nat \<times> rat) list"
  rc_accepted :: "rat list"

fun race_step :: "string \<Rightarrow> int \<Rightarrow> int \<Rightarrow> rat \<times> slot_event \<Rightarrow> race \<Rightarrow> race" where
  "race_step key limit window (t, BeginSlot i) r =
     (case begin_slot (KEY_PREFIX @ key) limit window t ((rc_limiter r)\<lparr>lim_now := t\<rparr>) of
        (Inr None, s) \<Rightarrow> r\<lparr>rc_limiter := s, rc_pending := rc_pending r @ [(i, t)]\<rparr>
      | (_, s) \<Rightarrow> r\<lparr>rc_limiter := s\<rparr>)"
| "race_step key limit window (t, FinishSlot i) r =
     (case map_of (rc_pending r) i of
        None \<Rightarrow> r
      | Some now \<Rightarrow>
          (case finish_slot (KEY_PREFIX @ key) window now ((rc_limiter r)\<lparr>lim_now := t\<rparr>) of
             (v, s) \<Rightarrow> r\<lparr>rc_limiter := s, rc_pending := remove1 (i, now) (rc_pending r),
                           rc_accepted := rc_accepted r @ slot_of v now\<rparr>))"

definition race_run :: "string \<Rightarrow> int \<Rightarrow> int \<Rightarrow> (rat \<times> slot_event) list \<Rightarrow> race \<Rightarrow> race" where
  "race_run key limit window events r = fold (race_step key limit window) events r"

definition start_race :: "limiter \<Rightarrow> race" where
  "start_race s = \<lparr>rc_limiter = s, rc_pending = [], rc_accepted = []\<rparr>"

text \<open>Attempts one after the other are \<open>acquire\<close>.\<close>

lemma sequential_attempt:
  assumes "rc_pending r = []" and "acquire key limit window ((rc_limiter r)\<lparr>lim_now := t\<rparr>) = (res, s)"
  shows "race_run key limit window [(t, BeginSlot i), (t, FinishSlot i)] r =
     r\<lparr>rc_limiter := s, rc_accepted := rc_accepted r @ slot_of res t\<rparr>"
proof -
  let ?s = "(rc_limiter r)\<lparr>lim_now := t\<rparr>"
  obtain d s1 where b: "begin_slot (KEY_PREFIX @ key) limit window t ?s = (d, s1)" by fastforce
  have now: "s1\<lparr>lim_now := t\<rparr> = s1"
    using begin_slot_cases [OF b] by (auto simp: pruned_def)
  have refused: "\<not> rl_allowed v" if "d = Inr (Some v)" for v
    using begin_slot_cases [OF b] that by (auto split: if_splits)
  consider (raised) e where "d = Inl e" | (free) "d = Inr None" | (full) v where "d = Inr (Some v)"
    by (cases d) auto
  then show ?thesis
  proof cases
    case free
    then have "acquire key limit window ?s = finish_slot (KEY_PREFIX @ key) window t s1"
      using b by (simp add: acquire_def bindE_def askE_def)
    then have finish: "finish_slot (KEY_PREFIX @ key) window t s1 = (res, s)" using assms(2) by simp
    have "r\<lparr>rc_limiter := s, rc_pending := [], rc_accepted := rc_accepted r @ slot_of res t\<rparr> =
        r\<lparr>rc_limiter := s, rc_accepted := rc_accepted r @ slot_of res t\<rparr>" using assms(1) by (cases r) simp
    then show ?thesis using assms(1) b free now finish by (simp add: race_run_def)
  qed (use assms b refused in \<open>auto simp: race_run_def acquire_def bindE_def askE_def retE_def slot_of_def\<close>)
qed

section \<open>The invariant\<close>

definition count_in :: "int \<Rightarrow> rat \<Rightarrow> rat list \<Rightarrow> int" where
  "count_in window u xs = int (length (filter (in_window window u) xs))"

definition count_since :: "rat \<Rightarrow> rat list \<Rightarrow> int" where
  "count_since since xs = int (length (filter (\<lambda>x. since < x) xs))"

lemma count_in_simps [simp]:
  "count_in window u [] = 0" "count_in window u (xs @ [x]) = count_in window u xs + (if in_window window u x then 1 else 0)"
  by (simp_all add: count_in_def)

lemma count_since_simps [simp]:
  "count_since since (xs @ [x]) = count_since since xs + (if since < x then 1 else 0)"
  by (simp add: count_since_def)

lemma count_in_remove1: "x \<in> set xs \<Longrightarrow> count_in window u (map snd (remove1 x xs)) =
    count_in window u (map snd xs) - (if in_window window u (snd x) then 1 else 0)"
  by (induction xs) (auto simp: count_in_def)

lemma count_in_le_length: "count_in window u xs \<le> int (length xs)"
  by (simp add: count_in_def)

lemma count_in_since: "t \<le> u \<Longrightarrow> count_in window u xs \<le> count_since (t - of_int window) xs"
  unfolding count_in_def count_since_def by (simp, rule filter_length_le) (auto simp: in_window_def)

text \<open>
  At time \<open>t\<close> with at most \<open>crowd\<close> attempts between their transactions: the set holds at least as many events as attempts
  were accepted that a later window can contain, and its expiry drops none of them; accepted and pending ones together stay below
  the limit and the crowd in every window.
\<close>

definition race_ok :: "string \<Rightarrow> int \<Rightarrow> int \<Rightarrow> int \<Rightarrow> rat \<Rightarrow> race \<Rightarrow> bool" where
  "race_ok key limit window crowd t r \<longleftrightarrow>
     (\<forall>e \<in> set (stored key (rc_limiter r)). \<forall>x. zset_expiry (KEY_PREFIX @ key) (rc_limiter r) = Some x \<longrightarrow> fst e + of_int window \<le> x) \<and>
     (\<forall>e \<in> set (stored key (rc_limiter r)). fst e \<le> t) \<and> (\<forall>x \<in> set (map snd (rc_pending r)). x \<le> t) \<and>
     (\<forall>since \<ge> t - of_int window. count_since since (rc_accepted r) \<le> count_since since (map fst (stored key (rc_limiter r)))) \<and>
     (\<forall>u. count_in window u (rc_accepted r) + count_in window u (map snd (rc_pending r)) \<le> limit - 1 + crowd)"

text \<open>What a transaction at time \<open>t\<close> sees of the window: all of it, expired or not.\<close>

lemma visible_since:
  assumes "\<forall>e \<in> set (stored key s). \<forall>x. zset_expiry (KEY_PREFIX @ key) s = Some x \<longrightarrow> fst e + of_int window \<le> x"
    and "t - of_int window \<le> since"
  shows "filter (\<lambda>e. since < fst e) (zset (KEY_PREFIX @ key) (s\<lparr>lim_now := t\<rparr>)) = filter (\<lambda>e. since < fst e) (stored key s)"
proof (cases "lim_sets s (KEY_PREFIX @ key)")
  case None
  then show ?thesis by (simp add: zset_def stored_def)
next
  case (Some p)
  obtain evs ex where p: "p = (evs, ex)" by fastforce
  show ?thesis
  proof (cases ex)
    case None
    then show ?thesis using Some p by (simp add: zset_def stored_def)
  next
    case (Some x)
    have bound: "\<forall>e \<in> set evs. fst e + of_int window \<le> x"
      using assms(1) \<open>lim_sets s (KEY_PREFIX @ key) = Some p\<close> p Some by (auto simp: stored_def zset_expiry_def)
    have "filter (\<lambda>e. since < fst e) evs = []" if "x \<le> t"
    proof -
      have "fst e \<le> since" if "e \<in> set evs" for e
      proof -
        have "fst e + of_int window \<le> t" using bound that \<open>x \<le> t\<close> by fastforce
        then show ?thesis using assms(2) by linarith
      qed
      then show ?thesis by (auto simp: filter_empty_conv not_less)
    qed
    then show ?thesis
      using \<open>lim_sets s (KEY_PREFIX @ key) = Some p\<close> p Some by (auto simp: zset_def stored_def)
  qed
qed

lemma set_zset_subset: "set (zset (KEY_PREFIX @ key) (s\<lparr>lim_now := t\<rparr>)) \<subseteq> set (stored key s)"
  by (auto simp: zset_def stored_def split: option.splits if_splits)

text \<open>What the first transaction leaves of the set.\<close>

lemma begin_keeps_window:
  assumes expiry: "\<forall>e \<in> set (stored key l). \<forall>x. zset_expiry (KEY_PREFIX @ key) l = Some x \<longrightarrow> fst e + of_int window \<le> x"
    and run: "begin_slot (KEY_PREFIX @ key) limit window t (l\<lparr>lim_now := t\<rparr>) = (d, l')"
  shows "set (stored key l') \<subseteq> set (stored key l)"
    and "\<forall>e \<in> set (stored key l'). \<forall>x. zset_expiry (KEY_PREFIX @ key) l' = Some x \<longrightarrow> fst e + of_int window \<le> x"
    and "t - of_int window \<le> v \<Longrightarrow> count_since v (map fst (stored key l')) = count_since v (map fst (stored key l))"
    and "d = Inr None \<Longrightarrow> count_since (t - of_int window) (map fst (stored key l)) < limit"
proof -
  let ?k = "KEY_PREFIX @ key" and ?S = "stored key l" and ?s = "l\<lparr>lim_now := t\<rparr>"
  let ?kept = "filter (\<lambda>e. t - of_int window < fst e) ?S"
  have seen: "window_of ?k (t - of_int window) ?s = ?kept"
    using visible_since [OF expiry, of t "t - of_int window"] by (simp add: window_of_def)
  have same: "stored key ?s = ?S" "zset_expiry ?k ?s = zset_expiry ?k l" by (simp_all add: stored_def zset_expiry_def)
  obtain n where "(\<exists>e. d = Inl e \<and> l' = ?s\<lparr>lim_redis := n\<rparr>) \<or>
     (l' = (pruned ?k (t - of_int window) ?s)\<lparr>lim_redis := n\<rparr> \<and>
      ((\<exists>e. d = Inl e) \<or> d = Inr (if int (length ?kept) \<ge> limit then Some (denied window t ?kept) else None)))"
    using begin_slot_cases [OF run] unfolding seen by blast
  then have "(stored key l' = ?S \<and> zset_expiry ?k l' = zset_expiry ?k l \<and> d \<noteq> Inr None) \<or>
      (stored key l' = ?kept \<and> zset_expiry ?k l' \<in> {None, zset_expiry ?k l} \<and> (d = Inr None \<longrightarrow> int (length ?kept) < limit))"
    by (auto simp: same pruned_def stored_def zset_expiry_def seen [unfolded pruned_def] split: if_splits)
  moreover have "count_since v (map fst ?kept) = count_since v (map fst ?S)" if "t - of_int window \<le> v" for v
  proof -
    have "filter (\<lambda>e. v < fst e) ?kept = filter (\<lambda>e. v < fst e) ?S"
      using that by (auto simp: filter_filter intro!: filter_cong)
    then show ?thesis by (simp add: count_since_def filter_map comp_def)
  qed
  moreover have "int (length ?kept) = count_since (t - of_int window) (map fst ?S)"
    by (simp add: count_since_def filter_map comp_def)
  ultimately show "set (stored key l') \<subseteq> set ?S"
    and "\<forall>e \<in> set (stored key l'). \<forall>x. zset_expiry ?k l' = Some x \<longrightarrow> fst e + of_int window \<le> x"
    and "t - of_int window \<le> v \<Longrightarrow> count_since v (map fst (stored key l')) = count_since v (map fst ?S)"
    and "d = Inr None \<Longrightarrow> count_since (t - of_int window) (map fst ?S) < limit"
    using expiry by (auto, force+)
qed

lemma begin_keeps_race:
  assumes ok: "race_ok key limit window crowd t r" and t: "t \<le> t'" and w: "0 \<le> window"
    and r': "r' = race_step key limit window (t', BeginSlot i) r" and crowd: "int (length (rc_pending r')) \<le> crowd"
  shows "race_ok key limit window crowd t' r'"
proof -
  let ?k = "KEY_PREFIX @ key" and ?l = "rc_limiter r" and ?S = "stored key (rc_limiter r)"
  have expiry: "\<forall>e \<in> set ?S. \<forall>x. zset_expiry ?k ?l = Some x \<longrightarrow> fst e + of_int window \<le> x"
    and old: "\<forall>e \<in> set ?S. fst e \<le> t" "\<forall>x \<in> set (map snd (rc_pending r)). x \<le> t"
    and since: "\<And>since. t - of_int window \<le> since \<Longrightarrow> count_since since (rc_accepted r) \<le> count_since since (map fst ?S)"
    and bound: "\<And>u. count_in window u (rc_accepted r) + count_in window u (map snd (rc_pending r)) \<le> limit - 1 + crowd"
    using ok unfolding race_ok_def by blast+
  obtain d l' where beg: "begin_slot ?k limit window t' (?l\<lparr>lim_now := t'\<rparr>) = (d, l')" by fastforce
  note begun = begin_keeps_window [OF expiry beg]
  have r'_eq: "rc_limiter r' = l'" "rc_accepted r' = rc_accepted r"
    "rc_pending r' = rc_pending r @ (if d = Inr None then [(i, t')] else [])"
    by (auto simp: r' beg split: sum.split option.split)
  have "count_in window u (rc_accepted r') + count_in window u (map snd (rc_pending r')) \<le> limit - 1 + crowd" for u
  proof (cases "d = Inr None \<and> in_window window u t'")
    case False
    then show ?thesis using bound [of u] by (auto simp: r'_eq)
  next
    case True
    then have u: "t' \<le> u" by (simp add: in_window_def)
    have "count_in window u (rc_accepted r) \<le> count_since (t' - of_int window) (rc_accepted r)" by (rule count_in_since [OF u])
    also have "\<dots> \<le> count_since (t' - of_int window) (map fst ?S)" using since t by simp
    also have "\<dots> \<le> limit - 1" using begun(4) True by simp
    finally have "count_in window u (rc_accepted r') \<le> limit - 1" by (simp add: r'_eq)
    moreover have "count_in window u (map snd (rc_pending r')) \<le> crowd"
      using crowd count_in_le_length [of window u "map snd (rc_pending r')"] by simp
    ultimately show ?thesis by linarith
  qed
  moreover have "\<forall>e \<in> set (stored key l'). fst e \<le> t'" using begun(1) old(1) t by fastforce
  moreover have "\<forall>x \<in> set (map snd (rc_pending r')). x \<le> t'" using old(2) t by (auto simp: r'_eq)
  moreover have "\<forall>since \<ge> t' - of_int window. count_since since (rc_accepted r') \<le> count_since since (map fst (stored key l'))"
    using since begun(3) t by (simp add: r'_eq)
  ultimately show ?thesis using begun(2) unfolding race_ok_def r'_eq(1) by blast
qed

lemma finish_keeps_race:
  assumes ok: "race_ok key limit window crowd t r" and t: "t \<le> t'" and w: "0 \<le> window"
    and r': "r' = race_step key limit window (t', FinishSlot i) r"
  shows "race_ok key limit window crowd t' r'"
proof (cases "map_of (rc_pending r) i")
  case None
  then show ?thesis using ok t unfolding r' race_ok_def by fastforce
next
  case (Some now)
  let ?k = "KEY_PREFIX @ key" and ?l = "rc_limiter r" and ?S = "stored key (rc_limiter r)"
  let ?seen = "zset ?k (?l\<lparr>lim_now := t'\<rparr>)"
  have pending: "(i, now) \<in> set (rc_pending r)" using Some by (rule map_of_SomeD)
  have expiry: "\<forall>e \<in> set ?S. \<forall>x. zset_expiry ?k ?l = Some x \<longrightarrow> fst e + of_int window \<le> x"
    and old: "\<forall>e \<in> set ?S. fst e \<le> t" "\<forall>x \<in> set (map snd (rc_pending r)). x \<le> t"
    and since: "\<And>since. t - of_int window \<le> since \<Longrightarrow> count_since since (rc_accepted r) \<le> count_since since (map fst ?S)"
    and bound: "\<And>u. count_in window u (rc_accepted r) + count_in window u (map snd (rc_pending r)) \<le> limit - 1 + crowd"
    using ok unfolding race_ok_def by blast+
  have now: "now \<le> t" using old(2) pending by force
  have seen: "\<forall>e \<in> set ?seen. fst e \<le> t" using set_zset_subset old(1) by blast
  obtain v l' where fin: "finish_slot ?k window now (?l\<lparr>lim_now := t'\<rparr>) = (v, l')" by fastforce
  have step: "rc_limiter r' = l'" "rc_accepted r' = rc_accepted r @ slot_of v now" "rc_pending r' = remove1 (i, now) (rc_pending r)"
    by (simp_all add: r' Some fin)
  have "slot_of v now = [] \<and> stored key l' = ?S \<and> zset_expiry ?k l' = zset_expiry ?k ?l \<or>
      set (slot_of v now) \<subseteq> {now} \<and> length (slot_of v now) \<le> 1 \<and>
        (\<exists>m. stored key l' = ?seen @ [(now, m)]) \<and> zset_expiry ?k l' = Some (t' + of_int (window + 60))"
    using finish_slot_cases [OF fin] by (auto simp: slot_of_def recorded_def stored_def zset_expiry_def)
  then have l': "(\<forall>e \<in> set (stored key l'). \<forall>x. zset_expiry ?k l' = Some x \<longrightarrow> fst e + of_int window \<le> x) \<and>
      (\<forall>e \<in> set (stored key l'). fst e \<le> t') \<and>
      (\<forall>since \<ge> t' - of_int window. count_since since (rc_accepted r') \<le> count_since since (map fst (stored key l')))"
  proof (elim disjE conjE exE)
    assume "slot_of v now = []" "stored key l' = ?S" "zset_expiry ?k l' = zset_expiry ?k ?l"
    then show ?thesis using expiry old(1) since t by (fastforce simp: step)
  next
    fix m
    assume slot: "set (slot_of v now) \<subseteq> {now}" "length (slot_of v now) \<le> 1"
      and st: "stored key l' = ?seen @ [(now, m)]" and ex: "zset_expiry ?k l' = Some (t' + of_int (window + 60))"
    have "count_since since (rc_accepted r') \<le> count_since since (map fst (stored key l'))" if v: "t' - of_int window \<le> since" for since
    proof -
      have "count_since since (map fst ?seen) = count_since since (map fst ?S)"
        using visible_since [OF expiry v] by (simp add: count_since_def filter_map comp_def)
      moreover have "count_since since (rc_accepted r) \<le> count_since since (map fst ?S)" using since v t by simp
      moreover have "slot_of v now \<in> {[], [now]}" by (simp add: slot_of_def)
      ultimately show ?thesis by (auto simp: step st)
    qed
    moreover have "\<forall>e \<in> set (stored key l'). fst e + of_int window \<le> t' + of_int (window + 60)"
      using seen now t by (auto simp: st)
    moreover have "\<forall>e \<in> set (stored key l'). fst e \<le> t'" using seen now t by (auto simp: st)
    ultimately show ?thesis using ex by simp
  qed
  moreover have "count_in window u (rc_accepted r') + count_in window u (map snd (rc_pending r')) \<le> limit - 1 + crowd" for u
  proof -
    have "slot_of v now \<in> {[], [now]}" by (simp add: slot_of_def)
    then show ?thesis using bound [of u] count_in_remove1 [OF pending, of window u] by (auto simp: step)
  qed
  moreover have "\<forall>x \<in> set (map snd (rc_pending r')). x \<le> t'"
  proof
    fix x assume "x \<in> set (map snd (rc_pending r'))"
    then have "x \<in> set (map snd (rc_pending r))" using set_remove1_subset [of "(i, now)" "rc_pending r"] unfolding step by auto
    then show "x \<le> t'" using old(2) t by fastforce
  qed
  ultimately show ?thesis unfolding race_ok_def step(1) by blast
qed

section \<open>Properties\<close>

lemma race_ok_run:
  assumes "race_ok key limit window crowd t r" and "sorted (t # map fst events)" and "0 \<le> window"
    and "\<forall>n. int (length (rc_pending (race_run key limit window (take n events) r))) \<le> crowd"
  shows "\<exists>t'. race_ok key limit window crowd t' (race_run key limit window events r)"
  using assms
proof (induction events arbitrary: t r)
  case Nil
  then show ?case by (auto simp: race_run_def)
next
  case (Cons ev events)
  obtain t' e where ev: "ev = (t', e)" by fastforce
  let ?r = "race_step key limit window ev r"
  have later: "t \<le> t'" "sorted (t' # map fst events)" using Cons.prems(2) ev by auto
  have crowd: "\<forall>n. int (length (rc_pending (race_run key limit window (take n events) ?r))) \<le> crowd"
  proof
    fix n show "int (length (rc_pending (race_run key limit window (take n events) ?r))) \<le> crowd"
      using Cons.prems(4) [THEN spec, of "Suc n"] by (simp add: race_run_def)
  qed
  have "race_ok key limit window crowd t' ?r"
  proof (cases e)
    case (BeginSlot i)
    then show ?thesis
      using begin_keeps_race [OF Cons.prems(1) later(1) Cons.prems(3) refl] crowd [THEN spec, of 0] by (simp add: ev race_run_def)
  next
    case (FinishSlot i)
    then show ?thesis using finish_keeps_race [OF Cons.prems(1) later(1) Cons.prems(3) refl] by (simp add: ev)
  qed
  from Cons.IH [OF this later(2) Cons.prems(3) crowd] show ?case by (simp add: race_run_def)
qed


text \<open>The bound is reached: of any number of attempts at one moment every one is accepted, whatever the limit is.\<close>

lemma burst_begins:
  assumes "stored key (rc_limiter r) = []" and "link_up (lim_redis (rc_limiter r))" and "1 \<le> limit"
  shows "link_up (lim_redis (rc_limiter (race_run key limit window (map (\<lambda>i. (t, BeginSlot i)) is) r))) \<and>
     stored key (rc_limiter (race_run key limit window (map (\<lambda>i. (t, BeginSlot i)) is) r)) = [] \<and>
     rc_pending (race_run key limit window (map (\<lambda>i. (t, BeginSlot i)) is) r) = rc_pending r @ map (\<lambda>i. (i, t)) is \<and>
     rc_accepted (race_run key limit window (map (\<lambda>i. (t, BeginSlot i)) is) r) = rc_accepted r"
  using assms(1,2)
proof (induction "is" arbitrary: r)
  case (Cons i "is")
  let ?k = "KEY_PREFIX @ key" and ?s = "(rc_limiter r)\<lparr>lim_now := t\<rparr>"
  have "zset ?k ?s = []" using set_zset_subset [of key t "rc_limiter r"] Cons.prems(1) by simp
  then have none: "window_of ?k (t - of_int window) ?s = []" by (simp add: window_of_def)
  obtain l where l: "link_up l" "begin_slot ?k limit window t ?s = (Inr None, (pruned ?k (t - of_int window) ?s)\<lparr>lim_redis := l\<rparr>)"
    using begin_slot_up [of ?s ?k limit window t] Cons.prems(2) assms(3) none by auto
  let ?r = "race_step key limit window (t, BeginSlot i) r"
  have one: "stored key (rc_limiter ?r) = []" "link_up (lim_redis (rc_limiter ?r))" "rc_pending ?r = rc_pending r @ [(i, t)]"
    "rc_accepted ?r = rc_accepted r"
    using l by (simp_all add: stored_def pruned_def none)
  have run: "race_run key limit window (map (\<lambda>i. (t, BeginSlot i)) (i # is)) r = race_run key limit window (map (\<lambda>i. (t, BeginSlot i)) is) ?r"
    by (simp add: race_run_def)
  show ?case using Cons.IH [OF one(1,2)] unfolding run one by simp
qed (simp add: race_run_def)

lemma burst_finishes:
  assumes "distinct is" and "rc_pending r = map (\<lambda>i. (i, t)) is" and "link_up (lim_redis (rc_limiter r))"
  shows "rc_accepted (race_run key limit window (map (\<lambda>i. (t, FinishSlot i)) is) r) = rc_accepted r @ replicate (length is) t"
  using assms
proof (induction "is" arbitrary: r)
  case (Cons i "is")
  let ?r = "race_step key limit window (t, FinishSlot i) r"
  have "rc_pending ?r = map (\<lambda>i. (i, t)) is" "rc_accepted ?r = rc_accepted r @ [t]" "link_up (lim_redis (rc_limiter ?r))"
    using Cons.prems by (simp_all add: finish_slot_up slot_of_def)
  then show ?case using Cons.IH [of ?r] Cons.prems(1) by (simp add: race_run_def)
qed (simp add: race_run_def)

text \<open>C6: the limit does not hold against a burst: of any number of attempts of one user whose checks all run before the first
  of them is recorded, every one is accepted, in one moment and with a limit as low as one, while Redis answers.\<close>

theorem burst_is_accepted:
  assumes "stored key s = []" and "1 \<le> limit" and "link_up (lim_redis s)"
  shows "rc_accepted (race_run key limit window
      (map (\<lambda>i. (t, BeginSlot i)) [0..<n] @ map (\<lambda>i. (t, FinishSlot i)) [0..<n]) (start_race s)) = replicate n t"
proof -
  let ?r = "race_run key limit window (map (\<lambda>i. (t, BeginSlot i)) [0..<n]) (start_race s)"
  have "rc_pending ?r = map (\<lambda>i. (i, t)) [0..<n]" "rc_accepted ?r = []" "link_up (lim_redis (rc_limiter ?r))"
    using burst_begins [of key "start_race s" limit window t "[0..<n]"] assms by (simp_all add: start_race_def)
  then show ?thesis
    using burst_finishes [of "[0..<n]" ?r t key limit window] by (simp add: race_run_def)
qed

lemma burst_is_accepted_witness:
  "rc_accepted (race_run ''download:7'' 10 3600
      (map (\<lambda>i. (5, BeginSlot i)) [0..<40] @ map (\<lambda>i. (5, FinishSlot i)) [0..<40]) (start_race fresh_limiter)) = replicate 40 5"
  by (rule burst_is_accepted) (simp_all add: stored_def fresh_limiter_def)


end
