(* ===== verification/Registration.thy ===== *)
theory Registration
  imports UseCasesFacts
begin

text \<open>
  Registration (\<open>register_user.py\<close> in the session of \<open>composition.py\<close>) while others commit: the look-up and the
  insert are two statements, and the bot handles the updates of one poll as concurrent tasks.
\<close>

text \<open>\<open>meantime\<close> is what other transactions commit between the two statements; the insert's failure rolls back nothing of it.\<close>

definition registering :: "(db \<Rightarrow> db) \<Rightarrow> uuid \<Rightarrow> int \<Rightarrow> string option \<Rightarrow> user dbio" where
  "registering meantime i tid language =
     bindE (sql_user_get_by_telegram_id tid) (\<lambda>existing.
       case existing of
         Some u \<Rightarrow> retE u
       | None \<Rightarrow>
           thenE (tellE meantime)
             (session_scope (bindE (askE db_clock) (\<lambda>t. sql_user_create (create_from_telegram i t tid language)))))"

text \<open>With nothing in between this is the use case in its session.\<close>

lemma registering_alone: "registering id i tid language d = session_scope (register_user session_users (retE i) db_clock tid language) d"
proof (cases "one_or_none (users_by_telegram_id tid d)")
  case (Inl e)
  then show ?thesis
    by (simp add: registering_def register_user_def session_users_def sql_user_get_by_telegram_id_def session_scope_def io_simps)
next
  case (Inr m)
  then show ?thesis
    by (cases m; simp add: registering_def register_user_def session_users_def sql_user_get_by_telegram_id_def
        session_scope_def io_simps split: prod.split sum.split)
qed

lemma insert_taken:
  assumes "user_columns_fit u" and "find_user (urow_id u) d = None" and "urow_telegram_id u = Some tid"
    and "users_by_telegram_id tid d \<noteq> []"
  shows "insert_user u d = (Inl (LibraryError ''IntegrityError'' ''users_telegram_id_key''), d)"
proof -
  have "list_ex (\<lambda>v. urow_telegram_id v = urow_telegram_id u) (db_users d)"
    using assms(3,4) by (auto simp: users_by_telegram_id_def list_ex_iff filter_empty_conv)
  then show ?thesis using assms by (simp add: insert_user_def io_simps)
qed

text \<open>
  Whatever others commit in between: a user who was there is answered; otherwise one row is added to what the others left, or
  the call raises and adds nothing.  Nobody is ever registered twice.
\<close>

theorem registration_is_safe:
  assumes "db_ok d" and "\<And>d. db_ok d \<Longrightarrow> db_ok (meantime d)" and "registering meantime i tid language d = (r, d')"
  shows "db_ok d' \<and>
    (case users_by_telegram_id tid d of
       m # _ \<Rightarrow> d' = d \<and> (r = Inr (to_user m) \<or> (\<exists>e. r = Inl e))
     | [] \<Rightarrow> (\<exists>u. r = Inr u \<and> telegram_id u = Some tid \<and> users_by_telegram_id tid (meantime d) = [] \<and>
                 db_users d' = db_users (meantime d) @ [user_row_of (db_clock (meantime d)) u] \<and>
                 db_requests d' = db_requests (meantime d)) \<or>
             (\<exists>e. r = Inl e \<and> db_users d' = db_users (meantime d) \<and> db_requests d' = db_requests (meantime d)))"
proof (cases "users_by_telegram_id tid d")
  case (Cons m ms)
  then show ?thesis using assms(1,3)
    by (auto simp: registering_def sql_user_get_by_telegram_id_def io_simps one_or_none_def split: list.splits)
next
  case Nil
  let ?d1 = "meantime d" and ?u = "create_from_telegram i (db_clock (meantime d)) tid language"
  obtain r0 d0 where ins: "insert_user (user_row_of (db_clock ?d1) ?u) ?d1 = (r0, d0)" by fastforce
  have run: "(r, d') = (case r0 of Inr _ \<Rightarrow> (Inr ?u, d0) | Inl e \<Rightarrow> (Inl e, d0\<lparr>db_users := db_users ?d1, db_requests := db_requests ?d1\<rparr>))"
    using assms(3) Nil ins
    by (simp add: registering_def sql_user_get_by_telegram_id_def one_or_none_def sql_user_create_def session_scope_def io_simps
        split: sum.splits)
  have ok: "db_ok ?d1" using assms(1,2) by blast
  have ok0: "db_ok d0" using keepsD [OF keeps_insert_user ok] ins by (metis snd_conv)
  have free: "users_by_telegram_id tid ?d1 = []" if "r0 = Inr ()"
    using ins that by (auto simp: insert_user_def io_simps users_by_telegram_id_def list_ex_iff filter_empty_conv
        user_row_of_def create_from_telegram_def split: if_splits)
  show ?thesis
  proof (cases r0)
    case (Inl e)
    then show ?thesis using run ok Nil by (auto intro: db_ok_tables [THEN iffD1, rotated -1])
  next
    case (Inr x)
    then show ?thesis using run ok0 Nil free insert_user_cases [OF ins] by (auto simp: create_from_telegram_def)
  qed
qed

text \<open>
  Two first updates of one user whose look-ups both run before either insert: the first insert registers the user, the second
  registration raises the constraint's error, though the user is registered.
\<close>

theorem second_first_update_raises:
  assumes "db_ok d" and "users_by_telegram_id tid d = []"
    and "find_user i d = None" and "i \<noteq> j" and "user_columns_fit (user_row_of t (create_from_telegram i t tid language))"
    and "registering id j tid language' d = (Inr u, d1)"
  shows "registering (\<lambda>d. snd (registering id j tid language' d)) i tid language d =
      (Inl (LibraryError ''IntegrityError'' ''users_telegram_id_key''), d1)"
    and "users_by_telegram_id tid d1 \<noteq> []"
proof -
  obtain r0 d0 where reg: "register_user session_users (retE j) db_clock tid language' d = (r0, d0)" by fastforce
  have "r0 = Inr u \<and> d0 = d1"
    using assms(6) reg unfolding registering_alone session_scope_def by (simp split: sum.splits)
  then have d1: "d1 = d\<lparr>db_users := db_users d @ [user_row_of (db_clock d) (create_from_telegram j (db_clock d) tid language')]\<rparr>"
    using set_register [OF reg] assms(2) by auto
  then show there: "users_by_telegram_id tid d1 \<noteq> []"
    by (simp add: users_by_telegram_id_def user_row_of_def create_from_telegram_def)
  let ?row = "user_row_of (db_clock d1) (create_from_telegram i (db_clock d1) tid language)"
  have "find_user i d1 = None"
    using assms(3,4) by (simp add: d1 find_user_def find_append user_row_of_def create_from_telegram_def)
  moreover have "user_columns_fit ?row"
    using assms(5) by (simp add: user_columns_fit_def user_row_of_def create_from_telegram_def)
  ultimately have "insert_user ?row d1 = (Inl (LibraryError ''IntegrityError'' ''users_telegram_id_key''), d1)"
    using there by (intro insert_taken [where tid = tid]) (simp_all add: user_row_of_def create_from_telegram_def)
  then show "registering (\<lambda>d. snd (registering id j tid language' d)) i tid language d =
      (Inl (LibraryError ''IntegrityError'' ''users_telegram_id_key''), d1)"
    using assms(2,6)
    by (simp add: registering_def [of _ i] sql_user_get_by_telegram_id_def one_or_none_def sql_user_create_def session_scope_def io_simps)
qed

text \<open>Such a race exists: a user the example database does not know.\<close>

lemma second_first_update_example:
  "fst (registering (\<lambda>d. snd (registering id 8 200 None d)) 9 200 None example_db) =
     Inl (LibraryError ''IntegrityError'' ''users_telegram_id_key'')"
  by code_simp

end
