(* ===== verification/EndToEnd.thy ===== *)
theory EndToEnd
  imports BotProperties
begin

text \<open>
  From an update to its answer, across the two processes: a download the bot enqueued stays ready for its
  sender while the bot handles further updates of anybody, the workers run the jobs of other requests, the reaper ticks, and
  the disk, Redis, Telegram and the clock change, unless a tick gives it up and tells the sender; so the job, when it returns, answers the
  sender or leaves it at that.  The locale \<open>table_frame\<close> lifts
  what the repository calls keep of the tables to the use cases; \<open>bot_frame_user\<close> lifts it to every update.
\<close>

section \<open>What the use cases keep of the tables\<close>

locale table_frame =
  fixes Q :: "db \<Rightarrow> bool"
  assumes get_user: "keeps Q (tx_user_get_by_telegram_id tid)"
    and create_user: "keeps Q (tx_user_create u)"
    and create: "keeps Q (tx_create q)"
    and mark_failed: "keeps Q (tx_mark_failed_by_id rid)"
    and register: "keeps Q (session_scope (register_user session_users (retE i) db_clock tid l))"
    and language: "keeps Q (session_scope (set_user_language session_users tid l))"
begin

lemma keeps_on_db: "keeps Q m \<Longrightarrow> keeps (\<lambda>w. Q (w_db w)) (on_db m)"
  by (simp add: keeps_def on_db_def)

lemma keeps_aside:
  "keeps (\<lambda>w. Q (w_db w)) (on_queue m1)" "keeps (\<lambda>w. Q (w_db w)) new_uuid"
  "keeps (\<lambda>w. Q (w_db w)) (rt_log world_runtime event rid)"
  by (simp_all add: keeps_def on_queue_def new_uuid_def io_simps world_runtime_def)

lemma keeps_provided:
  "keeps (\<lambda>w. Q (w_db w)) (provide_register_user tid l)" "keeps (\<lambda>w. Q (w_db w)) (provide_set_user_language tid l)"
  "keeps (\<lambda>w. Q (w_db w)) (provide_trigger_ping message)"
  unfolding provide_register_user_def provide_set_user_language_def provide_trigger_ping_def trigger_ping_def
  by (auto simp: world_task_queue_def intro!: keeps_bindE keeps_on_db keeps_aside register language)

lemma keeps_ensure_user: "keeps (\<lambda>w. Q (w_db w)) (ensure_user (request_use_case mc p) tid)"
  unfolding ensure_user_def world_users_def request_use_case_simps user_repository.simps
  by (intro keeps_control keeps_on_db keeps_aside get_user create_user)

lemma keeps_request: "keeps (\<lambda>w. Q (w_db w)) (provide_request_download mc p tid url sp ek chat_id message_id)"
  unfolding provide_request_download_def execute_request_def store_request_def enqueue_request_def request_use_case_simps
    world_requests_def world_task_queue_def request_repository.simps task_queue.simps Let_def
  by (auto intro!: keeps_bindE keeps_thenE keeps_try_except keeps_ensure_user keeps_on_db keeps_aside create mark_failed
      split: if_splits)

end

text \<open>Three predicates: the schema holds, no two requests share an id, and the users of an earlier state are still there and
  reached under the same Telegram id.\<close>

definition rows_distinct :: "db \<Rightarrow> bool" where
  "rows_distinct d \<longleftrightarrow> distinct (map row_id (db_requests d))"

definition users_kept :: "db \<Rightarrow> db \<Rightarrow> bool" where
  "users_kept d d' \<longleftrightarrow>
     (\<forall>uid u. find_user uid d = Some u \<longrightarrow> (\<exists>u'. find_user uid d' = Some u' \<and> urow_telegram_id u' = urow_telegram_id u))"

definition rows_kept :: "db \<Rightarrow> db \<Rightarrow> bool" where
  "rows_kept d d' \<longleftrightarrow> (\<forall>rid m. find_request rid d = Some m \<longrightarrow> find_request rid d' = Some m)"

lemma users_kept_trans: "users_kept d d' \<Longrightarrow> users_kept d' d'' \<Longrightarrow> users_kept d d''"
  by (auto simp: users_kept_def) (metis option.inject)

lemma users_kept_same: "db_users d' = db_users d \<Longrightarrow> users_kept d d'"
  by (simp add: users_kept_def find_user_def)

lemma users_kept_append: "db_users d' = db_users d @ [u] \<Longrightarrow> users_kept d d'"
  by (simp add: users_kept_def find_user_def find_append)

lemma rows_kept_append: "db_requests d' = db_requests d \<or> (\<exists>m. db_requests d' = db_requests d @ [m]) \<Longrightarrow> rows_kept d d'"
  by (auto simp: rows_kept_def find_request_def find_append)

text \<open>The calls on users: no request changes and no user goes.\<close>

definition users_only :: "'a dbio \<Rightarrow> bool" where
  "users_only m \<longleftrightarrow> (\<forall>d. db_requests (snd (m d)) = db_requests d \<and> users_kept d (snd (m d)))"

lemma users_only_session: "users_only m \<Longrightarrow> users_only (session_scope m)"
  by (auto simp: users_only_def session_scope_def users_kept_same split: prod.splits sum.splits) (metis snd_conv)+

lemma users_only_keeps:
  assumes "users_only m"
  shows "keeps rows_distinct m" and "keeps (users_kept d0) m"
  using assms users_kept_trans by (auto simp: users_only_def keeps_def rows_distinct_def)

lemma users_only_get: "users_only (tx_user_get_by_telegram_id tid)"
  by (simp add: users_only_def user_get_by_tid_eq users_kept_same split: sum.split)

lemma users_only_create: "users_only (tx_user_create u)"
  unfolding users_only_def
proof
  fix d
  obtain r d' where run: "tx_user_create u d = (r, d')" by fastforce
  show "db_requests (snd (tx_user_create u d)) = db_requests d \<and> users_kept d (snd (tx_user_create u d))"
    using user_create_cases [OF run] run by (auto simp: users_kept_same users_kept_append)
qed

lemma users_only_register: "users_only (register_user session_users (retE i) db_clock tid l)"
  unfolding users_only_def
proof
  fix d
  obtain r d' where run: "register_user session_users (retE i) db_clock tid l d = (r, d')" by fastforce
  show "db_requests (snd (register_user session_users (retE i) db_clock tid l d)) = db_requests d \<and>
      users_kept d (snd (register_user session_users (retE i) db_clock tid l d))"
    using set_register [OF run] run by (auto simp: users_kept_same users_kept_append)
qed

lemma users_kept_language: "users_kept d (update_users P (\<lambda>u. u\<lparr>urow_language := l\<rparr>) d)"
  by (auto simp: users_kept_def find_user_def update_users_def find_map_same_key)

lemma users_only_language: "users_only (set_user_language session_users tid l)"
  by (auto simp: users_only_def set_user_language_def session_users_def sql_user_set_language_def io_simps Let_def
      users_kept_same users_kept_language split: sum.split option.split) (simp_all add: update_users_def)

lemmas users_only = users_only_get users_only_create users_only_session [OF users_only_register]
  users_only_session [OF users_only_language]

interpretation schema: table_frame db_ok
proof unfold_locales
  show "keeps db_ok (session_scope (register_user session_users (retE i) db_clock tid l))" for i tid l
    unfolding register_user_def session_users_def user_repository.simps
    by (intro session_scope_ok keeps_control keeps_sql_user_get keeps_sql_user_create)
  show "keeps db_ok (session_scope (set_user_language session_users tid l))" for tid l
    by (auto simp: set_user_language_def session_users_def)
qed (auto simp: tx_user_get_by_telegram_id_def tx_user_create_def tx_create_def tx_mark_failed_by_id_def)

interpretation distinct_rows: table_frame rows_distinct
proof unfold_locales
  show "keeps rows_distinct (tx_create q)" for q
  proof (rule keepsI)
    fix d assume d: "rows_distinct d"
    obtain r d' where run: "tx_create q d = (r, d')" by fastforce
    show "rows_distinct (snd (tx_create q d))"
      using create_cases [OF run] run d find_request_None [of "request_id q" d]
      by (auto simp: rows_distinct_def request_row_of_def)
  qed
  show "keeps rows_distinct (tx_mark_failed_by_id rid)" for rid
    by (simp add: keeps_def rows_distinct_def mark_failed_eq update_requests_ids)
qed (rule users_only_keeps, rule users_only)+

interpretation same_users: table_frame "users_kept d" for d
proof unfold_locales
  show "keeps (users_kept d) (tx_create q)" for q
  proof (rule keepsI)
    fix d1 assume d: "users_kept d d1"
    obtain r d' where run: "tx_create q d1 = (r, d')" by fastforce
    have "db_users d' = db_users d1" using create_cases [OF run] by auto
    then show "users_kept d (snd (tx_create q d1))"
      using users_kept_trans [OF d users_kept_same] run by simp
  qed
  show "keeps (users_kept d) (tx_mark_failed_by_id rid)" for rid
    using users_kept_trans [OF _ users_kept_same] by (simp add: keeps_def mark_failed_eq)
qed (rule users_only_keeps, rule users_only)+

section \<open>What a use case does to a request that stands\<close>

text \<open>The request is there, readable, its owner is reached under this Telegram id, and it is active or no longer.\<close>

definition stands :: "bool \<Rightarrow> int \<Rightarrow> uuid \<Rightarrow> world \<Rightarrow> bool" where
  "stands active tid rid w \<longleftrightarrow> (\<exists>m u. reachable w rid m u tid \<and> is_active m = active) \<and> distinct_ids w"

lemma stands_ready: "stands True tid rid w \<longleftrightarrow> ready_for tid rid w \<and> distinct_ids w"
  by (simp add: stands_def ready_for_def)

text \<open>The same on the outbox.\<close>

lemma stands_outbox:
  "stands active tid rid w \<longleftrightarrow>
     distinct_ids w \<and> ob_active (outbox_of w) rid = active \<and> ob_readable (outbox_of w) rid \<and> ob_target (outbox_of w) rid = Some tid"
  by (auto simp: stands_def reachable_def ob_active_def ob_target_def outbox_of_def is_active_cases bind_eq_Some_conv split: option.splits)

lemma reachable_kept:
  "reachable w rid m u tid \<Longrightarrow> find_request rid (w_db w') = find_request rid (w_db w) \<Longrightarrow> users_kept (w_db w) (w_db w') \<Longrightarrow>
     \<exists>u'. reachable w' rid m u' tid"
  unfolding reachable_def users_kept_def by metis

text \<open>The use cases other than a download request leave the table of requests as it is.\<close>

definition requests_same :: "(world, exn, 'a) io \<Rightarrow> bool" where
  "requests_same m \<longleftrightarrow> (\<forall>w. db_requests (w_db (snd (m w))) = db_requests (w_db w))"

lemma requests_same_provided:
  "requests_same (provide_register_user tid l)" "requests_same (provide_set_user_language tid l)"
  "requests_same (provide_trigger_ping message)"
  using users_only
  by (simp_all add: requests_same_def provide_register_user_def provide_set_user_language_def provide_trigger_ping_def
      trigger_ping_def world_task_queue_def on_queue_def on_db_def new_uuid_def io_simps users_only_def split: prod.split)

lemma request_rows_kept: "rows_kept (w_db w) (w_db (snd (provide_request_download mc p tid url sp ek chat_id message_id w)))"
proof -
  obtain r w' where run: "provide_request_download mc p tid url sp ek chat_id message_id w = (r, w')" by fastforce
  show ?thesis using provide_request_cases [OF run] run by (auto intro!: rows_kept_append split: sum.splits)
qed

lemma stands_step:
  assumes "stands a tid rid w" and "find_request rid (w_db w') = find_request rid (w_db w)" and "users_kept (w_db w) (w_db w')"
    and "rows_distinct (w_db w')"
  shows "stands a tid rid w'"
  using assms reachable_kept unfolding stands_def distinct_ids_def rows_distinct_def by blast

lemma keeps_stands_by:
  assumes "\<And>d. keeps (\<lambda>w. users_kept d (w_db w)) m" and "keeps (\<lambda>w. rows_distinct (w_db w)) m"
    and "\<And>w. rows_kept (w_db w) (w_db (snd (m w)))"
  shows "keeps (stands a tid rid) m"
proof (rule keepsI)
  fix w assume w: "stands a tid rid w"
  have "users_kept (w_db w) (w_db (snd (m w)))"
    using keepsD [OF assms(1) [of "w_db w"], of w] by (simp add: users_kept_same)
  moreover have "rows_distinct (w_db (snd (m w)))"
    using keepsD [OF assms(2), of w] w by (simp add: stands_def distinct_ids_def rows_distinct_def)
  moreover have "find_request rid (w_db (snd (m w))) = find_request rid (w_db w)"
    using w assms(3) [of w] by (auto simp: stands_def reachable_def rows_kept_def)
  ultimately show "stands a tid rid (snd (m w))" using stands_step [OF w] by blast
qed

lemma keeps_stands:
  "keeps (stands a tid rid) (provide_register_user t l)" "keeps (stands a tid rid) (provide_set_user_language t l)"
  "keeps (stands a tid rid) (provide_trigger_ping message)"
  "keeps (stands a tid rid) (provide_request_download mc p t url sp ek chat_id message_id)"
  using requests_same_provided
  by (intro keeps_stands_by same_users.keeps_provided same_users.keeps_request distinct_rows.keeps_provided
      distinct_rows.keeps_request request_rows_kept; simp add: rows_kept_append requests_same_def)+

text \<open>A job of another request.\<close>

lemma job_keeps_others:
  assumes "k \<noteq> rid"
  shows "keeps (stands a tid rid) (download_job mc cx k chat_id message_id)"
proof (rule keepsI)
  fix w assume w: "stands a tid rid w"
  obtain r w' where run: "download_job mc cx k chat_id message_id w = (r, w')" by fastforce
  have "distinct_ids w" using w by (simp add: stands_def)
  note job = job_on_world [OF this run]
  have "ob_active (outbox_of w') rid = ob_active (outbox_of w) rid \<and> ob_readable (outbox_of w') rid = ob_readable (outbox_of w) rid \<and>
      ob_target (outbox_of w') rid = ob_target (outbox_of w) rid"
    using job_frame [OF job [THEN conjunct2]] assms by (auto simp: ob_active_def ob_target_def)
  then show "stands a tid rid (snd (download_job mc cx k chat_id message_id w))"
    using job run w by (simp add: stands_outbox)
qed

section \<open>What an update does to it\<close>

definition bot_stands :: "bool \<Rightarrow> int \<Rightarrow> uuid \<Rightarrow> bot \<Rightarrow> bool" where
  "bot_stands a tid rid b \<longleftrightarrow> stands a tid rid (b_world b)"

lemma lift_world: "keeps P m \<Longrightarrow> keeps (\<lambda>b. P (b_world b)) (in_world m)"
  by (auto simp: keeps_def in_world_def intro!: keeps_zoom)

lemma keeps_limiter:
  "keeps (\<lambda>b. P (b_world b)) (acquire_preview env t)" "keeps (\<lambda>b. P (b_world b)) (acquire_download env t)"
  by (simp_all add: keeps_def acquire_preview_def acquire_download_def in_limiter_def)

interpretation stands: bot_frame_user "bot_stands a tid rid" env sender for a tid rid env sender
  unfolding bot_stands_def
  by unfold_locales (auto simp: request_use_def intro: lift_world keeps_stands preview_keeps keeps_limiter)

text \<open>One update of a sender: the schema is kept, and every job that was not there before stands for the sender.\<close>

definition jobs_stand :: "job_args set \<Rightarrow> int \<Rightarrow> world \<Rightarrow> bool" where
  "jobs_stand old tid w \<longleftrightarrow> db_ok (w_db w) \<and>
     (\<forall>rid chat_id message_id. DownloadArgs rid chat_id message_id \<in> set (world_jobs w) - old \<longrightarrow> stands True tid rid w)"

lemma keeps_jobs_stand:
  assumes "\<And>js. keeps (\<lambda>w. world_jobs w = js) m" and "keeps (\<lambda>w. db_ok (w_db w)) m" and "\<And>rid. keeps (stands True tid rid) m"
  shows "keeps (jobs_stand old tid) m"
proof (rule keepsI)
  fix w assume w: "jobs_stand old tid w"
  have "world_jobs (snd (m w)) = world_jobs w" "db_ok (w_db (snd (m w)))"
    using w keepsD [OF assms(1) [of "world_jobs w"]] keepsD [OF assms(2)] by (simp_all add: jobs_stand_def)
  then show "jobs_stand old tid (snd (m w))" using w keepsD [OF assms(3)] by (simp add: jobs_stand_def)
qed

lemma request_jobs_stand: "keeps (jobs_stand old tid) (provide_request_download mc p tid url sp ek chat_id message_id)"
proof (rule keepsI)
  let ?m = "provide_request_download mc p tid url sp ek chat_id message_id"
  fix w assume w: "jobs_stand old tid w"
  obtain r w' where run: "?m w = (r, w')" by fastforce
  have ok: "db_ok (w_db w)" "db_ok (w_db w')"
    using w keepsD [OF schema.keeps_request, of w] run by (auto simp: jobs_stand_def) (metis snd_conv)
  have kept: "stands True tid rid w'" if "stands True tid rid w" for rid
    using keepsD [OF keeps_stands(4) that] run by (metis snd_conv)
  show "jobs_stand old tid (snd (?m w))"
  proof (cases r)
    case (Inl e)
    then have "world_jobs w' = world_jobs w" using provide_request_cases [OF run] by (simp add: world_jobs_def)
    then show ?thesis using w ok kept run by (simp add: jobs_stand_def)
  next
    case (Inr q)
    then have "world_jobs w' = world_jobs w @ [DownloadArgs (request_id q) chat_id message_id]"
      using provide_request_cases [OF run] by (auto simp: world_jobs_def is_download_def)
    moreover have "stands True tid (request_id q) w'"
      using accepted_is_ready [OF ok(1)] run Inr by (simp add: stands_ready)
    ultimately show ?thesis using w ok kept run by (auto simp: jobs_stand_def)
  qed
qed

definition bot_jobs_stand :: "job_args set \<Rightarrow> int \<Rightarrow> bot \<Rightarrow> bool" where
  "bot_jobs_stand old tid b \<longleftrightarrow> jobs_stand old tid (b_world b)"

interpretation jobs_stand: bot_frame_user "bot_jobs_stand old tid" env tid for old env tid
  unfolding bot_jobs_stand_def
  by unfold_locales
    (auto simp: request_use_def intro: lift_world keeps_jobs_stand register_jobs language_jobs ping_jobs
      schema.keeps_provided keeps_stands request_jobs_stand preview_keeps keeps_limiter)

lemma new_job_stands:
  assumes "db_ok (w_db (b_world b))" and "update_sender u = Some sender"
    and "DownloadArgs rid chat_id message_id \<in> set (download_jobs (snd (dispatch env u b))) - set (download_jobs b)"
  shows "stands True (tg_id sender) rid (b_world (snd (dispatch env u b)))"
proof -
  have "bot_jobs_stand (set (download_jobs b)) (tg_id sender) b"
    using assms(1) by (simp add: bot_jobs_stand_def jobs_stand_def download_jobs_def)
  then have "bot_jobs_stand (set (download_jobs b)) (tg_id sender) (snd (dispatch env u b))"
    by (rule keepsD [OF jobs_stand.keeps_dispatch, rotated]) (simp add: assms(2))
  then show ?thesis using assms(3) unfolding bot_jobs_stand_def jobs_stand_def download_jobs_def by blast
qed

text \<open>The schema survives every update of anybody, and so does the standing of a request.\<close>

interpretation bot_schema: bot_frame_user "\<lambda>b. db_ok (w_db (b_world b))" env sender for env sender
  by unfold_locales
    (auto simp: request_use_def intro: lift_world [where P = "\<lambda>w. db_ok (w_db w)"] schema.keeps_provided schema.keeps_request
      preview_keeps keeps_limiter [where P = "\<lambda>w. db_ok (w_db w)"])

lemma anybody: "\<exists>tid. map_option tg_id (update_sender u) \<in> {None, Some tid}"
  by (cases "update_sender u") simp_all

lemma update_keeps:
  "keeps (bot_stands a tid rid) (dispatch env u)" "keeps (\<lambda>b. db_ok (w_db (b_world b))) (dispatch env u)"
  using anybody [of u] by (auto intro: stands.keeps_dispatch bot_schema.keeps_dispatch)

section \<open>What the reaper does to it\<close>

text \<open>What other transactions do between the two statements of a tick concerns other requests and removes no user.\<close>

definition about_others :: "uuid \<Rightarrow> (db \<Rightarrow> db) \<Rightarrow> bool" where
  "about_others rid f \<longleftrightarrow>
     (\<forall>d. find_request rid (f d) = find_request rid d \<and> users_kept d (f d) \<and> (rows_distinct d \<longrightarrow> rows_distinct (f d)))"

text \<open>A tick gives a request up: it was active and is failed, and its owner was told, unless sending failed, which is logged
  with the request, or the tick was cancelled.\<close>

definition gives_up :: "machine \<Rightarrow> worker_ctx \<Rightarrow> int \<Rightarrow> uuid \<Rightarrow> world \<Rightarrow> bool" where
  "gives_up mc cx tid rid w \<longleftrightarrow>
     (case reap_stale_requests_job mc cx w of (r, w') \<Rightarrow>
        ob_active (outbox_of w) rid \<and> ob_status (outbox_of w') rid = Some ''failed'' \<and>
        (\<exists>ts ls. tg_texts (w_tg w') = tg_texts (w_tg w) @ ts \<and> w_log w' = w_log w @ ls \<and>
           (told ts ls tid rid \<or> (\<exists>e. r = Inl e \<and> \<not> is_exception e))))"

text \<open>The row a tick finds for the request is the one that was there, and it moves only as a stale one that is in the batch.\<close>

lemma tick_on_row:
  assumes "rows_distinct d0" and "about_others rid between" and "find_request rid d0 = Some m"
    and "tx_fail_stale between t n d0 = (Inr out, d)"
  shows "rows_distinct d" and "users_kept d0 d"
    and "find_request rid d = Some m \<or>
      is_active m \<and> stale_request_of m \<in> set out \<and> (\<exists>now. find_request rid d = Some (reap_row now m))"
proof -
  let ?cs = "select_stale t n d0" and ?d1 = "db_at_update between t n d0"
  have d: "d = update_requests (\<lambda>m. row_id m \<in> row_id ` set ?cs \<and> is_stale t m) (reap_row (db_clock ?d1)) ?d1"
    and out: "out = map stale_request_of (reaped_rows between t n d0)"
    using assms(4) unfolding fail_stale_eq by simp_all
  have d1: "find_request rid ?d1 = Some m" "users_kept d0 ?d1" "rows_distinct ?d1"
    using assms(1-3) by (auto simp: db_at_update_def about_others_def users_kept_same)
  show "rows_distinct d" using d1(3) by (simp add: d rows_distinct_def update_requests_ids)
  show "users_kept d0 d" using users_kept_trans [OF d1(2) users_kept_same] by (simp add: d)
  have id: "row_id m = rid" "m \<in> set (db_requests ?d1)" using find_request_Some [OF d1(1)] by auto
  have "find_request rid d = Some (if row_id m \<in> row_id ` set ?cs \<and> is_stale t m then reap_row (db_clock ?d1) m else m)"
    unfolding d find_request_update [OF reap_row_simps(1)] d1(1) by simp
  moreover have "stale_request_of m \<in> set out" if moved: "row_id m \<in> row_id ` set ?cs" "is_stale t m"
  proof -
    obtain c where c: "c \<in> set ?cs" "row_id c = rid" using moved(1) id(1) by auto
    then have "c = m"
      using find_request_mem [of d0 c] mem_select_stale assms(1,3) by (fastforce simp: rows_distinct_def)
    then show ?thesis using c moved id by (auto simp: out reaped_rows_def)
  qed
  ultimately show "find_request rid d = Some m \<or>
      is_active m \<and> stale_request_of m \<in> set out \<and> (\<exists>now. find_request rid d = Some (reap_row now m))"
    by (auto simp: is_stale_def)
qed

lemma reap_row_readable: "is_active m \<Longrightarrow> row_readable (reap_row now m) = row_readable m"
  by (rule row_readable_transition [where s = FAILED]) (simp_all add: reap_row_def)

lemma tick_on_request:
  assumes "stands a tid rid w" and "about_others rid (mc_db_between mc)" and "reap_stale_requests_job mc cx w = (r, w')"
  shows "stands a tid rid w' \<or> a \<and> stands False tid rid w' \<and> gives_up mc cx tid rid w"
proof -
  obtain m u where m: "reachable w rid m u tid" "is_active m = a" and ids: "rows_distinct (w_db w)"
    using assms(1) by (auto simp: stands_def distinct_ids_def rows_distinct_def)
  obtain out d where tx: "tx_fail_stale (mc_db_between mc) (db_clock (w_db w) - cx_stale_request_after cx) REAPER_BATCH_SIZE (w_db w) = (Inr out, d)"
    by (simp add: fail_stale_eq)
  have row: "find_request rid (w_db w) = Some m" using m(1) by (simp add: reachable_def)
  note tick = tick_on_row [OF ids assms(2) row tx]
  note job = reap_job_run [OF tx assms(3)]
  show ?thesis
  proof (cases "find_request rid d = Some m")
    case True
    then show ?thesis using stands_step [OF assms(1)] tick(1,2) job row by simp
  next
    case False
    then obtain now where act: "is_active m" and out: "stale_request_of m \<in> set out" and new: "find_request rid d = Some (reap_row now m)"
      using tick(3) by blast
    obtain u' where u': "find_user (row_user_id m) d = Some u'" "urow_telegram_id u' = Some tid"
      using m(1) tick(2) by (auto simp: reachable_def users_kept_def) (metis option.inject)
    have "reachable w' rid (reap_row now m) u' tid"
      using m(1) new u' job act by (simp add: reachable_def reap_row_readable) (simp add: reap_row_def)
    then have given: "stands False tid rid w'" using tick(1) job by (auto simp: stands_def distinct_ids_def rows_distinct_def)
    have owner: "owner_chat d (stale_request_of m) = Some tid" "stale_request_id (stale_request_of m) = rid"
      using u' find_request_Some [OF row] by (simp_all add: owner_chat_def stale_request_of_def)
    obtain ts ls where "tg_texts (w_tg w') = tg_texts (w_tg w) @ ts" "w_log w' = w_log w @ ls"
      "\<forall>s \<in> set out. \<forall>c n. owner_chat d s = Some c \<longrightarrow> r = Inr n \<longrightarrow> told ts ls c (stale_request_id s)"
      "\<forall>e. r = Inl e \<longrightarrow> \<not> is_exception e"
      using job by (auto split: sum.splits)
    moreover from this have "told ts ls tid rid \<or> (\<exists>e. r = Inl e \<and> \<not> is_exception e)"
      using out owner by (cases r) auto
    moreover have "ob_active (outbox_of w) rid" "ob_status (outbox_of w') rid = Some ''failed''"
      using row act new job by (auto simp: ob_active_def outbox_of_def is_active_cases)
    ultimately have "gives_up mc cx tid rid w" using assms(3) by (auto simp: gives_up_def)
    then show ?thesis using given act m(2) by simp
  qed
qed

section \<open>What happens between the update and the job\<close>

text \<open>The bot handles an update, a worker runs a job, the reaper ticks, or the disk, the bot's previews and limits in Redis, the
  progress channel, Telegram, the clock and the locks of the database change by themselves.\<close>

datatype event =
    Handled update
  | Worked machine worker_ctx uuid int int
  | Reaped machine worker_ctx
  | Outside storage pubsub telegram time "uuid list" pstore limiter

fun happens :: "bot_env \<Rightarrow> event \<Rightarrow> bot \<Rightarrow> bot" where
  "happens env (Handled u) b = snd (dispatch env u b)"
| "happens env (Worked mc cx k chat_id message_id) b = b\<lparr>b_world := snd (download_job mc cx k chat_id message_id (b_world b))\<rparr>"
| "happens env (Reaped mc cx) b = b\<lparr>b_world := snd (reap_stale_requests_job mc cx (b_world b))\<rparr>"
| "happens env (Outside fs ps t now locked previews limits) b =
     b\<lparr>b_world := (b_world b)\<lparr>w_fs := fs, w_pub := ps, w_tg := t, w_db := (w_db (b_world b))\<lparr>db_clock := now, db_locked := locked\<rparr>\<rparr>,
       b_store := previews, b_limiter := limits\<rparr>"

text \<open>The job of the request itself has not run yet.\<close>

fun before_job :: "uuid \<Rightarrow> event \<Rightarrow> bool" where
  "before_job rid (Worked _ _ k _ _) = (k \<noteq> rid)"
| "before_job rid (Reaped mc _) = about_others rid (mc_db_between mc)"
| "before_job rid _ = True"

lemma happens_keeps:
  assumes "before_job rid e" and "bot_stands a tid rid b"
  shows "bot_stands a tid rid (happens env e b) \<or>
    a \<and> bot_stands False tid rid (happens env e b) \<and> (\<exists>mc cx. e = Reaped mc cx \<and> gives_up mc cx tid rid (b_world b))"
proof (cases e)
  case (Handled u)
  then show ?thesis using assms(2) by (simp add: keepsD [OF update_keeps(1)])
next
  case (Worked mc cx k c m)
  then show ?thesis using assms by (simp add: bot_stands_def keepsD [OF job_keeps_others])
next
  case (Reaped mc cx)
  then show ?thesis using tick_on_request [OF _ _ surjective_pairing] assms by (simp add: bot_stands_def)
next
  case (Outside fs ps t now locked previews limits)
  then show ?thesis
    using assms(2) stands_step [where w = "b_world b" and w' = "b_world (happens env e b)", OF assms(2) [unfolded bot_stands_def]]
    by (simp add: bot_stands_def users_kept_same find_request_def rows_distinct_def stands_def distinct_ids_def)
qed

lemma given_up_stays:
  "list_all (before_job rid) es \<Longrightarrow> bot_stands False tid rid b \<Longrightarrow> bot_stands False tid rid (fold (happens env) es b)"
  by (induction es arbitrary: b) (auto dest: happens_keeps)

lemma all_happen:
  assumes "list_all (before_job rid) es" and "bot_stands True tid rid b"
  shows "bot_stands True tid rid (fold (happens env) es b) \<or>
    bot_stands False tid rid (fold (happens env) es b) \<and>
    (\<exists>before mc cx after. es = before @ Reaped mc cx # after \<and> gives_up mc cx tid rid (b_world (fold (happens env) before b)))"
  using assms
proof (induction es arbitrary: b)
  case (Cons e es)
  show ?case
  proof (cases "bot_stands True tid rid (happens env e b)")
    case True
    from Cons.IH [OF _ this] Cons.prems(1) show ?thesis
      by simp (metis append_Cons fold_simps(2))
  next
    case False
    then obtain mc cx where "bot_stands False tid rid (happens env e b)" "e = Reaped mc cx" "gives_up mc cx tid rid (b_world b)"
      using happens_keeps [of rid e True tid b env] Cons.prems by auto
    then show ?thesis using given_up_stays Cons.prems(1) by simp (metis append_Nil fold_simps(1))
  qed
qed simp

text \<open>C2: who starts a download gets an answer.  When an update of a user leaves a job in the queue that was not there before, by
  whatever handler, then whatever the bot does for this user or others afterwards, whatever jobs of other requests run, however they
  end, however often the reaper ticks, and whatever becomes of the disk, Redis, Telegram and the clock: the job, if it returns, has
  sent exactly this user either the file, with the request recorded as done, or one text, with the request recorded as failed; or
  a tick of the reaper had given the request up and told this user (or logged that it could not, or was cancelled), and then the
  job does nothing.\<close>

theorem every_download_answers_its_sender:
  assumes "db_ok (w_db (b_world b))" and "update_sender u = Some sender"
    and "DownloadArgs rid chat_id message_id \<in> set (download_jobs (snd (dispatch env u b))) - set (download_jobs b)"
    and "list_all (before_job rid) es" and "w = b_world (fold (happens env) es (snd (dispatch env u b)))"
    and "download_job mc cx rid chat_id message_id w = (Inr (), w2)"
  shows "(\<exists>f. ob_status (outbox_of w2) rid = Some ''done'' \<and> tg_files (w_tg w2) = tg_files (w_tg w) @ [(tg_id sender, f)] \<and>
              tg_texts (w_tg w2) = tg_texts (w_tg w)) \<or>
         (\<exists>txt. ob_status (outbox_of w2) rid = Some ''failed'' \<and> tg_files (w_tg w2) = tg_files (w_tg w) \<and>
              tg_texts (w_tg w2) = tg_texts (w_tg w) @ [(tg_id sender, txt)]) \<or>
         (w_tg w2 = w_tg w \<and> w_fs w2 = w_fs w \<and> db_requests (w_db w2) = db_requests (w_db w) \<and>
          (\<exists>before mc' cx' after. es = before @ Reaped mc' cx' # after \<and>
             gives_up mc' cx' (tg_id sender) rid (b_world (fold (happens env) before (snd (dispatch env u b))))))"
proof -
  have "bot_stands True (tg_id sender) rid (snd (dispatch env u b))"
    by (simp add: bot_stands_def new_job_stands [OF assms(1-3)])
  from all_happen [OF assms(4) this, of env] show ?thesis
  proof (elim disjE conjE)
    assume "bot_stands True (tg_id sender) rid (fold (happens env) es (snd (dispatch env u b)))"
    then have "ready_for (tg_id sender) rid w" "distinct_ids w" by (simp_all add: bot_stands_def stands_ready assms(5))
    from ready_job_answers [OF this assms(6)] show ?thesis by blast
  next
    assume "bot_stands False (tg_id sender) rid (fold (happens env) es (snd (dispatch env u b)))"
    then obtain m v where "reachable w rid m v (tg_id sender)" "\<not> is_active m" "distinct_ids w"
      by (auto simp: bot_stands_def stands_def assms(5))
    from inactive_request_is_skipped [OF this assms(6)] show "\<exists>before mc' cx' after. es = before @ Reaped mc' cx' # after \<and>
             gives_up mc' cx' (tg_id sender) rid (b_world (fold (happens env) before (snd (dispatch env u b)))) \<Longrightarrow> ?thesis"
      by blast
  qed
qed

section \<open>Witness\<close>

text \<open>A tap starts a download; the job of another request runs; then the job of the tap, whose child dies.\<close>

abbreviation example_started :: bot where
  "example_started \<equiv> snd (dispatch example_env (CallbackUpdate (example_tap ''dl:t1:v720'')) example_bot)"

abbreviation example_other_job :: event where
  "example_other_job \<equiv> Worked (example_machine dying_child) example_ctx 11 5 6"

lemma example_new_job: "download_jobs example_started = [DownloadArgs 50 100 60]"
  by code_simp

lemma example_start_stands: "bot_stands True 100 50 example_started"
proof -
  have ok: "db_ok (w_db (b_world example_bot))" by (simp add: example_bot_def example_world_def example_db_ok)
  have from_user: "update_sender (CallbackUpdate (example_tap ''dl:t1:v720'')) = Some \<lparr>tg_id = 100, tg_language_code = Some ''en''\<rparr>"
    by (simp add: update_sender_def example_tap_def)
  have new: "DownloadArgs 50 100 60 \<in> set (download_jobs example_started) - set (download_jobs example_bot)"
    unfolding example_new_job example_bot_idle by simp
  show ?thesis using new_job_stands [OF ok from_user new] by (simp add: bot_stands_def)
qed

text \<open>The other end is possible too: the clock moves on, and the next tick of the reaper gives the request up.\<close>

abbreviation example_later :: event where
  "example_later \<equiv> Outside (w_fs (example_world None)) (w_pub (example_world None)) (w_tg (example_world None))
     10000 [] (b_store example_bot) fresh_limiter"

lemma example_tick:
  "map_option row_status (find_request 50 (w_db (snd (reap_stale_requests_job (example_machine dying_child) example_ctx
     (b_world (happens example_env example_later example_started)))))) = Some ''failed''"
  by code_simp

lemma example_given_up:
  "gives_up (example_machine dying_child) example_ctx 100 50 (b_world (happens example_env example_later example_started))"
proof -
  have "about_others 50 (mc_db_between (example_machine dying_child))"
    by (simp add: about_others_def example_machine_def users_kept_same)
  moreover have "stands True 100 50 (b_world (happens example_env example_later example_started))"
    using happens_keeps [of 50 example_later True 100 example_started example_env] example_start_stands
    by (simp add: bot_stands_def del: happens.simps)
  moreover have "\<not> stands True 100 50 (snd (reap_stale_requests_job (example_machine dying_child) example_ctx
      (b_world (happens example_env example_later example_started))))"
    using example_tick by (auto simp: stands_def reachable_def is_active_cases)
  ultimately show ?thesis using tick_on_request [OF _ _ surjective_pairing] by blast
qed

lemma example_answered:
  "fst (download_job (example_machine dying_child) example_ctx 50 100 60 (b_world (happens example_env example_other_job example_started))) = Inr ()"
  by code_simp

theorem every_download_answers_its_sender_witness:
  "let w = b_world (happens example_env example_other_job example_started);
       w2 = snd (download_job (example_machine dying_child) example_ctx 50 100 60 w)
   in length (tg_files (w_tg w2)) + length (tg_texts (w_tg w2)) = length (tg_files (w_tg w)) + length (tg_texts (w_tg w)) + 1"
proof -
  let ?w = "b_world (happens example_env example_other_job example_started)"
  let ?m = "download_job (example_machine dying_child) example_ctx 50 100 60"
  have ok: "db_ok (w_db (b_world example_bot))" by (simp add: example_bot_def example_world_def example_db_ok)
  have from_user: "update_sender (CallbackUpdate (example_tap ''dl:t1:v720'')) = Some \<lparr>tg_id = 100, tg_language_code = Some ''en''\<rparr>"
    by (simp add: update_sender_def example_tap_def)
  have new: "DownloadArgs 50 100 60 \<in> set (download_jobs example_started) - set (download_jobs example_bot)"
    unfolding example_new_job example_bot_idle by simp
  have others: "list_all (before_job 50) [example_other_job]" by simp
  have w: "?w = b_world (fold (happens example_env) [example_other_job] example_started)" by simp
  have run: "?m ?w = (Inr (), snd (?m ?w))" using example_answered by (simp add: prod_eq_iff)
  show ?thesis
    unfolding Let_def using every_download_answers_its_sender [OF ok from_user new others w run] by (auto simp: Cons_eq_append_conv)
qed

end
