(* ===== verification/Spec2Isabelle.thy ===== *)
theory Spec2Isabelle
  imports UrlValidation Policy Keyboards DatabaseFacts DownloadFacts Storage RateLimiter
    PreviewStore DeliveryFilename WorkerFacts UseCasesFacts Reaper Lifecycle ProgressListener BotProperties MigrationFacts Process Language
    RateLimiterRace Registration EndToEnd
begin

text \<open>
  Universal Media Downloader is a Telegram bot that downloads media with yt-dlp.  It runs as two processes.
  The bot (\<open>src/main.py\<close>) handles updates: it previews a link, offers formats, stores a download request in
  PostgreSQL and enqueues a job.  The worker (\<open>src/infrastructure/queue/worker_settings.py\<close>) runs the jobs of the
  arq queue: it downloads in a child process, sends the file and records the outcome; two cron jobs fail
  requests nobody works on any more and remove old files.  The processes share PostgreSQL and Redis; progress
  travels from the worker to the bot over Redis pub/sub.

  How the code is modelled.

  \<^item> A coroutine or method with effects is a function from a world to an outcome and the world after it
    (\<open>io\<close> in \<open>Prelude\<close>): \<open>Inl e\<close> when it raises, \<open>Inr x\<close> when it returns.  \<open>bindE\<close>, \<open>try_except\<close>, \<open>finallyE\<close> and
    \<open>attempt\<close> are sequencing and the forms of \<open>try\<close>; \<open>zoom\<close> runs a component inside a larger world.  Exceptions are
    the datatype \<open>exn\<close> of \<open>Domain\<close>; \<open>CancelledError\<close> is the one \<open>except Exception\<close> does not catch.
  \<^item> Classes are records, enums datatypes with the stored values as functions, protocols records of operations
    (\<open>Ports\<close>), dictionaries association lists or maps, Python integers \<open>int\<close>, floats the rationals they denote.
  \<^item> Text is a list of characters U+0000 to U+00FF, on which \<open>lower\<close>, \<open>strip\<close> and \<open>split\<close> are Python's.  Texts of
    the program outside this range (Russian messages of the URL validation, the default title) are stood in for by
    English ones.  File names and titles are lists of code points (\<open>DeliveryFilename\<close>).
  \<^item> What other systems answer is part of the state or a parameter: Telegram's, Redis' and the queue's answers to the
    n-th call, the child process of a download and what it leaves in its directory, file sizes, Unicode
    normalization, \<open>ipaddress\<close>' check of a bracketed host (the record \<open>machine\<close> of \<open>World\<close>), the Fluent texts,
    aiogram's parser of commands (\<open>bot_env\<close> of \<open>Bot\<close>).  PostgreSQL, the sorted sets and strings of Redis and the
    download directory are modelled as far as the program uses them.

  The theories and the code.

  \<^item> \<open>Prelude\<close>: text, numerals, the effect combinators with \<open>keeps\<close> (a step preserves a predicate).
    \<open>Values\<close>: Python values, JSON, comparisons and conversions.  \<open>Domain\<close>: \<open>src/domain\<close>, exceptions, enums, specs, entities and
    value objects.
  \<^item> \<open>UrlValidation\<close>, \<open>Policy\<close>, \<open>DeliveryFilename\<close>: \<open>url_validation.py\<close>, \<open>format_policy.py\<close>, \<open>delivery_filename.py\<close>.
  \<^item> \<open>Database\<close>, \<open>DatabaseFacts\<close>: the two tables of \<open>models.py\<close> with their constraints, \<open>session_scope\<close>, the repositories
    and their one-transaction-per-call variants.  \<open>Migrations\<close>, \<open>MigrationFacts\<close>: the scripts of \<open>infra/alembic/versions\<close>
    as lists of statements, a machine that runs them on tables with rows, and the schema the models declare.
  \<^item> \<open>Downloader\<close>, \<open>DownloadRun\<close>, \<open>DownloadFacts\<close>, \<open>ErrorClassifier\<close>: \<open>src/infrastructure/downloader\<close>, the side of the child
    process, the side that waits for it, and the classification of yt-dlp's errors.
  \<^item> \<open>Storage\<close>, \<open>RateLimiter\<close>, \<open>PreviewStore\<close>, \<open>Delivery\<close>, \<open>Health\<close>: the adapters of \<open>src/infrastructure\<close> to the file
    system, Redis, Telegram and the probes.  \<open>RateLimiterRace\<close>: attempts on the limiter that overlap.
    \<open>Redis\<close>: the connection under the limiter and the store, whose commands are answered, refused, or executed with
    their reply lost.
  \<^item> \<open>Ports\<close>, \<open>ProcessDownload\<close>, \<open>Worker\<close>, \<open>WorkerFacts\<close>: the interfaces, the worker's use case over them, its abstract
    specification \<open>job\<close>, and the job of \<open>jobs.py\<close> on the adapters.  \<open>Reaper\<close>: the cron jobs and the ping.
  \<^item> \<open>World\<close>: the state both processes share and the adapters as ports on it.  \<open>UseCases\<close>, \<open>UseCasesFacts\<close>: the bot's use cases and
    \<open>src/composition.py\<close>.  \<open>Registration\<close>: registrations of one user that overlap.  \<open>Settings\<close>: \<open>src/config/settings.py\<close> and what the processes build from it.
  \<^item> \<open>Lifecycle\<close>: the requests of the whole system as a step relation: bots, workers, the reaper, crashes and time.
  \<^item> \<open>Keyboards\<close>, \<open>Formatting\<close>, \<open>I18n\<close>, \<open>Chat\<close>, \<open>ProgressListener\<close>: the parts of \<open>src/presentation/telegram\<close> around the handlers.
    \<open>Bot\<close>, \<open>Flow\<close>: the state of the bot process, every handler, the dispatch in router order, the wiring of \<open>main.py\<close>.
    \<open>BotFrame\<close>, \<open>BotFacts\<close>, \<open>BotProperties\<close>: what handlers leave alone, and the properties of the bot.
  \<^item> \<open>Observability\<close>: \<open>src/shared/logging.py\<close> and \<open>observability/sentry.py\<close>.  \<open>Process\<close>: \<open>main\<close>, the worker's \<open>startup\<close>, \<open>shutdown\<close>
    and \<open>WorkerSettings\<close>, over named calls that open and close things and may raise.
  \<^item> \<open>Language\<close>: the choice of a language across the bot's cache and the database the worker reads.
    \<open>EndToEnd\<close>: from the update that starts a download, over whatever the bot and the workers do meanwhile, to its answer.

  Interfaces are locales: \<open>worker\<close> (what the use case needs of its ports, interpreted on the real adapters in
  \<open>Worker\<close>), \<open>preview_context_store\<close> (interpreted on the Redis store), \<open>bot_frame\<close> and its extensions (interpreted on the
  predicates of \<open>BotFacts\<close> and \<open>EndToEnd\<close>), \<open>table_frame\<close> (from repository calls to use cases, interpreted on the predicates of
  \<open>EndToEnd\<close>).

  What is shown.

  \<^item> A job refines its specification: it is skipped, or ends with the file sent and the request done, or a text sent and
    the request failed, or an exception at a named point; whatever it does its files are released.  A request that
    was accepted is committed before its job can start; its job answers the user who sent the update, whatever the bot does for
    anybody and the workers do for other requests in between, unless a tick of the reaper has given the request up and told the user.
  \<^item> Over all interleavings of the system the status of a request only moves forward, the reaper never fails a request a
    live job works on, tells each owner once, and works off any backlog.
  \<^item> A user enqueues at most the configured number of downloads in any window of an hour, through whatever mixture of
    handlers; a card starts at most one download, for a stored link, in a format the policy allows; \<open>/download\<close> passes
    the same checks; refused links cost nothing; operational commands are silent to strangers; menu taps are never
    taken for links.  With overlapping attempts the limiter lets through the limit and, less one, the number that overlap.
    All of these hold whatever commands to Redis fail.
  \<^item> Progress that was published is rendered on its card, at most every three seconds; a chosen language takes
    effect in both processes.
  \<^item> The repositories keep the schema, a claim is a compare-and-set, previews and downloads fail only with
    categorized errors, waiting for a child and collecting a preview are bounded in time, the size limit is enforced before the
    download, the limiter's window, the store's lifetimes, the allowlist, the kill switch, the cleanup, the file name.
  \<^item> The migrations build exactly the schema the models declare, from an empty database and from one with requests of
    the fourth revision, each of which stays readable with the tier it had; the tier migration loses what it says it does.
  \<^item> An event for Sentry carries its job and request and loses no field; configuring logging twice is configuring it once.
  \<^item> Where the code does not do what it says, a theorem shows what it does: a failed \<open>PUBLISH\<close> strands a request, the
    progress listener ends at the first exception that is no bad request, a large result of a child times out, a
    default job budget can be exceeded, \<open>/preview\<close> asks neither the allowlist nor a limit, a
    listener that died keeps the bot from closing its connections, of two first updates of one user that overlap one raises.

  Loops and bounds.  Polling loops recurse on time with a measure; the child's queues are finite lists; no definition
  uses fuel; \<open>upgrade_steps\<close> is given one step per migration, and there is no longer chain.  Tokens are distinct while fewer than \<open>16 ^ 32\<close> are drawn.  Clocks are one reading per update.

  Not modelled.  Updates and jobs are atomic with respect to each other except in \<open>Lifecycle\<close>, \<open>RateLimiterRace\<close>, \<open>Registration\<close> and where the parameters
  \<open>mc_db_between\<close>, \<open>mc_fs_between\<close> and \<open>meanwhile\<close> let others act in between.  Redis may fail at every command the
  program sends except those of aiogram's FSM storage.  Polling, how a log
  line is rendered, the SQL of the statements, Alembic's offline mode and yt-dlp, ffprobe, arq, aiogram,
  SQLAlchemy, redis-py, structlog, the Sentry SDK and Fluent themselves are outside.
\<close>

end
